(* ===== verification/Prelude.thy ===== *)
theory Prelude
  imports Main "HOL-Library.Sublist"
begin

text \<open>
  Shared vocabulary of the development.

  \<^item> Types. A Python \<open>str\<close> is a list of code points (\<open>pystr\<close>, each code point a
    \<open>nat\<close>), so that \<open>len\<close>, slicing and \<open>in\<close> count what Python counts. A UUID is its
    128-bit integer value (PostgreSQL orders UUIDs by it), a \<open>timestamptz\<close> is a number
    of microseconds.
  \<^item> The string operations of the standard library that the source uses: \<open>strip\<close>,
    \<open>split\<close>, \<open>join\<close>, \<open>in\<close>, \<open>startswith\<close>, \<open>removeprefix\<close>, \<open>casefold\<close>, \<open>upper\<close>, \<open>str(int)\<close>.
    What depends on the Unicode Character Database is a record \<open>ucd\<close> of tables that the
    definitions take as an argument; \<open>latin1\<close> is the instance for the first 256 code points.
  \<^item> Tables. \<open>insert_nothing\<close> is \<open>INSERT ... ON CONFLICT DO NOTHING\<close> on a list of rows;
    \<open>one\<close>, \<open>one_or_none\<close> are the result accessors of the same names.
\<close>

section \<open>Types\<close>

type_synonym pystr = "nat list"
type_synonym uuid = nat
type_synonym micros = int

text \<open>A Python \<open>datetime\<close>: with a time zone (its instant) or without.\<close>

datatype datetime = Aware micros | Naive micros

fun has_tz :: "datetime \<Rightarrow> bool" where
  "has_tz (Aware t) = True"
| "has_tz (Naive t) = False"

fun instant :: "datetime \<Rightarrow> micros" where
  "instant (Aware t) = t"
| "instant (Naive t) = t"

text \<open>A string literal of the source whose characters are ASCII.\<close>

definition lit :: "string \<Rightarrow> pystr" where
  "lit s = map of_char s"

named_theorems piki_defs \<open>definitions of operations, unfolded together\<close>
named_theorems valid_defs \<open>validity predicates of the data contracts\<close>

section \<open>Lists\<close>

lemma length_lit [simp]: "length (lit s) = length s"
  by (simp add: lit_def)

lemma lit_Nil [simp]: "lit [] = []"
  by (simp add: lit_def)

lemma lit_eq_Nil [simp]: "lit s = [] \<longleftrightarrow> s = []"
  by (simp add: lit_def)

lemma lit_append [simp]: "lit (s @ t) = lit s @ lit t"
  by (simp add: lit_def)

lemma lit_Cons: "lit (c # s) = of_char c # lit s"
  by (simp add: lit_def)

lemma inj_of_char_nat: "inj (of_char :: char \<Rightarrow> nat)"
  by (simp add: inj_def of_char_eq_iff)

lemma lit_inject [simp]: "lit s = lit t \<longleftrightarrow> s = t"
  unfolding lit_def by (simp add: inj_map_eq_map inj_of_char_nat)

text \<open>Truth value of an optional string: \<open>if text\<close> is false for \<open>None\<close> and for the empty string.\<close>

fun truthy :: "'a list option \<Rightarrow> bool" where
  "truthy None = False"
| "truthy (Some s) = (s \<noteq> [])"

definition or_empty :: "'a list option \<Rightarrow> 'a list" where
  "or_empty x = (case x of None \<Rightarrow> [] | Some s \<Rightarrow> s)"

lemma or_empty_simps [simp]: "or_empty None = []" "or_empty (Some s) = s"
  by (simp_all add: or_empty_def)

lemma truthy_iff: "truthy x \<longleftrightarrow> or_empty x \<noteq> []"
  by (cases x) auto

lemma list_all2_concat_map:
  assumes "list_all2 R xs ys" and "\<And>x y. R x y \<Longrightarrow> list_all2 P (f x) (g y)"
  shows "list_all2 P (concat (map f xs)) (concat (map g ys))"
  using assms(1) by (induction rule: list_all2_induct) (auto intro: list_all2_appendI assms(2))

lemma list_all2_left_witness: "list_all2 R xs ys \<Longrightarrow> x \<in> set xs \<Longrightarrow> \<exists>y. R x y"
  by (auto simp: list_all2_conv_all_nth in_set_conv_nth)

section \<open>Python strings\<close>

text \<open>Code points for which \<open>str.isspace\<close> holds: what \<open>strip\<close>, \<open>split\<close> and \<open>\s\<close> treat as white space.\<close>

definition is_space :: "nat \<Rightarrow> bool" where
  "is_space c \<longleftrightarrow> (9 \<le> c \<and> c \<le> 13) \<or> (28 \<le> c \<and> c \<le> 32) \<or> c = 133 \<or> c = 160 \<or> c = 5760
     \<or> (8192 \<le> c \<and> c \<le> 8202) \<or> c = 8232 \<or> c = 8233 \<or> c = 8239 \<or> c = 8287 \<or> c = 12288"

definition rstrip_by :: "(nat \<Rightarrow> bool) \<Rightarrow> pystr \<Rightarrow> pystr" where
  "rstrip_by p s = rev (dropWhile p (rev s))"

definition strip :: "pystr \<Rightarrow> pystr" where
  "strip s = rstrip_by is_space (dropWhile is_space s)"

lemma rstrip_by_prefix: "prefix (rstrip_by p s) s"
  by (metis prefixI rev_append rev_rev_ident rstrip_by_def takeWhile_dropWhile_id)

lemma length_rstrip_by: "length (rstrip_by p s) \<le> length s"
  by (rule prefix_length_le) (rule rstrip_by_prefix)

lemma length_strip: "length (strip s) \<le> length s"
  unfolding strip_def by (metis length_rstrip_by length_dropWhile_le le_trans)

lemma rstrip_by_eq_Nil: "rstrip_by p s = [] \<longleftrightarrow> (\<forall>c \<in> set s. p c)"
  by (simp add: rstrip_by_def dropWhile_eq_Nil_conv)

lemma strip_eq_Nil: "strip s = [] \<longleftrightarrow> (\<forall>c \<in> set s. is_space c)"
  unfolding strip_def rstrip_by_eq_Nil
  by (metis dropWhile_eq_Nil_conv hd_dropWhile list.set_sel(1) set_dropWhileD)

lemma strip_Nil [simp]: "strip [] = []"
  by (simp add: strip_eq_Nil)

lemma last_rstrip_by: "rstrip_by p s \<noteq> [] \<Longrightarrow> \<not> p (last (rstrip_by p s))"
  unfolding rstrip_by_def by (metis Nil_is_rev_conv hd_dropWhile last_rev)

lemma rstrip_by_id: "s = [] \<or> \<not> p (last s) \<Longrightarrow> rstrip_by p s = s"
  by (cases s rule: rev_cases) (auto simp: rstrip_by_def)

lemma rstrip_by_idem [simp]: "rstrip_by p (rstrip_by p s) = rstrip_by p s"
  by (rule rstrip_by_id) (use last_rstrip_by in blast)

lemma hd_strip: "strip s \<noteq> [] \<Longrightarrow> \<not> is_space (hd (strip s))"
proof -
  assume ne: "strip s \<noteq> []"
  then have d: "dropWhile is_space s \<noteq> []"
    by (metis rstrip_by_eq_Nil strip_def list.set(1) empty_iff)
  from rstrip_by_prefix obtain t where
    "dropWhile is_space s = rstrip_by is_space (dropWhile is_space s) @ t"
    by (auto simp: prefix_def)
  then have "hd (dropWhile is_space s) = hd (strip s)"
    using ne by (metis hd_append2 strip_def)
  with d show ?thesis by (metis hd_dropWhile)
qed

lemma strip_strip [simp]: "strip (strip s) = strip s"
proof (cases "strip s = []")
  case False
  then have "dropWhile is_space (strip s) = strip s"
    using hd_strip by (metis dropWhile_eq_self_iff)
  then show ?thesis by (simp add: strip_def)
qed simp

text \<open>\<open>s.split()\<close>: the maximal runs of characters that are not white space.\<close>

function split_ws :: "pystr \<Rightarrow> pystr list" where
  "split_ws s =
     (let t = dropWhile is_space s
      in if t = [] then []
         else takeWhile (\<lambda>c. \<not> is_space c) t # split_ws (dropWhile (\<lambda>c. \<not> is_space c) t))"
  by pat_completeness auto
termination
proof (relation "measure length", goal_cases)
  case (2 s t)
  then have "\<not> is_space (hd t)" by (metis hd_dropWhile)
  with 2(2) have "length (dropWhile (\<lambda>c. \<not> is_space c) t) < length t"
    by (cases t) (simp_all add: le_imp_less_Suc length_dropWhile_le)
  moreover have "length t \<le> length s"
    using 2 by (simp add: length_dropWhile_le)
  ultimately show ?case by simp
qed simp

declare split_ws.simps [simp del]

definition join :: "pystr \<Rightarrow> pystr list \<Rightarrow> pystr" where
  "join sep xs = (case xs of [] \<Rightarrow> [] | y # ys \<Rightarrow> y @ concat (map (\<lambda>z. sep @ z) ys))"

lemma join_simps [simp]:
  "join sep [] = []" "join sep [x] = x" "join sep (x # y # ys) = x @ sep @ join sep (y # ys)"
  by (simp_all add: join_def)

text \<open>\<open>p in s\<close>, \<open>s.startswith(p)\<close>, \<open>s.removeprefix(p)\<close>.\<close>

fun starts_with :: "pystr \<Rightarrow> pystr \<Rightarrow> bool" where
  "starts_with [] s = True"
| "starts_with (x # p) [] = False"
| "starts_with (x # p) (y # s) = (x = y \<and> starts_with p s)"

fun occurs_in :: "pystr \<Rightarrow> pystr \<Rightarrow> bool" where
  "occurs_in p [] = (p = [])"
| "occurs_in p (y # s) = (starts_with p (y # s) \<or> occurs_in p s)"

definition removeprefix :: "pystr \<Rightarrow> pystr \<Rightarrow> pystr" where
  "removeprefix p s = (if starts_with p s then drop (length p) s else s)"

lemma starts_with_prefix: "starts_with p s \<longleftrightarrow> prefix p s"
  by (induction p s rule: starts_with.induct) auto

lemma occurs_in_sublist: "occurs_in p s \<longleftrightarrow> sublist p s"
  by (induction s) (auto simp: starts_with_prefix sublist_Cons_right)

lemma removeprefix_append [simp]: "removeprefix p (p @ s) = s"
  by (simp add: removeprefix_def starts_with_prefix)

lemma occurs_in_append_mid [simp]: "occurs_in p (xs @ p @ ys)"
  by (auto simp: occurs_in_sublist)

section \<open>Unicode tables\<close>

text \<open>
  What the source asks the Unicode Character Database for: full case folding and upper casing of
  a code point, compatibility decomposition of a string, non-zero combining class, the decimal
  value of a digit (\<open>\d\<close>), word characters (\<open>\w\<close>) and case-insensitive matching of a pattern
  character (\<open>re.IGNORECASE\<close>).
\<close>

record ucd =
  uc_fold :: "nat \<Rightarrow> pystr"
  uc_upper :: "nat \<Rightarrow> pystr"
  uc_nfkd :: "pystr \<Rightarrow> pystr"
  uc_combining :: "nat \<Rightarrow> bool"
  uc_digit :: "nat \<Rightarrow> nat option"
  uc_word :: "nat \<Rightarrow> bool"
  uc_ci :: "nat \<Rightarrow> nat \<Rightarrow> bool"

definition casefold :: "ucd \<Rightarrow> pystr \<Rightarrow> pystr" where
  "casefold u s = concat (map (uc_fold u) s)"

definition upper :: "ucd \<Rightarrow> pystr \<Rightarrow> pystr" where
  "upper u s = concat (map (uc_upper u) s)"

lemma casefold_simps [simp]:
  "casefold u [] = []" "casefold u (c # s) = uc_fold u c @ casefold u s"
  "casefold u (s @ t) = casefold u s @ casefold u t"
  by (simp_all add: casefold_def)

lemma upper_simps [simp]:
  "upper u [] = []" "upper u (c # s) = uc_upper u c @ upper u s"
  "upper u (s @ t) = upper u s @ upper u t"
  by (simp_all add: upper_def)

text \<open>The tables restricted to the first 256 code points: the instance that concrete inputs use.\<close>

definition latin1_lower :: "nat \<Rightarrow> nat" where
  "latin1_lower c =
     (if (65 \<le> c \<and> c \<le> 90) \<or> (192 \<le> c \<and> c \<le> 222 \<and> c \<noteq> 215) then c + 32 else c)"

definition latin1_upper :: "nat \<Rightarrow> pystr" where
  "latin1_upper c =
     (if c = 223 then [83, 83] else if c = 181 then [924] else if c = 255 then [376]
      else if (97 \<le> c \<and> c \<le> 122) \<or> (224 \<le> c \<and> c \<le> 254 \<and> c \<noteq> 247) then [c - 32] else [c])"

definition latin1_fold :: "nat \<Rightarrow> pystr" where
  "latin1_fold c =
     (if c = 223 then [115, 115] else if c = 181 then [956] else [latin1_lower c])"

definition latin1_decomp :: "nat \<Rightarrow> pystr" where
  "latin1_decomp c =
     (case map_of
        [(160, [32]), (168, [32, 776]), (170, [97]), (175, [32, 772]), (178, [50]), (179, [51]),
         (180, [32, 769]), (181, [956]), (184, [32, 807]), (185, [49]), (186, [111]),
         (188, [49, 8260, 52]), (189, [49, 8260, 50]), (190, [51, 8260, 52]),
         (192, [65, 768]), (193, [65, 769]), (194, [65, 770]), (195, [65, 771]), (196, [65, 776]),
         (197, [65, 778]), (199, [67, 807]), (200, [69, 768]), (201, [69, 769]), (202, [69, 770]),
         (203, [69, 776]), (204, [73, 768]), (205, [73, 769]), (206, [73, 770]), (207, [73, 776]),
         (209, [78, 771]), (210, [79, 768]), (211, [79, 769]), (212, [79, 770]), (213, [79, 771]),
         (214, [79, 776]), (217, [85, 768]), (218, [85, 769]), (219, [85, 770]), (220, [85, 776]),
         (221, [89, 769]), (224, [97, 768]), (225, [97, 769]), (226, [97, 770]), (227, [97, 771]),
         (228, [97, 776]), (229, [97, 778]), (231, [99, 807]), (232, [101, 768]), (233, [101, 769]),
         (234, [101, 770]), (235, [101, 776]), (236, [105, 768]), (237, [105, 769]),
         (238, [105, 770]), (239, [105, 776]), (241, [110, 771]), (242, [111, 768]),
         (243, [111, 769]), (244, [111, 770]), (245, [111, 771]), (246, [111, 776]),
         (249, [117, 768]), (250, [117, 769]), (251, [117, 770]), (252, [117, 776]),
         (253, [121, 769]), (255, [121, 776])] c of None \<Rightarrow> [c] | Some d \<Rightarrow> d)"

definition latin1_digit :: "nat \<Rightarrow> nat option" where
  "latin1_digit c = (if 48 \<le> c \<and> c \<le> 57 then Some (c - 48) else None)"

definition latin1_word :: "nat \<Rightarrow> bool" where
  "latin1_word c \<longleftrightarrow> (48 \<le> c \<and> c \<le> 57) \<or> (65 \<le> c \<and> c \<le> 90) \<or> c = 95 \<or> (97 \<le> c \<and> c \<le> 122)
     \<or> c \<in> set [170, 178, 179, 181, 185, 186, 188, 189, 190]
     \<or> (192 \<le> c \<and> c \<le> 255 \<and> c \<noteq> 215 \<and> c \<noteq> 247)"

definition latin1 :: ucd where
  "latin1 = \<lparr>uc_fold = latin1_fold, uc_upper = latin1_upper,
     uc_nfkd = (\<lambda>s. concat (map latin1_decomp s)), uc_combining = (\<lambda>c. 768 \<le> c \<and> c \<le> 879),
     uc_digit = latin1_digit, uc_word = latin1_word,
     uc_ci = (\<lambda>a b. latin1_lower a = latin1_lower b)\<rparr>"

lemma latin1_sel [simp]:
  "uc_fold latin1 = latin1_fold" "uc_upper latin1 = latin1_upper"
  "uc_digit latin1 = latin1_digit" "uc_word latin1 = latin1_word"
  by (simp_all add: latin1_def)

section \<open>Decimal numerals\<close>

fun dec_digits :: "nat \<Rightarrow> pystr" where
  "dec_digits n = (if n < 10 then [48 + n] else dec_digits (n div 10) @ [48 + n mod 10])"

declare dec_digits.simps [simp del]

definition str_int :: "int \<Rightarrow> pystr" where
  "str_int i = (if i < 0 then 45 # dec_digits (nat (- i)) else dec_digits (nat i))"

definition dec_value :: "pystr \<Rightarrow> nat" where
  "dec_value s = foldl (\<lambda>a c. 10 * a + (c - 48)) 0 s"

lemma dec_value_snoc [simp]: "dec_value (s @ [c]) = 10 * dec_value s + (c - 48)"
  by (simp add: dec_value_def)

lemma dec_value_digits [simp]: "dec_value (dec_digits n) = n"
proof (induction n rule: dec_digits.induct)
  case (1 n)
  then show ?case
    by (cases "n < 10") (simp_all add: dec_digits.simps [of n], simp add: dec_value_def)
qed

lemma dec_digits_range: "c \<in> set (dec_digits n) \<Longrightarrow> 48 \<le> c \<and> c \<le> 57"
proof (induction n rule: dec_digits.induct)
  case (1 n)
  then show ?case by (cases "n < 10") (auto simp: dec_digits.simps [of n])
qed

lemma dec_digits_ne [simp]: "dec_digits n \<noteq> []"
  by (subst dec_digits.simps) simp

lemma dec_digits_inject [simp]: "dec_digits m = dec_digits n \<longleftrightarrow> m = n"
  by (metis dec_value_digits)

section \<open>Tables\<close>

text \<open>
  A table is the list of its rows in insertion order. A unique constraint is a key function; a
  row whose key is \<open>None\<close> (a NULL column) conflicts with no row.
\<close>

definition conflicts :: "('r \<Rightarrow> 'k option) \<Rightarrow> 'r list \<Rightarrow> 'r \<Rightarrow> bool" where
  "conflicts key rows r \<longleftrightarrow> key r \<noteq> None \<and> key r \<in> set (map key rows)"

definition insert_nothing :: "('r \<Rightarrow> 'k option) \<Rightarrow> 'r \<Rightarrow> 'r list \<Rightarrow> 'r list" where
  "insert_nothing key r rows = (if conflicts key rows r then rows else rows @ [r])"

definition unique_on :: "('r \<Rightarrow> 'k option) \<Rightarrow> 'r list \<Rightarrow> bool" where
  "unique_on key rows \<longleftrightarrow> distinct (List.map_filter key rows)"

definition update_where :: "('r \<Rightarrow> bool) \<Rightarrow> ('r \<Rightarrow> 'r) \<Rightarrow> 'r list \<Rightarrow> 'r list" where
  "update_where p f rows = map (\<lambda>r. if p r then f r else r) rows"

lemma map_filter_append [simp]:
  "List.map_filter f (xs @ ys) = List.map_filter f xs @ List.map_filter f ys"
  by (induction xs) (auto simp: List.map_filter_simps split: option.splits)

lemma set_map_filter: "set (List.map_filter f xs) = {y. \<exists>x \<in> set xs. f x = Some y}"
  by (induction xs) (auto simp: List.map_filter_simps split: option.splits)

lemma unique_on_Nil [simp]: "unique_on key []"
  by (simp add: unique_on_def List.map_filter_simps)

lemma unique_on_append1:
  "unique_on key (rows @ [r]) \<longleftrightarrow> unique_on key rows \<and> \<not> conflicts key rows r"
  by (auto simp: unique_on_def conflicts_def List.map_filter_simps set_map_filter image_iff
      split: option.splits)

lemma unique_on_insert_nothing [simp, intro]:
  "unique_on key rows \<Longrightarrow> unique_on key (insert_nothing key r rows)"
  by (simp add: insert_nothing_def unique_on_append1)

lemma unique_on_key_eq:
  assumes "unique_on key rows" "r \<in> set rows" "r' \<in> set rows" "key r = Some k" "key r' = Some k"
  shows "r = r'"
  using assms
proof (induction rows)
  case (Cons x rows)
  then show ?case
    by (cases "key x") (auto simp: unique_on_def List.map_filter_simps set_map_filter)
qed simp

lemma map_filter_map_cong:
  "(\<And>r. r \<in> set rows \<Longrightarrow> key (f r) = key r) \<Longrightarrow>
   List.map_filter key (map f rows) = List.map_filter key rows"
  by (induction rows) (auto simp: List.map_filter_simps split: option.splits)

lemma unique_on_update_where:
  "(\<And>r. r \<in> set rows \<Longrightarrow> p r \<Longrightarrow> key (f r) = key r) \<Longrightarrow>
   unique_on key (update_where p f rows) = unique_on key rows"
  unfolding unique_on_def update_where_def by (subst map_filter_map_cong) auto

lemma map_update_where [simp]:
  "(\<And>r. r \<in> set rows \<Longrightarrow> p r \<Longrightarrow> g (f r) = g r) \<Longrightarrow> map g (update_where p f rows) = map g rows"
  by (auto simp: update_where_def)

lemma update_where_none: "(\<And>r. r \<in> set rows \<Longrightarrow> \<not> p r) \<Longrightarrow> update_where p f rows = rows"
  by (simp add: update_where_def map_idI)

lemma length_update_where [simp]: "length (update_where p f rows) = length rows"
  by (simp add: update_where_def)

lemma in_update_where:
  "r \<in> set (update_where p f rows) \<longleftrightarrow> (\<exists>x \<in> set rows. r = (if p x then f x else x))"
  by (auto simp: update_where_def)

lemma updated_in: "r \<in> set rows \<Longrightarrow> (if p r then f r else r) \<in> set (update_where p f rows)"
  by (auto simp: in_update_where)

lemma find_filter: "find p xs = (case filter p xs of [] \<Rightarrow> None | x # _ \<Rightarrow> Some x)"
  by (induction xs) auto

lemma find_SomeD: "find p xs = Some x \<Longrightarrow> x \<in> set xs \<and> p x"
  by (induction xs) (auto split: if_splits)

lemma filter_unique_key:
  assumes "unique_on key rows" "r \<in> set rows" "key r = Some k"
  shows "filter (\<lambda>x. key x = Some k) rows = [r]"
  using assms
proof (induction rows)
  case (Cons x rows)
  show ?case
  proof (cases "key x = Some k")
    case True
    with Cons.prems have "k \<notin> set (List.map_filter key rows)" and "x = r"
      using unique_on_key_eq [OF Cons.prems(1), of r x k]
      by (auto simp: unique_on_def List.map_filter_simps)
    then show ?thesis using True by (auto simp: set_map_filter filter_empty_conv)
  next
    case False
    then have "r \<in> set rows" using Cons.prems by auto
    moreover have "unique_on key rows" using Cons.prems(1)
      by (auto simp: unique_on_def List.map_filter_simps split: option.splits)
    ultimately show ?thesis using Cons False by simp
  qed
qed simp

end
