(* ===== verification/Contracts.thy ===== *)
theory Contracts
  imports Prelude
begin

text \<open>
  The typed contracts of \<open>src/src/piki/domain/contracts.py\<close>: enumerations, records and their
  validators, and the exceptions that the components raise. A pydantic model is a record together
  with a predicate \<open>valid_...\<close> that conjoins the field constraints and the \<open>model_validator\<close>;
  calling its constructor is \<open>construct valid_... r\<close>, which returns the record or raises
  \<open>ValidationError\<close>.
\<close>

section \<open>Enumerations\<close>

datatype channel = WHATSAPP | WEB

datatype message_kind = MK_TEXT | MK_IMAGE | MK_INTERACTIVE | MK_UNSUPPORTED

datatype tool_error_code = BAD_REQUEST | UNAUTHORIZED | NOT_FOUND | RATE_LIMITED | TIMEOUT
  | UPSTREAM_UNAVAILABLE | INTERNAL_ERROR

datatype evidence_source = BUENPICK_INTERNAL_API | CONVERSATION | POLICY

datatype response_mode = DETERMINISTIC | JINJA | JINJA_LLM | NON_COMMERCIAL_LLM

datatype delivery_kind = DK_TEXT | DK_IMAGE | DK_INTERACTIVE | DK_TEMPLATE

datatype service_window = WINDOW_OPEN | WINDOW_CLOSED | WINDOW_UNKNOWN

datatype delivery_status = UNKNOWN | ACCEPTED | SENT | DELIVERED | READ | FAILED

datatype action_outcome = OUT_SUCCEEDED | OUT_FAILED | OUT_SKIPPED

text \<open>The string values of the enumerations that end up in keys, events and prompts.\<close>

fun channel_value :: "channel \<Rightarrow> pystr" where
  "channel_value WHATSAPP = lit ''whatsapp''"
| "channel_value WEB = lit ''web''"

fun tool_error_value :: "tool_error_code \<Rightarrow> pystr" where
  "tool_error_value BAD_REQUEST = lit ''bad_request''"
| "tool_error_value UNAUTHORIZED = lit ''unauthorized''"
| "tool_error_value NOT_FOUND = lit ''not_found''"
| "tool_error_value RATE_LIMITED = lit ''rate_limited''"
| "tool_error_value TIMEOUT = lit ''timeout''"
| "tool_error_value UPSTREAM_UNAVAILABLE = lit ''upstream_unavailable''"
| "tool_error_value INTERNAL_ERROR = lit ''internal_error''"

fun evidence_source_value :: "evidence_source \<Rightarrow> pystr" where
  "evidence_source_value BUENPICK_INTERNAL_API = lit ''buenpick_internal_api''"
| "evidence_source_value CONVERSATION = lit ''conversation''"
| "evidence_source_value POLICY = lit ''policy''"

fun response_mode_value :: "response_mode \<Rightarrow> pystr" where
  "response_mode_value DETERMINISTIC = lit ''deterministic''"
| "response_mode_value JINJA = lit ''jinja''"
| "response_mode_value JINJA_LLM = lit ''jinja_llm''"
| "response_mode_value NON_COMMERCIAL_LLM = lit ''non_commercial_llm''"

text \<open>\<open>LLMErrorCode\<close> of \<open>composition/contracts.py\<close>, needed by the exception type.\<close>

datatype llm_error_code = LLM_BAD_REQUEST | LLM_UNAUTHORIZED | LLM_RATE_LIMITED | LLM_TIMEOUT
  | LLM_UNAVAILABLE | LLM_REFUSED | LLM_INVALID_RESPONSE

fun llm_error_value :: "llm_error_code \<Rightarrow> pystr" where
  "llm_error_value LLM_BAD_REQUEST = lit ''bad_request''"
| "llm_error_value LLM_UNAUTHORIZED = lit ''unauthorized''"
| "llm_error_value LLM_RATE_LIMITED = lit ''rate_limited''"
| "llm_error_value LLM_TIMEOUT = lit ''timeout''"
| "llm_error_value LLM_UNAVAILABLE = lit ''unavailable''"
| "llm_error_value LLM_REFUSED = lit ''refused''"
| "llm_error_value LLM_INVALID_RESPONSE = lit ''invalid_response''"

section \<open>Exceptions and results\<close>

text \<open>
  The exceptions that the modelled code raises or handles, by class. \<open>OtherError name\<close> is an
  exception of another class, raised by code outside the model.
\<close>

datatype exn =
    ValidationError
  | ValueError
  | RuntimeError
  | AssertionError
  | TypeError
  | OverflowError
  | KeyError
  | DataError
  | IntegrityError
  | NoResultFound
  | MultipleResultsFound
  | ConversationBusyError
  | MetaWebhookError
  | MetaIngressRetryableError
  | BuenPickClientError tool_error_code pystr "int option"
  | BuenPickConfigurationError
  | CheckoutDisabledError
  | LLMAdapterError llm_error_code pystr "int option"
  | HTTPException nat
  | OtherError pystr

type_synonym 'a res = "exn + 'a"

fun exn_class_name :: "exn \<Rightarrow> pystr" where
  "exn_class_name ValidationError = lit ''ValidationError''"
| "exn_class_name ValueError = lit ''ValueError''"
| "exn_class_name RuntimeError = lit ''RuntimeError''"
| "exn_class_name AssertionError = lit ''AssertionError''"
| "exn_class_name TypeError = lit ''TypeError''"
| "exn_class_name OverflowError = lit ''OverflowError''"
| "exn_class_name KeyError = lit ''KeyError''"
| "exn_class_name DataError = lit ''DataError''"
| "exn_class_name IntegrityError = lit ''IntegrityError''"
| "exn_class_name NoResultFound = lit ''NoResultFound''"
| "exn_class_name MultipleResultsFound = lit ''MultipleResultsFound''"
| "exn_class_name ConversationBusyError = lit ''ConversationBusyError''"
| "exn_class_name MetaWebhookError = lit ''MetaWebhookError''"
| "exn_class_name MetaIngressRetryableError = lit ''MetaIngressRetryableError''"
| "exn_class_name (BuenPickClientError _ _ _) = lit ''BuenPickClientError''"
| "exn_class_name BuenPickConfigurationError = lit ''BuenPickConfigurationError''"
| "exn_class_name CheckoutDisabledError = lit ''CheckoutDisabledError''"
| "exn_class_name (LLMAdapterError _ _ _) = lit ''LLMAdapterError''"
| "exn_class_name (HTTPException _) = lit ''HTTPException''"
| "exn_class_name (OtherError name) = name"

definition construct :: "('a \<Rightarrow> bool) \<Rightarrow> 'a \<Rightarrow> 'a res" where
  "construct valid r = (if valid r then Inr r else Inl ValidationError)"

definition rbind :: "'a res \<Rightarrow> ('a \<Rightarrow> 'b res) \<Rightarrow> 'b res" where
  "rbind m f = (case m of Inl e \<Rightarrow> Inl e | Inr a \<Rightarrow> f a)"

lemma rbind_simps [simp]: "rbind (Inl e) f = Inl e" "rbind (Inr a) f = f a"
  by (simp_all add: rbind_def)

lemma rbind_eq_Inr: "rbind m f = Inr b \<longleftrightarrow> (\<exists>a. m = Inr a \<and> f a = Inr b)"
  by (cases m) auto

lemma construct_eq_Inr [simp]: "construct valid r = Inr x \<longleftrightarrow> valid r \<and> x = r"
  by (auto simp: construct_def)

lemma construct_eq_Inl [simp]: "construct valid r = Inl e \<longleftrightarrow> \<not> valid r \<and> e = ValidationError"
  by (auto simp: construct_def)

text \<open>A loop that collects results and stops at the first exception.\<close>

fun map_res :: "('a \<Rightarrow> 'b res) \<Rightarrow> 'a list \<Rightarrow> 'b list res" where
  "map_res f [] = Inr []"
| "map_res f (x # xs) = rbind (f x) (\<lambda>y. rbind (map_res f xs) (\<lambda>ys. Inr (y # ys)))"

lemma map_res_eq_Inr: "map_res f xs = Inr ys \<longleftrightarrow> list_all2 (\<lambda>x y. f x = Inr y) xs ys"
  by (induction xs arbitrary: ys) (auto simp: rbind_eq_Inr list_all2_Cons1)

lemma map_res_length: "map_res f xs = Inr ys \<Longrightarrow> length ys = length xs"
  by (simp add: map_res_eq_Inr list_all2_lengthD)

definition len_between :: "nat \<Rightarrow> nat \<Rightarrow> 'a list \<Rightarrow> bool" where
  [simp]: "len_between lo hi s \<longleftrightarrow> lo \<le> length s \<and> length s \<le> hi"

definition opt_len :: "nat \<Rightarrow> nat \<Rightarrow> 'a list option \<Rightarrow> bool" where
  "opt_len lo hi x = (case x of None \<Rightarrow> True | Some s \<Rightarrow> lo \<le> length s \<and> length s \<le> hi)"

lemma opt_len_simps [simp]:
  "opt_len lo hi None" "opt_len lo hi (Some s) \<longleftrightarrow> lo \<le> length s \<and> length s \<le> hi"
  by (simp_all add: opt_len_def)

section \<open>Records\<close>

record inbound_message =
  im_message_id :: pystr
  im_channel :: channel
  im_conversation_id :: pystr
  im_sender_id :: pystr
  im_kind :: message_kind
  im_text :: "pystr option"
  im_received_at :: datetime
  im_metadata :: "(pystr \<times> pystr) list"

definition valid_inbound_message :: "inbound_message \<Rightarrow> bool" where
  [valid_defs]: "valid_inbound_message m \<longleftrightarrow>
     len_between 1 255 (im_message_id m) \<and> len_between 1 255 (im_conversation_id m)
     \<and> len_between 1 255 (im_sender_id m) \<and> opt_len 0 4096 (im_text m)
     \<and> has_tz (im_received_at m)
     \<and> \<not> (im_kind m = MK_TEXT
          \<and> \<not> (truthy (im_text m) \<and> strip (or_empty (im_text m)) \<noteq> []))"

record 'd tool_result =
  tr_success :: bool
  tr_data :: "'d option"
  tr_error_code :: "tool_error_code option"
  tr_user_safe_message :: "pystr option"
  tr_latency_ms :: int
  tr_trace_id :: pystr

definition valid_tool_result :: "'d tool_result \<Rightarrow> bool" where
  [valid_defs]: "valid_tool_result r \<longleftrightarrow>
     opt_len 0 500 (tr_user_safe_message r) \<and> 0 \<le> tr_latency_ms r
     \<and> len_between 1 128 (tr_trace_id r)
     \<and> \<not> (tr_success r \<and> tr_error_code r \<noteq> None)
     \<and> \<not> (\<not> tr_success r \<and> tr_error_code r = None)
     \<and> \<not> (\<not> tr_success r \<and> \<not> truthy (tr_user_safe_message r))"

record evidence_item =
  ei_label :: pystr
  ei_value :: pystr
  ei_source :: evidence_source
  ei_source_reference :: "pystr option"

definition valid_evidence_item :: "evidence_item \<Rightarrow> bool" where
  [valid_defs]: "valid_evidence_item e \<longleftrightarrow>
     len_between 1 100 (ei_label e) \<and> len_between 1 2000 (ei_value e)
     \<and> opt_len 0 255 (ei_source_reference e)"

record performed_action =
  pa_name :: pystr
  pa_outcome :: action_outcome
  pa_reference :: "pystr option"

definition valid_performed_action :: "performed_action \<Rightarrow> bool" where
  [valid_defs]: "valid_performed_action a \<longleftrightarrow>
     len_between 1 100 (pa_name a) \<and> opt_len 0 255 (pa_reference a)"

record context_packet =
  cp_task :: pystr
  cp_query :: pystr
  cp_confirmed_data :: "evidence_item list"
  cp_unavailable_data :: "pystr list"
  cp_actions_performed :: "performed_action list"
  cp_writing_rules :: "pystr list"
  cp_response_mode :: response_mode
  cp_active_pick_id :: "pystr option"
  cp_trace_id :: pystr

definition valid_context_packet :: "context_packet \<Rightarrow> bool" where
  [valid_defs]: "valid_context_packet p \<longleftrightarrow>
     len_between 1 500 (cp_task p) \<and> len_between 1 4096 (cp_query p)
     \<and> opt_len 0 255 (cp_active_pick_id p) \<and> len_between 1 128 (cp_trace_id p)"

record interactive_option =
  io_id :: pystr
  io_title :: pystr

definition valid_interactive_option :: "interactive_option \<Rightarrow> bool" where
  [valid_defs]: "valid_interactive_option x \<longleftrightarrow>
     len_between 1 256 (io_id x) \<and> len_between 1 20 (io_title x)"

record delivery_request =
  dr_idempotency_key :: pystr
  dr_conversation_id :: pystr
  dr_kind :: delivery_kind
  dr_text :: "pystr option"
  dr_media_url :: "pystr option"
  dr_interactive_options :: "interactive_option list"
  dr_template_name :: "pystr option"
  dr_template_language :: "pystr option"
  dr_template_parameters :: "pystr list"
  dr_customer_service_window :: service_window
  dr_trace_id :: pystr

definition valid_delivery_request :: "delivery_request \<Rightarrow> bool" where
  [valid_defs]: "valid_delivery_request r \<longleftrightarrow>
     len_between 1 255 (dr_idempotency_key r) \<and> len_between 1 255 (dr_conversation_id r)
     \<and> opt_len 0 4096 (dr_text r) \<and> length (dr_interactive_options r) \<le> 3
     \<and> list_all valid_interactive_option (dr_interactive_options r)
     \<and> opt_len 1 512 (dr_template_name r) \<and> opt_len 2 35 (dr_template_language r)
     \<and> length (dr_template_parameters r) \<le> 10 \<and> len_between 1 128 (dr_trace_id r)
     \<and> \<not> (dr_kind r = DK_TEXT \<and> \<not> truthy (dr_text r))
     \<and> \<not> (dr_kind r = DK_IMAGE \<and> dr_media_url r = None)
     \<and> \<not> (dr_kind r = DK_INTERACTIVE \<and> (\<not> truthy (dr_text r) \<or> dr_interactive_options r = []))
     \<and> \<not> (dr_kind r = DK_TEMPLATE \<and> (dr_template_name r = None \<or> dr_template_language r = None))
     \<and> \<not> (dr_kind r \<noteq> DK_INTERACTIVE \<and> dr_interactive_options r \<noteq> [])
     \<and> \<not> (dr_kind r \<noteq> DK_TEMPLATE
          \<and> (truthy (dr_template_name r) \<or> truthy (dr_template_language r)
             \<or> dr_template_parameters r \<noteq> []))"

text \<open>Values of the \<open>metadata\<close> dictionary of a delivery result.\<close>

datatype meta_value = MBool bool | MInt int | MStr pystr

record delivery_result =
  rs_status :: delivery_status
  rs_provider_message_id :: "pystr option"
  rs_error_code :: "pystr option"
  rs_error_message :: "pystr option"
  rs_trace_id :: pystr
  rs_metadata :: "(pystr \<times> meta_value) list"

definition error_statuses :: "delivery_status list" where
  "error_statuses = [FAILED, UNKNOWN]"

definition provider_statuses :: "delivery_status list" where
  "provider_statuses = [ACCEPTED, SENT, DELIVERED, READ]"

definition valid_delivery_result :: "delivery_result \<Rightarrow> bool" where
  [valid_defs]: "valid_delivery_result r \<longleftrightarrow>
     opt_len 0 255 (rs_provider_message_id r) \<and> opt_len 0 100 (rs_error_code r)
     \<and> opt_len 0 500 (rs_error_message r) \<and> len_between 1 128 (rs_trace_id r)
     \<and> \<not> (rs_status r \<in> set error_statuses \<and> \<not> truthy (rs_error_code r))
     \<and> \<not> (rs_status r \<notin> set error_statuses \<and> rs_error_code r \<noteq> None)
     \<and> \<not> (rs_status r \<in> set provider_statuses \<and> \<not> truthy (rs_provider_message_id r))"

lemma statuses_partition: "s \<in> set provider_statuses \<longleftrightarrow> s \<notin> set error_statuses"
  by (cases s) (simp_all add: provider_statuses_def error_statuses_def)

text \<open>
  The truth of a delivery result: an error code exactly with the statuses \<open>FAILED\<close> and
  \<open>UNKNOWN\<close>, and a provider message identifier with every other status.
\<close>

lemma delivery_truth:
  assumes "valid_delivery_result r"
  shows "rs_status r \<in> {FAILED, UNKNOWN} \<longleftrightarrow> rs_error_code r \<noteq> None"
    and "rs_status r \<notin> {FAILED, UNKNOWN} \<Longrightarrow> truthy (rs_provider_message_id r)"
  using assms
  by (cases "rs_error_code r"; cases "rs_status r";
      auto simp: valid_defs error_statuses_def provider_statuses_def)+

lemma tool_result_shape:
  "valid_tool_result r \<Longrightarrow> tr_success r \<longleftrightarrow> tr_error_code r = None"
  by (auto simp: valid_defs)

end
