(* ===== verification/Database.thy ===== *)
theory Database
  imports Contracts
begin

text \<open>
  The relational schema of \<open>src/src/piki/db/models.py\<close> and the session of
  \<open>src/src/piki/db/session.py\<close>. A table is the list of its rows; a column that holds the value of
  an enumeration has that enumeration as its type, a nullable column is an option. The unique
  constraints are the key functions \<open>uq_...\<close>; \<open>VARCHAR(n)\<close> columns refuse longer values with
  \<open>DataError\<close>, a missing parent row or a duplicate primary key is an \<open>IntegrityError\<close>.
\<close>

section \<open>Rows\<close>

datatype workflow_status = CW_NEW | CW_PIKI_ACTIVE | CW_NEEDS_HUMAN | CW_HUMAN_ACTIVE | CW_RESOLVED

record conversation_row =
  cv_id :: uuid
  cv_channel :: channel
  cv_channel_account_id :: pystr
  cv_external_conversation_id :: pystr
  cv_status :: workflow_status
  cv_created_at :: micros
  cv_updated_at :: micros

definition uq_conversation_channel_identity ::
  "conversation_row \<Rightarrow> (channel \<times> pystr \<times> pystr) option" where
  "uq_conversation_channel_identity r =
     Some (cv_channel r, cv_channel_account_id r, cv_external_conversation_id r)"

datatype direction = INBOUND | OUTBOUND

datatype processing_status = PS_PENDING | PS_PROCESSING | PS_COMPLETED | PS_FAILED

record message_row =
  ms_id :: uuid
  ms_conversation_id :: uuid
  ms_external_message_id :: "pystr option"
  ms_direction :: direction
  ms_kind :: message_kind
  ms_content_text :: "pystr option"
  ms_trace_id :: pystr
  ms_processing_status :: "processing_status option"
  ms_processing_attempts :: int
  ms_processing_available_at :: "micros option"
  ms_processing_claimed_at :: "micros option"
  ms_processing_error_code :: "pystr option"
  ms_created_at :: micros

definition uq_messages_external_message_id :: "message_row \<Rightarrow> pystr option" where
  "uq_messages_external_message_id r = ms_external_message_id r"

datatype handoff_status = HO_REQUESTED | HO_CLAIMED | HO_RESOLVED

record handoff_row =
  ho_id :: uuid
  ho_conversation_id :: uuid
  ho_idempotency_key :: pystr
  ho_status :: handoff_status
  ho_reason :: pystr
  ho_trace_id :: pystr
  ho_created_at :: micros
  ho_resolved_at :: "micros option"

definition uq_handoffs_conversation_idempotency :: "handoff_row \<Rightarrow> (uuid \<times> pystr) option" where
  "uq_handoffs_conversation_idempotency r = Some (ho_conversation_id r, ho_idempotency_key r)"

definition handoff_open :: "handoff_row \<Rightarrow> bool" where
  "handoff_open r \<longleftrightarrow> ho_status r \<in> set [HO_REQUESTED, HO_CLAIMED]"

definition uq_handoffs_one_open_per_conversation :: "handoff_row \<Rightarrow> uuid option" where
  "uq_handoffs_one_open_per_conversation r =
     (if handoff_open r then Some (ho_conversation_id r) else None)"

datatype attempt_state = AS_PENDING | AS_UNKNOWN | AS_ACCEPTED | AS_SENT | AS_DELIVERED | AS_READ
  | AS_FAILED

record attempt_row =
  at_id :: uuid
  at_conversation_id :: uuid
  at_idempotency_key :: pystr
  at_provider_message_id :: "pystr option"
  at_status :: attempt_state
  at_error_code :: "pystr option"
  at_error_message :: "pystr option"
  at_trace_id :: pystr
  at_created_at :: micros
  at_updated_at :: micros

definition uq_delivery_attempts_idempotency_key :: "attempt_row \<Rightarrow> pystr option" where
  "uq_delivery_attempts_idempotency_key r = Some (at_idempotency_key r)"

record status_event_row =
  se_id :: uuid
  se_delivery_attempt_id :: uuid
  se_provider_message_id :: "pystr option"
  se_status :: delivery_status
  se_error_code :: "pystr option"
  se_error_message :: "pystr option"
  se_trace_id :: pystr
  se_occurred_at :: datetime
  se_created_at :: micros

definition uq_delivery_status_provider_state ::
  "status_event_row \<Rightarrow> (pystr \<times> delivery_status) option" where
  "uq_delivery_status_provider_state r =
     map_option (\<lambda>p. (p, se_status r)) (se_provider_message_id r)"

lemmas uq_defs = uq_conversation_channel_identity_def uq_messages_external_message_id_def
  uq_handoffs_conversation_idempotency_def uq_handoffs_one_open_per_conversation_def
  uq_delivery_attempts_idempotency_key_def uq_delivery_status_provider_state_def

record database =
  conversations :: "conversation_row list"
  messages :: "message_row list"
  handoffs :: "handoff_row list"
  attempts :: "attempt_row list"
  status_events :: "status_event_row list"

definition empty_db :: database where
  "empty_db = \<lparr>conversations = [], messages = [], handoffs = [], attempts = [], status_events = []\<rparr>"

section \<open>Constraints\<close>

definition pk :: "('r \<Rightarrow> uuid) \<Rightarrow> 'r \<Rightarrow> uuid option" where
  "pk f r = Some (f r)"

definition db_unique :: "database \<Rightarrow> bool" where
  "db_unique d \<longleftrightarrow>
     unique_on (pk cv_id) (conversations d) \<and> unique_on uq_conversation_channel_identity (conversations d)
     \<and> unique_on (pk ms_id) (messages d) \<and> unique_on uq_messages_external_message_id (messages d)
     \<and> unique_on (pk ho_id) (handoffs d) \<and> unique_on uq_handoffs_conversation_idempotency (handoffs d)
     \<and> unique_on uq_handoffs_one_open_per_conversation (handoffs d)
     \<and> unique_on (pk at_id) (attempts d) \<and> unique_on uq_delivery_attempts_idempotency_key (attempts d)
     \<and> unique_on (pk se_id) (status_events d)
     \<and> unique_on uq_delivery_status_provider_state (status_events d)"

definition db_foreign_keys :: "database \<Rightarrow> bool" where
  "db_foreign_keys d \<longleftrightarrow>
     (\<forall>r \<in> set (messages d). ms_conversation_id r \<in> set (map cv_id (conversations d)))
     \<and> (\<forall>r \<in> set (handoffs d). ho_conversation_id r \<in> set (map cv_id (conversations d)))
     \<and> (\<forall>r \<in> set (attempts d). at_conversation_id r \<in> set (map cv_id (conversations d)))
     \<and> (\<forall>r \<in> set (status_events d). se_delivery_attempt_id r \<in> set (map at_id (attempts d)))"

definition db_ok :: "database \<Rightarrow> bool" where
  "db_ok d \<longleftrightarrow> db_unique d \<and> db_foreign_keys d"

lemma db_ok_empty [simp]: "db_ok empty_db"
  by (simp add: db_ok_def db_unique_def db_foreign_keys_def empty_db_def)

text \<open>A \<open>VARCHAR(n)\<close> value: at most \<open>n\<close> characters. PostgreSQL text holds no NUL character.\<close>

definition varchar :: "nat \<Rightarrow> pystr \<Rightarrow> bool" where
  "varchar n s \<longleftrightarrow> length s \<le> n \<and> 0 \<notin> set s"

definition opt_varchar :: "nat \<Rightarrow> pystr option \<Rightarrow> bool" where
  "opt_varchar n x = (case x of None \<Rightarrow> True | Some s \<Rightarrow> varchar n s)"

definition opt_text :: "pystr option \<Rightarrow> bool" where
  "opt_text x = (case x of None \<Rightarrow> True | Some s \<Rightarrow> 0 \<notin> set s)"

section \<open>Result accessors and sessions\<close>

fun one_or_none :: "'a list \<Rightarrow> 'a option res" where
  "one_or_none [] = Inr None"
| "one_or_none [x] = Inr (Some x)"
| "one_or_none (x # y # xs) = Inl MultipleResultsFound"

fun one :: "'a list \<Rightarrow> 'a res" where
  "one [] = Inl NoResultFound"
| "one [x] = Inr x"
| "one (x # y # xs) = Inl MultipleResultsFound"

lemma one_Inr [simp]: "one xs = Inr x \<longleftrightarrow> xs = [x]"
  by (induction xs rule: one.induct) auto

lemma one_or_none_Inr [simp]:
  "one_or_none xs = Inr (Some x) \<longleftrightarrow> xs = [x]" "one_or_none xs = Inr None \<longleftrightarrow> xs = []"
  by (induction xs rule: one_or_none.induct) auto

lemma filter_eq_singleD: "filter p xs = [x] \<Longrightarrow> x \<in> set xs \<and> p x"
  using set_filter [of p xs] by auto

text \<open>
  \<open>async with database.session()\<close>: the body runs on the current contents; its changes are
  committed when it returns and rolled back when it raises.
\<close>

definition session :: "('s \<Rightarrow> 'a res \<times> 's) \<Rightarrow> 's \<Rightarrow> 'a res \<times> 's" where
  "session body d = (case body d of (Inl e, _) \<Rightarrow> (Inl e, d) | (Inr a, d') \<Rightarrow> (Inr a, d'))"

lemma session_Inl: "session body d = (Inl e, d') \<Longrightarrow> d' = d"
  by (auto simp: session_def split: prod.splits sum.splits)

lemma session_Inr: "session body d = (Inr a, d') \<longleftrightarrow> body d = (Inr a, d')"
  by (auto simp: session_def split: prod.splits sum.splits)

lemma session_cases:
  obtains e where "session body d = (Inl e, d)"
  | a d' where "session body d = (Inr a, d')" "body d = (Inr a, d')"
  by (cases "body d"; cases "fst (body d)") (auto simp: session_def split: sum.splits)

text \<open>An invariant that the body keeps when it returns is kept by the session in every case.\<close>

lemma session_invariant:
  assumes "P d" and "\<And>a d'. body d = (Inr a, d') \<Longrightarrow> P d'"
  shows "P (snd (session body d))"
  using assms by (cases body d rule: session_cases) auto

lemma one_or_none_filter_unique:
  assumes "unique_on key rows"
  shows "one_or_none (filter (\<lambda>r. key r = Some k) rows)
    = Inr (find (\<lambda>r. key r = Some k) rows)"
proof (cases "\<exists>r \<in> set rows. key r = Some k")
  case True
  then obtain r where r: "r \<in> set rows" "key r = Some k" by blast
  with assms have f: "filter (\<lambda>x. key x = Some k) rows = [r]"
    by (rule filter_unique_key)
  then show ?thesis by (simp add: find_filter)
next
  case False
  then have "filter (\<lambda>x. key x = Some k) rows = []"
    by (auto simp: filter_empty_conv)
  then show ?thesis by (simp add: find_filter)
qed

end
