(* ===== verification/Events.thy ===== *)
theory Events
  imports Contracts
begin

text \<open>
  Lifecycle observability, \<open>src/src/piki/observability/events.py\<close>. The sink is the list of the
  records emitted so far; \<open>emit\<close> builds a record, which is validated, and appends it. The time that
  \<open>time.perf_counter() - started_at\<close> measures is an input: \<open>el n\<close> is its value in milliseconds for
  the \<open>n\<close>-th record of the log.
\<close>

datatype lifecycle_event = MESSAGE_RECEIVED | INTENT_RESOLVED | TOOL_STARTED | TOOL_FINISHED
  | CONTEXT_BUILT | TEMPLATE_RENDERED | LLM_STARTED | LLM_FINISHED | GROUNDING_CHECKED
  | DELIVERY_ATTEMPTED | DELIVERY_SUCCEEDED | DELIVERY_FAILED

datatype event_outcome = EV_STARTED | EV_SUCCEEDED | EV_FAILED | EV_BLOCKED

record lifecycle_record =
  lr_event :: lifecycle_event
  lr_trace_id :: pystr
  lr_component :: pystr
  lr_outcome :: event_outcome
  lr_duration_ms :: int
  lr_error_code :: "pystr option"
  lr_confirmed_count :: "int option"
  lr_unavailable_count :: "int option"

type_synonym event_log = "lifecycle_record list"

definition opt_nonneg :: "int option \<Rightarrow> bool" where
  "opt_nonneg x = (case x of None \<Rightarrow> True | Some n \<Rightarrow> 0 \<le> n)"

definition valid_lifecycle_record :: "lifecycle_record \<Rightarrow> bool" where
  [valid_defs]: "valid_lifecycle_record r \<longleftrightarrow>
     len_between 1 128 (lr_trace_id r) \<and> len_between 1 100 (lr_component r)
     \<and> 0 \<le> lr_duration_ms r \<and> opt_len 0 100 (lr_error_code r)
     \<and> opt_nonneg (lr_confirmed_count r) \<and> opt_nonneg (lr_unavailable_count r)"

definition emit_counts ::
  "(nat \<Rightarrow> int) \<Rightarrow> lifecycle_event \<Rightarrow> pystr \<Rightarrow> pystr \<Rightarrow> event_outcome \<Rightarrow> bool \<Rightarrow> pystr option
    \<Rightarrow> int option \<Rightarrow> int option \<Rightarrow> event_log \<Rightarrow> event_log res" where
  "emit_counts el ev tid cname out timed err conf unav log =
     rbind (construct valid_lifecycle_record
       \<lparr>lr_event = ev, lr_trace_id = tid, lr_component = cname, lr_outcome = out,
        lr_duration_ms = (if timed then max 0 (el (length log)) else 0),
        lr_error_code = err, lr_confirmed_count = conf, lr_unavailable_count = unav\<rparr>)
     (\<lambda>r. Inr (log @ [r]))"

abbreviation emit ::
  "(nat \<Rightarrow> int) \<Rightarrow> lifecycle_event \<Rightarrow> pystr \<Rightarrow> pystr \<Rightarrow> event_outcome \<Rightarrow> bool \<Rightarrow> pystr option
    \<Rightarrow> event_log \<Rightarrow> event_log res" where
  "emit el ev tid cname out timed err log \<equiv> emit_counts el ev tid cname out timed err None None log"

text \<open>The last record of a log after a successful \<open>emit\<close>, and when \<open>emit\<close> raises.\<close>

lemma emit_counts_Inr:
  "emit_counts el ev tid cname out timed err conf unav log = Inr log' \<Longrightarrow>
   \<exists>r. log' = log @ [r] \<and> lr_event r = ev \<and> lr_trace_id r = tid \<and> lr_outcome r = out
     \<and> valid_lifecycle_record r"
  by (auto simp: emit_counts_def rbind_eq_Inr)

lemma emit_counts_raises:
  "emit_counts el ev tid cname out timed err conf unav log = Inl e \<longleftrightarrow>
   e = ValidationError \<and> \<not> (len_between 1 128 tid \<and> len_between 1 100 cname \<and> opt_len 0 100 err
     \<and> opt_nonneg conf \<and> opt_nonneg unav)"
  by (auto simp: emit_counts_def rbind_def construct_def valid_defs split: sum.splits if_splits)

lemma emit_counts_cases:
  obtains "emit_counts el ev tid cname out timed err conf unav log = Inl ValidationError"
  | r where "emit_counts el ev tid cname out timed err conf unav log = Inr (log @ [r])"
    "lr_event r = ev" "lr_trace_id r = tid" "lr_outcome r = out"
  by (cases "emit_counts el ev tid cname out timed err conf unav log")
    (auto simp: emit_counts_raises dest: emit_counts_Inr)

end
