(* ===== verification/Meta_Webhook.thy ===== *)
theory Meta_Webhook
  imports Contracts
begin

text \<open>
  The inbound side of the Meta WhatsApp integration, \<open>src/src/piki/integrations/meta/webhook.py\<close>:
  the payload models, the subscription challenge, the signature check and the normalization of a
  payload into inbound messages and delivery-status updates.

  Validating the JSON body against the payload models is in \<open>Meta_Payload\<close>: \<open>normalize_webhook\<close> takes its
  outcome (\<open>None\<close> when \<open>model_validate\<close> raised). \<open>hmac.new(secret, body, sha256).hexdigest()\<close> is the
  argument \<open>mac\<close>.
\<close>

section \<open>Payload models\<close>

record meta_image =
  mi_id :: pystr
  mi_mime_type :: "pystr option"
  mi_sha256 :: "pystr option"
  mi_caption :: "pystr option"

record meta_reply =
  mr_id :: pystr
  mr_title :: pystr
  mr_description :: "pystr option"

record meta_interactive =
  mx_type :: pystr
  mx_button_reply :: "meta_reply option"
  mx_list_reply :: "meta_reply option"

record meta_message =
  mm_id :: pystr
  mm_from :: pystr
  mm_timestamp :: pystr
  mm_type :: pystr
  mm_text :: "pystr option"
  mm_image :: "meta_image option"
  mm_interactive :: "meta_interactive option"

record meta_status_error =
  me_code :: int
  me_title :: "pystr option"
  me_message :: "pystr option"
  me_error_data :: "pystr option option"

datatype meta_status_name = MS_SENT | MS_DELIVERED | MS_READ | MS_FAILED

record meta_status =
  mt_id :: pystr
  mt_status :: meta_status_name
  mt_timestamp :: pystr
  mt_recipient_id :: pystr
  mt_errors :: "meta_status_error list"

record meta_value_obj =
  mv_display_phone_number :: pystr
  mv_phone_number_id :: pystr
  mv_messages :: "meta_message list"
  mv_statuses :: "meta_status list"

record meta_entry =
  mn_id :: pystr
  mn_changes :: "meta_value_obj list"

section \<open>Normalized events\<close>

record status_update =
  su_provider_message_id :: pystr
  su_phone_number_id :: pystr
  su_recipient_id :: pystr
  su_status :: delivery_status
  su_occurred_at :: datetime
  su_error_code :: "pystr option"
  su_error_message :: "pystr option"

definition valid_status_update :: "status_update \<Rightarrow> bool" where
  [valid_defs]: "valid_status_update c \<longleftrightarrow>
     len_between 1 255 (su_provider_message_id c) \<and> len_between 1 255 (su_phone_number_id c)
     \<and> len_between 1 255 (su_recipient_id c) \<and> opt_len 0 100 (su_error_code c)
     \<and> opt_len 0 500 (su_error_message c)
     \<and> \<not> (su_status c = FAILED \<and> su_error_code c = None)
     \<and> \<not> (su_status c \<noteq> FAILED \<and> su_error_code c \<noteq> None)"

record webhook_events =
  we_messages :: "inbound_message list"
  we_statuses :: "status_update list"

section \<open>Challenge and signature\<close>

text \<open>\<open>hmac.compare_digest\<close> on two \<open>str\<close> arguments: it raises \<open>TypeError\<close> unless both are ASCII.\<close>

definition is_ascii :: "pystr \<Rightarrow> bool" where
  "is_ascii s \<longleftrightarrow> (\<forall>c \<in> set s. c < 128)"

definition compare_digest :: "pystr \<Rightarrow> pystr \<Rightarrow> bool res" where
  "compare_digest a b = (if is_ascii a \<and> is_ascii b then Inr (a = b) else Inl TypeError)"

definition verify_challenge :: "pystr option \<Rightarrow> pystr option \<Rightarrow> pystr \<Rightarrow> bool res" where
  "verify_challenge mode provided_token expected_token =
     (if mode \<noteq> Some (lit ''subscribe'') then Inr False
      else case provided_token of None \<Rightarrow> Inr False
        | Some t \<Rightarrow> compare_digest t expected_token)"

definition verify_signature ::
  "(pystr \<Rightarrow> nat list \<Rightarrow> pystr) \<Rightarrow> nat list \<Rightarrow> pystr option \<Rightarrow> pystr \<Rightarrow> bool res" where
  "verify_signature mac raw_body signature_header app_secret =
     (case signature_header of None \<Rightarrow> Inr False
      | Some h \<Rightarrow>
        if \<not> starts_with (lit ''sha256='') h then Inr False
        else let provided_digest = removeprefix (lit ''sha256='') h
             in if length provided_digest \<noteq> 64 then Inr False
                else compare_digest provided_digest (mac app_secret raw_body))"

section \<open>Timestamps\<close>

text \<open>
  \<open>int(value)\<close> on a string: surrounding white space, an optional sign, decimal digits with single
  underscores between them, at most 4300 digits.
\<close>

fun parse_digits :: "ucd \<Rightarrow> bool \<Rightarrow> nat \<Rightarrow> pystr \<Rightarrow> nat option" where
  "parse_digits u ok acc [] = (if ok then Some acc else None)"
| "parse_digits u ok acc (c # cs) =
     (case uc_digit u c of
        Some d \<Rightarrow> parse_digits u True (10 * acc + d) cs
      | None \<Rightarrow> if c = 95 \<and> ok then parse_digits u False acc cs else None)"

definition py_int :: "ucd \<Rightarrow> pystr \<Rightarrow> int option" where
  "py_int u s =
     (let t = strip s;
          body = (case t of [] \<Rightarrow> [] | c # cs \<Rightarrow> if c = 43 \<or> c = 45 then cs else t)
      in if 4300 < length (filter (\<lambda>c. uc_digit u c \<noteq> None) body) then None
         else map_option (\<lambda>n. if t \<noteq> [] \<and> hd t = 45 then - int n else int n)
                (parse_digits u False 0 body))"

text \<open>
  \<open>datetime.fromtimestamp(v, tz=UTC)\<close>: a value outside the 64-bit \<open>time_t\<close> is an
  \<open>OverflowError\<close>, a year outside 1..9999 a \<open>ValueError\<close> (or an \<open>OSError\<close>).
\<close>

definition fromtimestamp :: "int \<Rightarrow> datetime res" where
  "fromtimestamp v =
     (if v < - (2 ^ 63) \<or> 2 ^ 63 \<le> v then Inl OverflowError
      else if v < -62135596800 \<or> 253402300799 < v then Inl ValueError
      else Inr (Aware (1000000 * v)))"

definition timestamp :: "ucd \<Rightarrow> pystr \<Rightarrow> datetime res" where
  "timestamp u value =
     (case py_int u value of None \<Rightarrow> Inl MetaWebhookError
      | Some v \<Rightarrow> (case fromtimestamp v of
          Inl ValueError \<Rightarrow> Inl MetaWebhookError
        | Inl e \<Rightarrow> Inl e
        | Inr t \<Rightarrow> Inr t))"

section \<open>Normalization\<close>

definition message_metadata ::
  "meta_message \<Rightarrow> pystr \<Rightarrow> message_kind \<times> pystr option \<times> (pystr \<times> pystr) list" where
  "message_metadata m phone_number_id =
     (let metadata = [(lit ''phone_number_id'', phone_number_id),
                      (lit ''meta_message_type'', mm_type m)];
          unsupported = (MK_UNSUPPORTED, None, metadata)
      in if mm_type m = lit ''text'' \<and> mm_text m \<noteq> None then (MK_TEXT, mm_text m, metadata)
         else if mm_type m = lit ''image'' then
           (case mm_image m of None \<Rightarrow> unsupported
            | Some i \<Rightarrow>
              (MK_IMAGE, mi_caption i,
               metadata @ [(lit ''media_id'', mi_id i)]
               @ (if truthy (mi_mime_type i) then [(lit ''mime_type'', or_empty (mi_mime_type i))] else [])
               @ (if truthy (mi_sha256 i) then [(lit ''media_sha256'', or_empty (mi_sha256 i))] else [])))
         else if mm_type m = lit ''interactive'' then
           (case mm_interactive m of None \<Rightarrow> unsupported
            | Some x \<Rightarrow>
              (case (case mx_button_reply x of Some r \<Rightarrow> Some r | None \<Rightarrow> mx_list_reply x) of
                 None \<Rightarrow> unsupported
               | Some r \<Rightarrow>
                 (MK_INTERACTIVE, Some (mr_title r),
                  metadata @ [(lit ''interaction_id'', mr_id r),
                              (lit ''interaction_type'', mx_type x)])))
         else unsupported)"

definition as_webhook_error :: "'a res \<Rightarrow> 'a res" where
  "as_webhook_error r = (case r of Inl ValidationError \<Rightarrow> Inl MetaWebhookError | _ \<Rightarrow> r)"

definition normalize_message :: "ucd \<Rightarrow> pystr \<Rightarrow> meta_message \<Rightarrow> inbound_message res" where
  "normalize_message u phone_number_id m =
     (let (kind, text, metadata) = message_metadata m phone_number_id
      in as_webhook_error (rbind (timestamp u (mm_timestamp m)) (\<lambda>received_at.
           construct valid_inbound_message
             \<lparr>im_message_id = mm_id m, im_channel = WHATSAPP, im_conversation_id = mm_from m,
              im_sender_id = mm_from m, im_kind = kind, im_text = text,
              im_received_at = received_at, im_metadata = metadata\<rparr>)))"

fun status_map :: "meta_status_name \<Rightarrow> delivery_status" where
  "status_map MS_SENT = SENT"
| "status_map MS_DELIVERED = DELIVERED"
| "status_map MS_READ = READ"
| "status_map MS_FAILED = FAILED"

definition status_error_message :: "meta_status_error \<Rightarrow> pystr option" where
  "status_error_message e =
     (case me_error_data e of
        Some details \<Rightarrow> if truthy details then details
                        else if truthy (me_message e) then me_message e else me_title e
      | None \<Rightarrow> if truthy (me_message e) then me_message e else me_title e)"

definition normalize_status :: "ucd \<Rightarrow> pystr \<Rightarrow> meta_status \<Rightarrow> status_update res" where
  "normalize_status u phone_number_id s =
     (let status_error = (case mt_errors s of [] \<Rightarrow> None | e # _ \<Rightarrow> Some e)
      in as_webhook_error (rbind (timestamp u (mt_timestamp s)) (\<lambda>occurred_at.
           construct valid_status_update
             \<lparr>su_provider_message_id = mt_id s, su_phone_number_id = phone_number_id,
              su_recipient_id = mt_recipient_id s, su_status = status_map (mt_status s),
              su_occurred_at = occurred_at,
              su_error_code = map_option (\<lambda>e. str_int (me_code e)) status_error,
              su_error_message = Option.bind status_error status_error_message\<rparr>)))"

definition normalize_change ::
  "ucd \<Rightarrow> pystr option \<Rightarrow> meta_value_obj \<Rightarrow> (inbound_message list \<times> status_update list) res" where
  "normalize_change u expected_phone_number_id v =
     (let phone_number_id = mv_phone_number_id v
      in if expected_phone_number_id \<noteq> None \<and> expected_phone_number_id \<noteq> Some phone_number_id
         then Inl MetaWebhookError
         else rbind (map_res (normalize_message u phone_number_id) (mv_messages v)) (\<lambda>ms.
              rbind (map_res (normalize_status u phone_number_id) (mv_statuses v)) (\<lambda>ss.
              Inr (ms, ss))))"

definition normalize_entry ::
  "ucd \<Rightarrow> pystr option \<Rightarrow> pystr option \<Rightarrow> meta_entry \<Rightarrow> (inbound_message list \<times> status_update list) res" where
  "normalize_entry u expected_waba_id expected_phone_number_id e =
     (if expected_waba_id \<noteq> None \<and> expected_waba_id \<noteq> Some (mn_id e) then Inl MetaWebhookError
      else rbind (map_res (normalize_change u expected_phone_number_id) (mn_changes e)) (\<lambda>cs.
           Inr (concat (map fst cs), concat (map snd cs))))"

definition normalize_webhook ::
  "ucd \<Rightarrow> meta_entry list option \<Rightarrow> pystr option \<Rightarrow> pystr option \<Rightarrow> webhook_events res" where
  "normalize_webhook u parsed expected_waba_id expected_phone_number_id =
     (case parsed of None \<Rightarrow> Inl MetaWebhookError
      | Some entries \<Rightarrow>
        rbind (map_res (normalize_entry u expected_waba_id expected_phone_number_id) entries) (\<lambda>es.
        Inr \<lparr>we_messages = concat (map fst es), we_statuses = concat (map snd es)\<rparr>))"

section \<open>Signature and challenge: exactly the holder of the secret is accepted\<close>

lemma length_removeprefix_lit [simp]: "length (removeprefix (lit p) (lit p @ s)) = length s"
  by simp

lemma starts_with_append_drop: "starts_with p h \<Longrightarrow> h = p @ removeprefix p h"
  by (auto simp: starts_with_prefix removeprefix_def prefix_def)

lemma verify_signature_raises: "verify_signature mac body header secret = Inl e \<Longrightarrow> e = TypeError"
  by (auto simp: verify_signature_def compare_digest_def Let_def split: option.splits if_splits)

text \<open>
  Signature check. With a digest function that returns 64 ASCII characters (a SHA-256
  hexadecimal digest), \<open>verify_signature\<close> accepts a request if and only if its
  \<open>X-Hub-Signature-256\<close> header is exactly \<open>sha256=\<close> followed by the keyed digest of the raw body.
\<close>

theorem verify_signature_accepts:
  assumes "length (mac secret body) = 64" and "is_ascii (mac secret body)"
  shows "verify_signature mac body header secret = Inr True
    \<longleftrightarrow> header = Some (lit ''sha256='' @ mac secret body)"
proof
  assume a: "verify_signature mac body header secret = Inr True"
  then obtain h where h: "header = Some h" "starts_with (lit ''sha256='') h"
    "removeprefix (lit ''sha256='') h = mac secret body"
    by (auto simp: verify_signature_def compare_digest_def Let_def split: option.splits if_splits)
  from starts_with_append_drop [OF h(2)] h(1,3)
  show "header = Some (lit ''sha256='' @ mac secret body)" by simp
next
  assume "header = Some (lit ''sha256='' @ mac secret body)"
  with assms show "verify_signature mac body header secret = Inr True"
    by (simp add: verify_signature_def compare_digest_def Let_def starts_with_prefix)
qed

theorem verify_signature_accepts_witness:
  "verify_signature (\<lambda>s b. replicate 64 (48 + length b)) [1, 2]
     (Some (lit ''sha256='' @ replicate 64 50)) [7] = Inr True"
proof -
  let ?mac = "\<lambda>(s :: pystr) (b :: nat list). replicate 64 (48 + length b)"
  have "is_ascii (?mac [7] [1, 2])" by (simp add: is_ascii_def)
  from verify_signature_accepts [of ?mac "[7]" "[1, 2]", OF _ this]
  show ?thesis by simp
qed


section \<open>What normalization guarantees\<close>

text \<open>The messages and statuses of a payload in order, each with its phone number identifier.\<close>

definition payload_messages :: "meta_entry list \<Rightarrow> (pystr \<times> meta_message) list" where
  "payload_messages es =
     concat (map (\<lambda>e. concat (map (\<lambda>v. map (Pair (mv_phone_number_id v)) (mv_messages v))
       (mn_changes e))) es)"

definition payload_statuses :: "meta_entry list \<Rightarrow> (pystr \<times> meta_status) list" where
  "payload_statuses es =
     concat (map (\<lambda>e. concat (map (\<lambda>v. map (Pair (mv_phone_number_id v)) (mv_statuses v))
       (mn_changes e))) es)"

lemma as_webhook_error_Inr [simp]: "as_webhook_error r = Inr x \<longleftrightarrow> r = Inr x"
  by (auto simp: as_webhook_error_def split: sum.splits exn.splits)

lemma timestamp_aware: "timestamp u s = Inr t \<Longrightarrow> has_tz t"
  by (auto simp: timestamp_def fromtimestamp_def split: option.splits sum.splits exn.splits if_splits)

lemma timestamp_errors: "timestamp u s = Inl e \<Longrightarrow> e = MetaWebhookError \<or> e = OverflowError"
  by (auto simp: timestamp_def fromtimestamp_def split: option.splits sum.splits exn.splits if_splits)

definition message_matches :: "pystr \<times> meta_message \<Rightarrow> inbound_message \<Rightarrow> bool" where
  "message_matches pm x \<longleftrightarrow>
     (case pm of (p, m) \<Rightarrow> valid_inbound_message x \<and> im_channel x = WHATSAPP
       \<and> im_message_id x = mm_id m \<and> im_conversation_id x = mm_from m \<and> im_sender_id x = mm_from m
       \<and> (im_kind x, im_text x, im_metadata x) = message_metadata m p
       \<and> map_of (im_metadata x) (lit ''phone_number_id'') = Some p)"

definition status_matches :: "pystr \<times> meta_status \<Rightarrow> status_update \<Rightarrow> bool" where
  "status_matches ps x \<longleftrightarrow>
     (case ps of (p, s) \<Rightarrow> valid_status_update x \<and> su_provider_message_id x = mt_id s
       \<and> su_phone_number_id x = p \<and> su_recipient_id x = mt_recipient_id s \<and> su_status x = status_map (mt_status s)
       \<and> (su_error_code x \<noteq> None \<longleftrightarrow> mt_status s = MS_FAILED))"

lemma message_metadata_phone:
  "map_of (snd (snd (message_metadata m p))) (lit ''phone_number_id'') = Some p"
  by (auto simp: message_metadata_def Let_def split: option.splits if_splits)

lemma normalize_message_matches: "normalize_message u p m = Inr x \<Longrightarrow> message_matches (p, m) x"
  using message_metadata_phone [of m p]
  by (auto simp: normalize_message_def message_matches_def rbind_eq_Inr split: prod.splits)

lemma normalize_status_matches: "normalize_status u p s = Inr x \<Longrightarrow> status_matches (p, s) x"
  by (cases "mt_status s")
    (auto simp: normalize_status_def status_matches_def rbind_eq_Inr Let_def valid_defs)

lemma normalize_change_matches:
  assumes "normalize_change u ph v = Inr c"
  shows "list_all2 message_matches (map (Pair (mv_phone_number_id v)) (mv_messages v)) (fst c)"
    and "list_all2 status_matches (map (Pair (mv_phone_number_id v)) (mv_statuses v)) (snd c)"
    and "ph = None \<or> ph = Some (mv_phone_number_id v)"
  using assms
  by (auto simp: normalize_change_def Let_def rbind_eq_Inr map_res_eq_Inr list_all2_map1
      split: if_splits
      intro: list_all2_mono normalize_message_matches normalize_status_matches)

lemma normalize_entry_matches:
  assumes "normalize_entry u w ph e = Inr c"
  shows "list_all2 message_matches
      (concat (map (\<lambda>v. map (Pair (mv_phone_number_id v)) (mv_messages v)) (mn_changes e))) (fst c)"
    and "list_all2 status_matches
      (concat (map (\<lambda>v. map (Pair (mv_phone_number_id v)) (mv_statuses v)) (mn_changes e))) (snd c)"
    and "w = None \<or> w = Some (mn_id e)"
    and "v \<in> set (mn_changes e) \<Longrightarrow> ph = None \<or> ph = Some (mv_phone_number_id v)"
proof -
  from assms obtain cs where
    cs: "list_all2 (\<lambda>v d. normalize_change u ph v = Inr d) (mn_changes e) cs"
    and c: "c = (concat (map fst cs), concat (map snd cs))"
    and w: "w = None \<or> w = Some (mn_id e)"
    by (auto simp: normalize_entry_def rbind_eq_Inr map_res_eq_Inr split: if_splits)
  show "w = None \<or> w = Some (mn_id e)" by (rule w)
  show "list_all2 message_matches
      (concat (map (\<lambda>v. map (Pair (mv_phone_number_id v)) (mv_messages v)) (mn_changes e))) (fst c)"
    using cs unfolding c fst_conv
    by (rule list_all2_concat_map) (erule normalize_change_matches)
  show "list_all2 status_matches
      (concat (map (\<lambda>v. map (Pair (mv_phone_number_id v)) (mv_statuses v)) (mn_changes e))) (snd c)"
    using cs unfolding c snd_conv
    by (rule list_all2_concat_map) (erule normalize_change_matches)
  show "v \<in> set (mn_changes e) \<Longrightarrow> ph = None \<or> ph = Some (mv_phone_number_id v)"
    using list_all2_left_witness [OF cs] normalize_change_matches(3) by blast
qed

text \<open>
  Normalization is faithful and complete: when it succeeds, the inbound messages are the
  payload's messages, all of them and in order, each a valid WhatsApp contract that carries the
  sender, the content and the phone number identifier of its change; likewise the status updates, which carry
  an error code exactly when Meta reported a failure; and every entry and change belongs to the
  expected account and phone number.
\<close>

theorem normalize_webhook_faithful:
  assumes "normalize_webhook u (Some es) w ph = Inr ev"
  shows "list_all2 message_matches (payload_messages es) (we_messages ev)
    \<and> list_all2 status_matches (payload_statuses es) (we_statuses ev)
    \<and> (\<forall>e \<in> set es. (w = None \<or> w = Some (mn_id e))
        \<and> (\<forall>v \<in> set (mn_changes e). ph = None \<or> ph = Some (mv_phone_number_id v)))"
proof -
  from assms obtain cs where cs: "list_all2 (\<lambda>e c. normalize_entry u w ph e = Inr c) es cs"
    and ev: "ev = \<lparr>we_messages = concat (map fst cs), we_statuses = concat (map snd cs)\<rparr>"
    by (auto simp: normalize_webhook_def rbind_eq_Inr map_res_eq_Inr)
  have "list_all2 message_matches (payload_messages es) (concat (map fst cs))"
    using cs unfolding payload_messages_def
    by (rule list_all2_concat_map) (erule normalize_entry_matches)
  moreover have "list_all2 status_matches (payload_statuses es) (concat (map snd cs))"
    using cs unfolding payload_statuses_def
    by (rule list_all2_concat_map) (erule normalize_entry_matches)
  moreover have "(w = None \<or> w = Some (mn_id e))
      \<and> (\<forall>v \<in> set (mn_changes e). ph = None \<or> ph = Some (mv_phone_number_id v))"
    if "e \<in> set es" for e
    using list_all2_left_witness [OF cs that] normalize_entry_matches(3,4) by blast
  ultimately show ?thesis by (simp add: ev)
qed

definition sample_entry :: meta_entry where
  "sample_entry = \<lparr>mn_id = lit ''waba'', mn_changes =
     [\<lparr>mv_display_phone_number = lit ''549'', mv_phone_number_id = lit ''pn1'',
       mv_messages = [\<lparr>mm_id = lit ''wamid.1'', mm_from = lit ''54911'',
         mm_timestamp = lit ''1700000000'', mm_type = lit ''text'', mm_text = Some (lit ''hola''),
         mm_image = None, mm_interactive = None\<rparr>],
       mv_statuses = [\<lparr>mt_id = lit ''wamid.0'', mt_status = MS_DELIVERED,
         mt_timestamp = lit ''1700000001'', mt_recipient_id = lit ''54911'', mt_errors = []\<rparr>]\<rparr>]\<rparr>"

lemma sample_timestamps:
  "timestamp latin1 (lit ''1700000000'') = Inr (Aware 1700000000000000)"
  "timestamp latin1 (lit ''1700000001'') = Inr (Aware 1700000001000000)"
  by (simp_all add: lit_def timestamp_def py_int_def strip_def rstrip_by_def is_space_def
      fromtimestamp_def latin1_digit_def)

lemma sample_normalizes:
  "\<exists>ev. normalize_webhook latin1 (Some [sample_entry]) (Some (lit ''waba'')) (Some (lit ''pn1'')) = Inr ev"
  by (simp add: normalize_webhook_def normalize_entry_def normalize_change_def sample_entry_def
      normalize_message_def normalize_status_def message_metadata_def sample_timestamps
      construct_def valid_defs as_webhook_error_def Let_def strip_eq_Nil)
    (simp add: lit_def is_space_def)

theorem normalize_webhook_faithful_witness:
  "\<exists>ev. normalize_webhook latin1 (Some [sample_entry]) (Some (lit ''waba'')) (Some (lit ''pn1'')) = Inr ev
     \<and> list_all2 message_matches (payload_messages [sample_entry]) (we_messages ev)"
proof -
  from sample_normalizes obtain ev where n:
    "normalize_webhook latin1 (Some [sample_entry]) (Some (lit ''waba'')) (Some (lit ''pn1'')) = Inr ev"
    by blast
  from normalize_webhook_faithful [OF n] n show ?thesis by blast
qed

lemma normalize_message_errors:
  "normalize_message u p m = Inl e \<Longrightarrow> e = MetaWebhookError \<or> e = OverflowError"
  by (auto simp: normalize_message_def as_webhook_error_def rbind_def
      split: prod.splits sum.splits exn.splits dest: timestamp_errors)

lemma normalize_status_errors:
  "normalize_status u p m = Inl e \<Longrightarrow> e = MetaWebhookError \<or> e = OverflowError"
  by (auto simp: normalize_status_def as_webhook_error_def rbind_def Let_def
      split: prod.splits sum.splits exn.splits dest: timestamp_errors)

lemma map_res_Inl: "map_res f xs = Inl e \<Longrightarrow> \<exists>x \<in> set xs. f x = Inl e"
  by (induction xs) (auto simp: rbind_def split: sum.splits)

lemma map_res_mem_Inl:
  "x \<in> set xs \<Longrightarrow> f x = Inl e \<Longrightarrow> \<exists>e'. map_res f xs = Inl e'"
  by (induction xs) (auto simp: rbind_def split: sum.splits)

lemma normalize_webhook_raises:
  assumes "normalize_webhook u parsed w ph = Inl e"
  shows "e = MetaWebhookError \<or> e = OverflowError"
proof -
  have change: "e' = MetaWebhookError \<or> e' = OverflowError"
    if "normalize_change u ph v = Inl e'" for v e'
    using that
    by (auto simp: normalize_change_def Let_def rbind_def split: if_splits sum.splits
        dest!: map_res_Inl dest: normalize_message_errors normalize_status_errors)
  have entry: "e' = MetaWebhookError \<or> e' = OverflowError"
    if "normalize_entry u w ph en = Inl e'" for en e'
    using that
    by (auto simp: normalize_entry_def rbind_def split: if_splits sum.splits
        dest!: map_res_Inl dest: change)
  from assms show ?thesis
    by (auto simp: normalize_webhook_def rbind_def split: option.splits sum.splits
        dest!: map_res_Inl dest: entry)
qed

text \<open>
  The exceptions that escape normalization. A caller that handles \<open>MetaWebhookError\<close> (the
  webhook route turns it into a 400 response) handles every failure but one: a decimal timestamp
  outside the 64-bit range makes \<open>datetime.fromtimestamp\<close> raise \<open>OverflowError\<close>, which
  \<open>_timestamp\<close> does not translate.
\<close>

theorem normalize_webhook_errors:
  assumes "normalize_webhook u parsed w ph = Inl e"
  shows "e = MetaWebhookError \<or> e = OverflowError"
  using assms by (rule normalize_webhook_raises)

theorem normalize_webhook_errors_witness:
  "MetaWebhookError = MetaWebhookError \<or> MetaWebhookError = OverflowError"
  by (rule normalize_webhook_errors [of latin1 None None None])
    (simp add: normalize_webhook_def)

text \<open>
  A message whose timestamp is a decimal number of at least 2 to the 63 raises
  \<open>OverflowError\<close> out of the normalization of its message, whatever its other fields are.
\<close>

theorem normalize_message_overflow:
  assumes "py_int u (mm_timestamp m) = Some v" and "2 ^ 63 \<le> v"
  shows "normalize_message u p m = Inl OverflowError"
  using assms
  by (auto simp: normalize_message_def timestamp_def fromtimestamp_def as_webhook_error_def
      split: prod.splits)

definition overflow_message :: meta_message where
  "overflow_message = \<lparr>mm_id = lit ''wamid.9'', mm_from = lit ''54911'',
     mm_timestamp = lit ''9999999999999999999'', mm_type = lit ''text'',
     mm_text = Some (lit ''hola''), mm_image = None, mm_interactive = None\<rparr>"

theorem normalize_message_overflow_witness:
  "normalize_message latin1 (lit ''pn1'') overflow_message = Inl OverflowError"
proof -
  have "py_int latin1 (mm_timestamp overflow_message) = Some 9999999999999999999"
    by (simp add: lit_def overflow_message_def py_int_def strip_def rstrip_by_def is_space_def
        latin1_digit_def)
  then show ?thesis by (rule normalize_message_overflow) simp
qed

end
