(* ===== verification/Delivery.thy ===== *)
theory Delivery
  imports Database Events Meta_Webhook
begin

text \<open>
  Idempotent delivery, \<open>src/src/piki/delivery/service.py\<close>: the PostgreSQL delivery store (claim,
  finalize, apply a status callback) and the service that calls the delivery adapter. New UUIDs and
  clock readings are arguments; \<open>adapter\<close> is the outcome of \<open>DeliveryAdapter.send\<close>.
\<close>

section \<open>Data\<close>

record attempt_snapshot =
  sn_id :: uuid
  sn_state :: attempt_state
  sn_provider_message_id :: "pystr option"
  sn_error_code :: "pystr option"
  sn_error_message :: "pystr option"
  sn_trace_id :: pystr

definition valid_attempt_snapshot :: "attempt_snapshot \<Rightarrow> bool" where
  [valid_defs]: "valid_attempt_snapshot s \<longleftrightarrow> len_between 1 128 (sn_trace_id s)"

record delivery_claim =
  dc_created :: bool
  dc_attempt :: attempt_snapshot

datatype callback_apply_status = APPLIED | DUPLICATE | IGNORED_REGRESSION | MISSING_ATTEMPT

text \<open>\<open>DeliveryAttemptState(status.value)\<close> and \<open>DeliveryStatus(state.value)\<close>.\<close>

fun attempt_of_status :: "delivery_status \<Rightarrow> attempt_state" where
  "attempt_of_status UNKNOWN = AS_UNKNOWN"
| "attempt_of_status ACCEPTED = AS_ACCEPTED"
| "attempt_of_status SENT = AS_SENT"
| "attempt_of_status DELIVERED = AS_DELIVERED"
| "attempt_of_status READ = AS_READ"
| "attempt_of_status FAILED = AS_FAILED"

fun status_of_attempt :: "attempt_state \<Rightarrow> delivery_status res" where
  "status_of_attempt AS_PENDING = Inl ValueError"
| "status_of_attempt AS_UNKNOWN = Inr UNKNOWN"
| "status_of_attempt AS_ACCEPTED = Inr ACCEPTED"
| "status_of_attempt AS_SENT = Inr SENT"
| "status_of_attempt AS_DELIVERED = Inr DELIVERED"
| "status_of_attempt AS_READ = Inr READ"
| "status_of_attempt AS_FAILED = Inr FAILED"

lemma status_of_attempt_of_status [simp]: "status_of_attempt (attempt_of_status s) = Inr s"
  by (cases s) auto

section \<open>The store\<close>

definition snapshot :: "attempt_row \<Rightarrow> attempt_snapshot res" where
  "snapshot r = construct valid_attempt_snapshot
     \<lparr>sn_id = at_id r, sn_state = at_status r, sn_provider_message_id = at_provider_message_id r,
      sn_error_code = at_error_code r, sn_error_message = at_error_message r,
      sn_trace_id = at_trace_id r\<rparr>"

definition new_attempt :: "micros \<Rightarrow> uuid \<Rightarrow> uuid \<Rightarrow> delivery_request \<Rightarrow> attempt_row" where
  "new_attempt now aid cid req =
     \<lparr>at_id = aid, at_conversation_id = cid, at_idempotency_key = dr_idempotency_key req,
      at_provider_message_id = None, at_status = AS_PENDING, at_error_code = None,
      at_error_message = None, at_trace_id = dr_trace_id req, at_created_at = now,
      at_updated_at = now\<rparr>"

definition claim_body ::
  "micros \<Rightarrow> uuid \<Rightarrow> uuid \<Rightarrow> delivery_request \<Rightarrow> database \<Rightarrow> delivery_claim res \<times> database" where
  "claim_body now aid cid req d =
     (let row = new_attempt now aid cid req; rows = attempts d
      in if \<not> (varchar 255 (dr_idempotency_key req) \<and> varchar 128 (dr_trace_id req)) then (Inl DataError, d)
         else if conflicts uq_delivery_attempts_idempotency_key rows row then
           (rbind (one (filter (\<lambda>r. at_idempotency_key r = dr_idempotency_key req) rows)) (\<lambda>existing.
            rbind (snapshot existing) (\<lambda>s. Inr \<lparr>dc_created = False, dc_attempt = s\<rparr>)), d)
         else if conflicts (pk at_id) rows row \<or> cid \<notin> set (map cv_id (conversations d)) then
           (Inl IntegrityError, d)
         else (rbind (snapshot row) (\<lambda>s. Inr \<lparr>dc_created = True, dc_attempt = s\<rparr>),
               d\<lparr>attempts := rows @ [row]\<rparr>))"

definition claim ::
  "micros \<Rightarrow> uuid \<Rightarrow> uuid \<Rightarrow> delivery_request \<Rightarrow> database \<Rightarrow> delivery_claim res \<times> database" where
  "claim now aid cid req = session (claim_body now aid cid req)"

definition event_columns_ok :: "status_event_row \<Rightarrow> bool" where
  "event_columns_ok e \<longleftrightarrow> opt_varchar 255 (se_provider_message_id e) \<and> opt_varchar 100 (se_error_code e)
     \<and> opt_varchar 500 (se_error_message e) \<and> varchar 128 (se_trace_id e)"

definition add_status_event :: "status_event_row \<Rightarrow> database \<Rightarrow> unit res \<times> database" where
  "add_status_event e d =
     (if \<not> event_columns_ok e then (Inl DataError, d)
      else if conflicts uq_delivery_status_provider_state (status_events d) e
           \<or> conflicts (pk se_id) (status_events d) e
           \<or> se_delivery_attempt_id e \<notin> set (map at_id (attempts d))
      then (Inl IntegrityError, d)
      else (Inr (), d\<lparr>status_events := status_events d @ [e]\<rparr>))"

definition finalized :: "micros \<Rightarrow> delivery_result \<Rightarrow> attempt_row \<Rightarrow> attempt_row" where
  "finalized now result r = r\<lparr>at_provider_message_id := rs_provider_message_id result,
     at_status := attempt_of_status (rs_status result), at_error_code := rs_error_code result,
     at_error_message := rs_error_message result, at_updated_at := now\<rparr>"

definition is_pending_attempt :: "uuid \<Rightarrow> attempt_row \<Rightarrow> bool" where
  "is_pending_attempt aid r \<longleftrightarrow> at_id r = aid \<and> at_status r = AS_PENDING"

definition finalize_body ::
  "micros \<Rightarrow> uuid \<Rightarrow> uuid \<Rightarrow> delivery_result \<Rightarrow> database \<Rightarrow> unit res \<times> database" where
  "finalize_body now eid aid result d =
     (if \<not> (opt_varchar 255 (rs_provider_message_id result) \<and> opt_varchar 100 (rs_error_code result)
           \<and> opt_varchar 500 (rs_error_message result)) then (Inl DataError, d)
      else case one_or_none (filter (is_pending_attempt aid) (attempts d)) of
        Inl e \<Rightarrow> (Inl e, d)
      | Inr None \<Rightarrow> (Inl RuntimeError, d)
      | Inr (Some _) \<Rightarrow>
        add_status_event
          \<lparr>se_id = eid, se_delivery_attempt_id = aid,
           se_provider_message_id = rs_provider_message_id result, se_status = rs_status result,
           se_error_code = rs_error_code result, se_error_message = rs_error_message result,
           se_trace_id = rs_trace_id result, se_occurred_at = Aware now, se_created_at = now\<rparr>
          (d\<lparr>attempts := update_where (is_pending_attempt aid) (finalized now result) (attempts d)\<rparr>))"

definition finalize ::
  "micros \<Rightarrow> uuid \<Rightarrow> uuid \<Rightarrow> delivery_result \<Rightarrow> database \<Rightarrow> unit res \<times> database" where
  "finalize now eid aid result = session (finalize_body now eid aid result)"

fun allowed_transitions :: "attempt_state \<Rightarrow> attempt_state list" where
  "allowed_transitions AS_ACCEPTED = [AS_SENT, AS_DELIVERED, AS_READ, AS_FAILED]"
| "allowed_transitions AS_SENT = [AS_DELIVERED, AS_READ, AS_FAILED]"
| "allowed_transitions AS_DELIVERED = [AS_READ]"
| "allowed_transitions _ = []"

definition can_transition :: "attempt_state \<Rightarrow> attempt_state \<Rightarrow> bool" where
  "can_transition current target \<longleftrightarrow> target \<in> set (allowed_transitions current)"

definition callback_event :: "micros \<Rightarrow> uuid \<Rightarrow> status_update \<Rightarrow> attempt_row \<Rightarrow> status_event_row" where
  "callback_event now eid cb attempt =
     \<lparr>se_id = eid, se_delivery_attempt_id = at_id attempt,
      se_provider_message_id = Some (su_provider_message_id cb), se_status = su_status cb,
      se_error_code = su_error_code cb, se_error_message = su_error_message cb,
      se_trace_id = at_trace_id attempt, se_occurred_at = su_occurred_at cb, se_created_at = now\<rparr>"

definition moved :: "micros \<Rightarrow> status_update \<Rightarrow> attempt_row \<Rightarrow> attempt_row" where
  "moved now cb r = r\<lparr>at_status := attempt_of_status (su_status cb), at_error_code := su_error_code cb,
     at_error_message := su_error_message cb, at_updated_at := now\<rparr>"

text \<open>
  \<open>_apply_callback\<close> reads the attempt and then writes on the strength of what it read;
  \<open>callback_write\<close> is the second part, for the attempt that was read.
\<close>

definition callback_write ::
  "micros \<Rightarrow> uuid \<Rightarrow> status_update \<Rightarrow> attempt_row \<Rightarrow> database
    \<Rightarrow> (callback_apply_status \<times> pystr option) res \<times> database" where
  "callback_write now eid cb attempt d =
     (let e = callback_event now eid cb attempt
      in if event_columns_ok e \<and> conflicts uq_delivery_status_provider_state (status_events d) e
         then (Inr (DUPLICATE, Some (at_trace_id attempt)), d)
         else case add_status_event e d of
           (Inl x, d1) \<Rightarrow> (Inl x, d1)
         | (Inr _, d1) \<Rightarrow>
           if \<not> can_transition (at_status attempt) (attempt_of_status (su_status cb))
           then (Inr (IGNORED_REGRESSION, Some (at_trace_id attempt)), d1)
           else (Inr (APPLIED, Some (at_trace_id attempt)),
             d1\<lparr>attempts := update_where (\<lambda>r. at_id r = at_id attempt) (moved now cb) (attempts d1)\<rparr>))"

definition callback_read :: "status_update \<Rightarrow> database \<Rightarrow> attempt_row option res" where
  "callback_read cb d =
     one_or_none (filter (\<lambda>r. at_provider_message_id r = Some (su_provider_message_id cb)) (attempts d))"

definition apply_callback_body ::
  "micros \<Rightarrow> uuid \<Rightarrow> status_update \<Rightarrow> database
    \<Rightarrow> (callback_apply_status \<times> pystr option) res \<times> database" where
  "apply_callback_body now eid cb d =
     (case callback_read cb d of
        Inl e \<Rightarrow> (Inl e, d)
      | Inr None \<Rightarrow> (Inr (MISSING_ATTEMPT, None), d)
      | Inr (Some attempt) \<Rightarrow> callback_write now eid cb attempt d)"

definition apply_callback ::
  "(nat \<Rightarrow> int) \<Rightarrow> micros \<Rightarrow> uuid \<Rightarrow> status_update \<Rightarrow> database \<times> event_log
    \<Rightarrow> callback_apply_status res \<times> database \<times> event_log" where
  "apply_callback el now eid cb s =
     (let (d, log) = s
      in case session (apply_callback_body now eid cb) d of
        (Inl e, d1) \<Rightarrow> (Inl e, d1, log)
      | (Inr (result, trace), d1) \<Rightarrow>
        (case (if result = APPLIED then trace else None) of
           None \<Rightarrow> (Inr result, d1, log)
         | Some tid \<Rightarrow>
           if su_status cb = DELIVERED then
             (case emit el DELIVERY_SUCCEEDED tid (lit ''meta_delivery_callback'') EV_SUCCEEDED True None log of
                Inl e \<Rightarrow> (Inl e, d1, log) | Inr log1 \<Rightarrow> (Inr result, d1, log1))
           else if su_status cb = FAILED then
             (case emit el DELIVERY_FAILED tid (lit ''meta_delivery_callback'') EV_FAILED True
                     (su_error_code cb) log of
                Inl e \<Rightarrow> (Inl e, d1, log) | Inr log1 \<Rightarrow> (Inr result, d1, log1))
           else (Inr result, d1, log)))"

section \<open>The service\<close>

definition existing_result :: "attempt_snapshot \<Rightarrow> delivery_result res" where
  "existing_result a =
     (if sn_state a = AS_PENDING then
        construct valid_delivery_result
          \<lparr>rs_status = UNKNOWN, rs_provider_message_id = None,
           rs_error_code = Some (lit ''DELIVERY_ALREADY_IN_PROGRESS''),
           rs_error_message = Some (lit ''Ya existe un intento de entrega en curso.''),
           rs_trace_id = sn_trace_id a, rs_metadata = [(lit ''idempotent_replay'', MBool True)]\<rparr>
      else rbind (status_of_attempt (sn_state a)) (\<lambda>st.
        construct valid_delivery_result
          \<lparr>rs_status = st, rs_provider_message_id = sn_provider_message_id a,
           rs_error_code = sn_error_code a, rs_error_message = sn_error_message a,
           rs_trace_id = sn_trace_id a, rs_metadata = [(lit ''idempotent_replay'', MBool True)]\<rparr>))"

definition emit_attempt :: "(nat \<Rightarrow> int) \<Rightarrow> delivery_result \<Rightarrow> event_log \<Rightarrow> event_log res" where
  "emit_attempt el result log =
     (let failed = rs_status result \<in> set [FAILED, UNKNOWN]
      in rbind (emit el DELIVERY_ATTEMPTED (rs_trace_id result) (lit ''meta_delivery'')
                  (if failed then EV_FAILED else EV_SUCCEEDED) True (rs_error_code result) log) (\<lambda>log1.
         if failed then emit el DELIVERY_FAILED (rs_trace_id result) (lit ''meta_delivery'') EV_FAILED
                          False (rs_error_code result) log1
         else Inr log1))"

text \<open>The state of the service: the database, the event log and the requests handed to the adapter.\<close>

record delivery_state =
  ds_db :: database
  ds_log :: event_log
  ds_sent :: "delivery_request list"

definition send ::
  "(nat \<Rightarrow> int) \<Rightarrow> micros \<Rightarrow> micros \<Rightarrow> uuid \<Rightarrow> uuid \<Rightarrow> (delivery_request \<Rightarrow> delivery_result res)
    \<Rightarrow> uuid \<Rightarrow> delivery_request \<Rightarrow> delivery_state \<Rightarrow> delivery_result res \<times> delivery_state" where
  "send el now1 now2 aid eid adapter cid req s =
     (case claim now1 aid cid req (ds_db s) of
        (Inl e, d1) \<Rightarrow> (Inl e, s\<lparr>ds_db := d1\<rparr>)
      | (Inr c, d1) \<Rightarrow>
        (if \<not> dc_created c then
           (case existing_result (dc_attempt c) of
              Inl e \<Rightarrow> (Inl e, s\<lparr>ds_db := d1\<rparr>)
            | Inr result \<Rightarrow>
              (case emit_attempt el result (ds_log s) of
                 Inl e \<Rightarrow> (Inl e, s\<lparr>ds_db := d1\<rparr>)
               | Inr log1 \<Rightarrow> (Inr result, s\<lparr>ds_db := d1, ds_log := log1\<rparr>)))
         else
           (let s1 = s\<lparr>ds_db := d1, ds_sent := ds_sent s @ [req]\<rparr>
            in case adapter req of
                 Inl e \<Rightarrow> (Inl e, s1)
               | Inr result \<Rightarrow>
                 (case finalize now2 eid (sn_id (dc_attempt c)) result d1 of
                    (Inl e, d2) \<Rightarrow> (Inl e, s1\<lparr>ds_db := d2\<rparr>)
                  | (Inr _, d2) \<Rightarrow>
                    (case emit_attempt el result (ds_log s1) of
                       Inl e \<Rightarrow> (Inl e, s1\<lparr>ds_db := d2\<rparr>)
                     | Inr log1 \<Rightarrow> (Inr result, s1\<lparr>ds_db := d2, ds_log := log1\<rparr>))))))"


section \<open>What each operation does to the tables\<close>

abbreviation claimed_keys :: "database \<Rightarrow> pystr set" where
  "claimed_keys d \<equiv> set (map at_idempotency_key (attempts d))"

lemma conflicts_idempotency:
  "conflicts uq_delivery_attempts_idempotency_key (attempts d) row
    \<longleftrightarrow> at_idempotency_key row \<in> claimed_keys d"
  by (auto simp: conflicts_def uq_defs)

lemma conflicts_pk: "conflicts (pk f) rows r \<longleftrightarrow> f r \<in> set (map f rows)"
  by (auto simp: conflicts_def pk_def)

lemma claim_created:
  assumes "claim now aid cid req d = (Inr c, d')" and "dc_created c"
  shows "dr_idempotency_key req \<notin> claimed_keys d" and "sn_id (dc_attempt c) = aid"
    and "d' = d\<lparr>attempts := attempts d @ [new_attempt now aid cid req]\<rparr>"
    and "aid \<notin> set (map at_id (attempts d))" and "cid \<in> set (map cv_id (conversations d))"
    and "len_between 1 128 (dr_trace_id req)"
  using assms
  by (auto simp: claim_def session_Inr claim_body_def Let_def rbind_eq_Inr conflicts_idempotency
      conflicts_pk new_attempt_def snapshot_def valid_defs split: if_splits)

lemma claim_replayed:
  assumes "claim now aid cid req d = (Inr c, d')" and "\<not> dc_created c"
  shows "d' = d" and "\<exists>r \<in> set (attempts d). at_idempotency_key r = dr_idempotency_key req
    \<and> snapshot r = Inr (dc_attempt c)"
proof -
  from assms show "d' = d"
    by (auto simp: claim_def session_Inr claim_body_def Let_def rbind_eq_Inr split: if_splits)
  from assms obtain existing where
    "filter (\<lambda>r. at_idempotency_key r = dr_idempotency_key req) (attempts d) = [existing]"
    "snapshot existing = Inr (dc_attempt c)"
    by (auto simp: claim_def session_Inr claim_body_def Let_def rbind_eq_Inr split: if_splits)
  then show "\<exists>r \<in> set (attempts d). at_idempotency_key r = dr_idempotency_key req
    \<and> snapshot r = Inr (dc_attempt c)" by (auto dest: filter_eq_singleD)
qed

lemma claim_raised: "claim now aid cid req d = (Inl e, d') \<Longrightarrow> d' = d"
  by (simp add: claim_def session_Inl)

lemma claim_unchanged:
  assumes "claim now aid cid req d = (r, d')" and "\<nexists>c. r = Inr c \<and> dc_created c"
  shows "d' = d"
  using assms by (cases r) (metis claim_raised, metis claim_replayed(1))

lemma add_status_event_Inr:
  "add_status_event e d = (Inr x, d') \<longleftrightarrow>
   event_columns_ok e \<and> \<not> conflicts uq_delivery_status_provider_state (status_events d) e
   \<and> se_id e \<notin> set (map se_id (status_events d))
   \<and> se_delivery_attempt_id e \<in> set (map at_id (attempts d))
   \<and> d' = d\<lparr>status_events := status_events d @ [e]\<rparr>"
  by (auto simp: add_status_event_def conflicts_pk)

lemma finalize_Inr:
  assumes "finalize now eid aid result d = (Inr x, d')"
  obtains e where "d' = d\<lparr>attempts := update_where (is_pending_attempt aid) (finalized now result) (attempts d),
      status_events := status_events d @ [e]\<rparr>"
    "se_delivery_attempt_id e = aid" "se_provider_message_id e = rs_provider_message_id result"
    "se_status e = rs_status result" "se_id e \<notin> set (map se_id (status_events d))"
    "\<not> conflicts uq_delivery_status_provider_state (status_events d) e"
    "\<exists>r \<in> set (attempts d). is_pending_attempt aid r"
proof -
  from assms obtain r where r: "filter (is_pending_attempt aid) (attempts d) = [r]"
    by (auto simp: finalize_def session_Inr finalize_body_def split: if_splits sum.splits option.splits)
  from filter_eq_singleD [OF r] assms r show ?thesis
    by (intro that) (auto simp: finalize_def session_Inr finalize_body_def add_status_event_Inr
        split: if_splits)
qed

lemma finalize_raised: "finalize now eid aid result d = (Inl e, d') \<Longrightarrow> d' = d"
  by (simp add: finalize_def session_Inl)

lemma callback_write_Inr:
  assumes "callback_write now eid cb attempt d = (Inr (result, trace), d')"
  obtains "result = DUPLICATE" "d' = d"
      "conflicts uq_delivery_status_provider_state (status_events d) (callback_event now eid cb attempt)"
    | "result = IGNORED_REGRESSION"
      "\<not> can_transition (at_status attempt) (attempt_of_status (su_status cb))"
      "add_status_event (callback_event now eid cb attempt) d = (Inr (), d')"
    | d1 where "result = APPLIED"
      "can_transition (at_status attempt) (attempt_of_status (su_status cb))"
      "add_status_event (callback_event now eid cb attempt) d = (Inr (), d1)"
      "d' = d1\<lparr>attempts := update_where (\<lambda>r. at_id r = at_id attempt) (moved now cb) (attempts d1)\<rparr>"
  using assms
  by (auto simp: callback_write_def Let_def split: if_splits prod.splits sum.splits)

lemma callback_read_Some:
  assumes "callback_read cb d = Inr (Some attempt)"
  shows "attempt \<in> set (attempts d)"
    and "at_provider_message_id attempt = Some (su_provider_message_id cb)"
    and "filter (\<lambda>r. at_provider_message_id r = Some (su_provider_message_id cb)) (attempts d) = [attempt]"
proof -
  from assms show f: "filter (\<lambda>r. at_provider_message_id r = Some (su_provider_message_id cb)) (attempts d) = [attempt]"
    by (simp add: callback_read_def)
  from filter_eq_singleD [OF f]
  show "attempt \<in> set (attempts d)" "at_provider_message_id attempt = Some (su_provider_message_id cb)"
    by auto
qed

lemma apply_callback_body_Inr:
  assumes "apply_callback_body now eid cb d = (Inr (result, trace), d')"
  obtains "callback_read cb d = Inr None" "result = MISSING_ATTEMPT" "d' = d"
    | attempt where "callback_read cb d = Inr (Some attempt)"
      "callback_write now eid cb attempt d = (Inr (result, trace), d')"
  using assms by (auto simp: apply_callback_body_def split: sum.splits option.splits)


section \<open>Constraints and the delivery invariant\<close>

lemma db_ok_add_event:
  assumes "db_ok d" and "add_status_event e d = (Inr x, d')"
  shows "db_ok d'"
  using assms
  by (auto simp: add_status_event_Inr db_ok_def db_unique_def db_foreign_keys_def unique_on_append1
      conflicts_pk)

lemma db_ok_update_attempts:
  assumes "db_ok d" and "\<And>r. at_id (f r) = at_id r" "\<And>r. at_idempotency_key (f r) = at_idempotency_key r"
    "\<And>r. at_conversation_id (f r) = at_conversation_id r"
  shows "db_ok (d\<lparr>attempts := update_where q f (attempts d)\<rparr>)"
proof -
  have "unique_on (pk at_id) (update_where q f (attempts d)) = unique_on (pk at_id) (attempts d)"
    "unique_on uq_delivery_attempts_idempotency_key (update_where q f (attempts d))
      = unique_on uq_delivery_attempts_idempotency_key (attempts d)"
    by (intro unique_on_update_where; simp add: pk_def uq_defs assms)+
  moreover have "set (map at_id (update_where q f (attempts d))) = set (map at_id (attempts d))"
    using assms(2) by (simp add: map_update_where)
  moreover have "at_conversation_id r \<in> set (map cv_id (conversations d))"
    if "r \<in> set (update_where q f (attempts d))" for r
    using that assms(1,4) by (auto simp: in_update_where db_ok_def db_foreign_keys_def)
  ultimately show ?thesis
    using assms(1) by (auto simp: db_ok_def db_unique_def db_foreign_keys_def)
qed

lemma finalized_keeps [simp]:
  "at_id (finalized now result r) = at_id r"
  "at_idempotency_key (finalized now result r) = at_idempotency_key r"
  "at_conversation_id (finalized now result r) = at_conversation_id r"
  "at_trace_id (finalized now result r) = at_trace_id r"
  by (simp_all add: finalized_def)

lemma moved_keeps [simp]:
  "at_id (moved now cb r) = at_id r" "at_idempotency_key (moved now cb r) = at_idempotency_key r"
  "at_conversation_id (moved now cb r) = at_conversation_id r"
  "at_provider_message_id (moved now cb r) = at_provider_message_id r"
  "at_trace_id (moved now cb r) = at_trace_id r"
  by (simp_all add: moved_def)

lemma claim_db_ok: "db_ok d \<Longrightarrow> claim now aid cid req d = (r, d') \<Longrightarrow> db_ok d'"
proof (cases r)
  case (Inr c)
  assume a: "db_ok d" "claim now aid cid req d = (r, d')"
  show ?thesis
  proof (cases "dc_created c")
    case True
    note f = claim_created [OF a(2) [unfolded Inr] True]
    have "at_id (new_attempt now aid cid req) = aid" "at_conversation_id (new_attempt now aid cid req) = cid"
      "at_idempotency_key (new_attempt now aid cid req) = dr_idempotency_key req"
      by (simp_all add: new_attempt_def)
    with a(1) f(1,4,5) show ?thesis
      unfolding f(3) db_ok_def db_unique_def db_foreign_keys_def
      by (auto simp: unique_on_append1 conflicts_pk conflicts_idempotency)
  next
    case False
    with a Inr show ?thesis by (metis claim_replayed(1))
  qed
qed (metis claim_raised)

lemma finalize_db_ok:
  assumes "db_ok d" "finalize now eid aid result d = (r, d')"
  shows "db_ok d'"
proof (cases r)
  case (Inr u)
  with assms(2) obtain e where
    "add_status_event e (d\<lparr>attempts := update_where (is_pending_attempt aid) (finalized now result) (attempts d)\<rparr>)
      = (Inr u, d')"
    by (auto simp: finalize_def session_Inr finalize_body_def split: if_splits sum.splits option.splits)
  moreover have "db_ok (d\<lparr>attempts := update_where (is_pending_attempt aid) (finalized now result) (attempts d)\<rparr>)"
    using assms(1) by (rule db_ok_update_attempts) simp_all
  ultimately show ?thesis by (rule db_ok_add_event [rotated])
qed (use assms finalize_raised in metis)

lemma callback_write_db_ok:
  assumes "db_ok d" "callback_write now eid cb attempt d = (Inr x, d')"
  shows "db_ok d'"
proof -
  obtain result trace where x: "x = (result, trace)" by (cases x)
  from assms(2) [unfolded x] show ?thesis
  proof (cases rule: callback_write_Inr)
    case (3 d1)
    from assms(1) 3(3) have "db_ok d1" by (rule db_ok_add_event)
    then show ?thesis unfolding 3(4) by (rule db_ok_update_attempts) simp_all
  qed (use assms(1) db_ok_add_event in metis)+
qed

lemma apply_callback_db_ok:
  assumes "db_ok d" "session (apply_callback_body now eid cb) d = (r, d')"
  shows "db_ok d'"
proof (cases r)
  case (Inl e)
  from session_Inl [OF assms(2) [unfolded Inl]] assms(1) show ?thesis by simp
next
  case (Inr x)
  with assms(2) have "apply_callback_body now eid cb d = (Inr (fst x, snd x), d')"
    by (simp add: session_Inr)
  then show ?thesis
    by (cases rule: apply_callback_body_Inr) (use assms(1) callback_write_db_ok in metis)+
qed

end
