(* ===== verification/Interfaces.thy ===== *)
theory Interfaces
  imports Contracts
begin

text \<open>
  The contracts between components, as locales: what a client may rely on is an assumption of the
  locale, what the client concludes is proved once inside it, and the theory of the component that
  provides the operations interprets it on the model's definitions.
\<close>

section \<open>Claiming by idempotency key\<close>

text \<open>
  Runs of a store whose clients claim keys (\<open>Some True\<close>: the claim was granted, \<open>Some False\<close>: it
  existed already, \<open>None\<close>: the operation raised) in any interleaving with other operations. The
  list holds the keys granted so far.
\<close>

inductive claims_run ::
  "('a \<Rightarrow> 's \<Rightarrow> bool option \<times> 's) \<Rightarrow> ('a \<Rightarrow> 'k) \<Rightarrow> ('s \<Rightarrow> 's \<Rightarrow> bool) \<Rightarrow> 's \<Rightarrow> 'k list \<Rightarrow> 's \<Rightarrow> bool"
  for claim_op key other s where
  start: "claims_run claim_op key other s [] s"
| granted: "claims_run claim_op key other s ks t \<Longrightarrow> claim_op a t = (Some True, t')
    \<Longrightarrow> claims_run claim_op key other s (key a # ks) t'"
| denied: "claims_run claim_op key other s ks t \<Longrightarrow> claim_op a t = (b, t') \<Longrightarrow> b \<noteq> Some True
    \<Longrightarrow> claims_run claim_op key other s ks t'"
| elsewhere: "claims_run claim_op key other s ks t \<Longrightarrow> other t t' \<Longrightarrow> claims_run claim_op key other s ks t'"

locale idempotent_store =
  fixes claim_op :: "'a \<Rightarrow> 's \<Rightarrow> bool option \<times> 's"
    and key :: "'a \<Rightarrow> 'k"
    and claimed :: "'s \<Rightarrow> 'k set"
    and other :: "'s \<Rightarrow> 's \<Rightarrow> bool"
  assumes claim_new: "claim_op a s = (Some True, s') \<Longrightarrow>
      key a \<notin> claimed s \<and> insert (key a) (claimed s) \<subseteq> claimed s'"
    and claim_old: "claim_op a s = (b, s') \<Longrightarrow> b \<noteq> Some True \<Longrightarrow> claimed s \<subseteq> claimed s'"
    and other_keeps: "other s s' \<Longrightarrow> claimed s \<subseteq> claimed s'"
begin

lemma run_claimed:
  "claims_run claim_op key other s ks t \<Longrightarrow>
   distinct ks \<and> claimed s \<union> set ks \<subseteq> claimed t \<and> set ks \<inter> claimed s = {}"
proof (induction rule: claims_run.induct)
  case (granted ks t a t')
  then show ?case using claim_new [OF granted.hyps(2)] by auto
next
  case (denied ks t a b t')
  then show ?case using claim_old [OF denied.hyps(2,3)] by auto
next
  case (elsewhere ks t t')
  then show ?case using other_keeps [OF elsewhere.hyps(2)] by auto
qed simp

lemma granted_at_most_once: "claims_run claim_op key other s ks t \<Longrightarrow> distinct ks"
  by (simp add: run_claimed)

lemma never_granted_again:
  assumes "claims_run claim_op key other s ks t" "k \<in> set ks" "claim_op a t = (b, t')" "key a = k"
  shows "b \<noteq> Some True"
  using run_claimed [OF assms(1)] assms(2-) claim_new by blast

end

section \<open>Status progress\<close>

text \<open>
  A status that moves only along a ranked relation: every move raises the rank, so a status never
  returns to an earlier value and every run of moves is finite.
\<close>

locale ranked_progress =
  fixes moves :: "'st \<Rightarrow> 'st \<Rightarrow> bool" and rank :: "'st \<Rightarrow> nat"
  assumes moves_rank: "moves a b \<Longrightarrow> rank a < rank b"
begin

lemma run_rank: "moves\<^sup>*\<^sup>* a b \<Longrightarrow> a = b \<or> rank a < rank b"
  by (induction rule: rtranclp_induct) (auto dest: moves_rank)

lemma no_return: "moves\<^sup>*\<^sup>* a b \<Longrightarrow> moves\<^sup>*\<^sup>* b a \<Longrightarrow> a = b"
  using run_rank [of a b] run_rank [of b a] by auto

lemma run_length: "(moves ^^ n) a b \<Longrightarrow> rank a + n \<le> rank b"
  by (induction n arbitrary: b) (auto dest!: moves_rank, fastforce)

end

section \<open>Leases\<close>

text \<open>
  Clients that take and give back a lease by token. \<open>H\<close> maps each client that holds the lease to
  its token; a client whose lease expired may still release it later with its old token, and a
  request may have been executed although its reply was lost.
\<close>

inductive lease_step ::
  "('t \<Rightarrow> 's \<Rightarrow> bool \<times> 's) \<Rightarrow> ('t \<Rightarrow> 's \<Rightarrow> bool \<times> 's) \<Rightarrow> ('s \<Rightarrow> 't option)
    \<Rightarrow> 's \<times> (nat \<rightharpoonup> 't) \<Rightarrow> 's \<times> (nat \<rightharpoonup> 't) \<Rightarrow> bool"
  for acquire_op release_op owner where
  acquire: "acquire_op t s = (b, s') \<Longrightarrow> t \<notin> ran H \<Longrightarrow> H c = None
    \<Longrightarrow> lease_step acquire_op release_op owner (s, H) (s', if b then H(c \<mapsto> t) else H)"
| release: "H c = Some t \<Longrightarrow> release_op t s = (b, s')
    \<Longrightarrow> lease_step acquire_op release_op owner (s, H) (s', H(c := None))"
| late_release: "t \<notin> ran H \<Longrightarrow> release_op t s = (b, s')
    \<Longrightarrow> lease_step acquire_op release_op owner (s, H) (s', H)"
| expire: "owner s' = None \<Longrightarrow> lease_step acquire_op release_op owner (s, H) (s', Map.empty)"
| elsewhere: "owner s' = owner s \<Longrightarrow> lease_step acquire_op release_op owner (s, H) (s', H)"

locale lease_lock =
  fixes acquire_op :: "'t \<Rightarrow> 's \<Rightarrow> bool \<times> 's"
    and release_op :: "'t \<Rightarrow> 's \<Rightarrow> bool \<times> 's"
    and owner :: "'s \<Rightarrow> 't option"
  assumes granted: "acquire_op t s = (True, s') \<Longrightarrow> owner s = None \<and> owner s' = Some t"
    and refused: "acquire_op t s = (False, s') \<Longrightarrow>
      owner s' = owner s \<or> (owner s = None \<and> owner s' = Some t)"
    and released: "release_op t s = (b, s') \<Longrightarrow>
      owner s' = owner s \<or> (owner s = Some t \<and> owner s' = None)"
begin

definition exclusive :: "'s \<times> (nat \<rightharpoonup> 't) \<Rightarrow> bool" where
  "exclusive x \<longleftrightarrow> (\<forall>c t. snd x c = Some t \<longrightarrow> owner (fst x) = Some t)
     \<and> (\<forall>c c'. c \<in> dom (snd x) \<longrightarrow> c' \<in> dom (snd x) \<longrightarrow> c = c')"

lemma exclusive_step:
  assumes "lease_step acquire_op release_op owner x y" "exclusive x"
  shows "exclusive y"
  using assms
proof cases
  case (acquire t s b s' H c)
  show ?thesis
  proof (cases b)
    case True
    with acquire granted have "owner s = None" "owner s' = Some t" by auto
    with acquire assms(2) True show ?thesis by (auto simp: exclusive_def)
  next
    case False
    with acquire refused [of t s s'] assms(2) show ?thesis by (fastforce simp: exclusive_def)
  qed
next
  case (release H c t s b s')
  with assms(2) have "H(c := None) = Map.empty" by (force simp: exclusive_def)
  with release show ?thesis by (simp add: exclusive_def)
next
  case (late_release t H s b s')
  with released [OF late_release(4)] assms(2) show ?thesis
    by (fastforce simp: exclusive_def ran_def)
qed (auto simp: exclusive_def)

lemma exclusive_run:
  "(lease_step acquire_op release_op owner)\<^sup>*\<^sup>* (s, Map.empty) x \<Longrightarrow> exclusive x"
  by (induction rule: rtranclp_induct) (simp add: exclusive_def, metis exclusive_step)

end

section \<open>State per conversation\<close>

text \<open>Runs of a store on the scopes in use; the list holds the values put so far.\<close>

inductive store_run ::
  "('c \<Rightarrow> 'v \<Rightarrow> 's \<Rightarrow> bool \<times> 's) \<Rightarrow> ('c \<Rightarrow> 's \<Rightarrow> 'v option option \<times> 's) \<Rightarrow> ('c \<Rightarrow> 's \<Rightarrow> 's)
    \<Rightarrow> ('s \<Rightarrow> 'c \<Rightarrow> 'v option) \<Rightarrow> 'c set \<Rightarrow> ('v \<Rightarrow> bool) \<Rightarrow> 's \<Rightarrow> ('c \<times> 'v) list \<Rightarrow> 's \<Rightarrow> bool"
  for put fetch drop stored C ok s0 where
  begun: "store_run put fetch drop stored C ok s0 [] s0"
| after_put: "store_run put fetch drop stored C ok s0 h s \<Longrightarrow> c \<in> C \<Longrightarrow> ok v \<Longrightarrow> put c v s = (b, s')
    \<Longrightarrow> store_run put fetch drop stored C ok s0 ((c, v) # h) s'"
| after_fetch: "store_run put fetch drop stored C ok s0 h s \<Longrightarrow> fetch c s = (r, s')
    \<Longrightarrow> store_run put fetch drop stored C ok s0 h s'"
| after_drop: "store_run put fetch drop stored C ok s0 h s \<Longrightarrow> c \<in> C
    \<Longrightarrow> store_run put fetch drop stored C ok s0 h (drop c s)"
| expired: "store_run put fetch drop stored C ok s0 h s
    \<Longrightarrow> (\<And>c. stored s' c = stored s c \<or> stored s' c = None)
    \<Longrightarrow> store_run put fetch drop stored C ok s0 h s'"

text \<open>
  The contract of a store per conversation, for the scopes \<open>C\<close> in use and the values \<open>ok\<close> accepts:
  \<open>fetch\<close> returns what is stored for the scope or reports that the state is unavailable
  (\<open>None\<close>), and no operation on one scope changes another.
\<close>

locale scoped_store =
  fixes put :: "'c \<Rightarrow> 'v \<Rightarrow> 's \<Rightarrow> bool \<times> 's"
    and fetch :: "'c \<Rightarrow> 's \<Rightarrow> 'v option option \<times> 's"
    and drop :: "'c \<Rightarrow> 's \<Rightarrow> 's"
    and stored :: "'s \<Rightarrow> 'c \<Rightarrow> 'v option"
    and C :: "'c set" and ok :: "'v \<Rightarrow> bool"
  assumes put_reported: "put c v s = (True, s') \<Longrightarrow> ok v \<Longrightarrow> stored s' c = Some v"
    and put_here: "put c v s = (b, s') \<Longrightarrow> ok v \<Longrightarrow> stored s' c = stored s c \<or> stored s' c = Some v"
    and put_elsewhere: "put c v s = (b, s') \<Longrightarrow> c \<in> C \<Longrightarrow> c' \<in> C \<Longrightarrow> c' \<noteq> c \<Longrightarrow> stored s' c' = stored s c'"
    and fetch_reported: "fetch c s = (Some x, s') \<Longrightarrow> x = stored s c"
    and fetch_keeps: "fetch c s = (r, s') \<Longrightarrow> stored s' = stored s"
    and drop_here: "stored (drop c s) c = stored s c \<or> stored (drop c s) c = None"
    and drop_elsewhere: "c \<in> C \<Longrightarrow> c' \<in> C \<Longrightarrow> c' \<noteq> c \<Longrightarrow> stored (drop c s) c' = stored s c'"
begin

lemma stored_was_put:
  assumes "store_run put fetch drop stored C ok s0 h s" "c \<in> C" "stored s c = Some v"
  shows "(c, v) \<in> set h \<or> stored s0 c = Some v"
  using assms
proof (induction arbitrary: v rule: store_run.induct)
  case (after_put h s c' v' b s')
  then show ?case using put_here [OF after_put.hyps(4,3)] put_elsewhere [OF after_put.hyps(4,2)]
    by (cases "c = c'") (auto, metis)
next
  case (after_fetch h s c' r s')
  then show ?case using fetch_keeps [OF after_fetch.hyps(2)] by simp
next
  case (after_drop h s c')
  then show ?case using drop_here [of c' s] drop_elsewhere [OF after_drop.hyps(2)]
    by (cases "c = c'") (auto, metis)
next
  case (expired h s s')
  then show ?case by (metis option.distinct(1))
qed auto

lemma fetched_was_put:
  assumes "store_run put fetch drop stored C ok s0 h s" "c \<in> C" "fetch c s = (Some (Some v), s')"
  shows "(c, v) \<in> set h \<or> stored s0 c = Some v"
  using stored_was_put [OF assms(1,2)] fetch_reported [OF assms(3)] by metis

lemma read_your_write:
  assumes "put c v s = (True, s')" "ok v" "fetch c s' = (r, s'')"
  shows "r = Some (Some v) \<or> r = None"
  using put_reported [OF assms(1,2)] fetch_reported assms(3) by (cases r) auto

end

section \<open>Bounded retries\<close>

text \<open>
  A request loop over attempts \<open>n\<close> to \<open>mx\<close>: a transient outcome is retried after a pause while
  attempts are left, and every other outcome ends the loop. The list holds the attempts after which
  the loop paused.
\<close>

locale bounded_retry =
  fixes loop :: "nat \<Rightarrow> (nat \<Rightarrow> 'a) \<Rightarrow> nat \<Rightarrow> 'r \<times> nat list"
    and transient :: "'a \<Rightarrow> bool" and finish :: "'a \<Rightarrow> 'r"
  assumes again: "n < mx \<Longrightarrow> transient (net n) \<Longrightarrow>
      loop mx net n = (fst (loop mx net (Suc n)), n # snd (loop mx net (Suc n)))"
    and stop: "n \<le> mx \<Longrightarrow> n = mx \<or> \<not> transient (net n) \<Longrightarrow> loop mx net n = (finish (net n), [])"
begin

lemma loop_ends:
  "n \<le> mx \<Longrightarrow> \<exists>k. n \<le> k \<and> k \<le> mx \<and> (\<forall>i. n \<le> i \<and> i < k \<longrightarrow> transient (net i))
     \<and> (k = mx \<or> \<not> transient (net k)) \<and> loop mx net n = (finish (net k), [n..<k])"
proof (induction "mx - n" arbitrary: n)
  case 0
  then show ?case by (intro exI [of _ n]) (auto simp: stop)
next
  case (Suc m)
  show ?case
  proof (cases "transient (net n)")
    case True
    from Suc(2,3) have lt: "n < mx" "Suc n \<le> mx" "m = mx - Suc n" by auto
    from Suc(1) [OF lt(3,2)] obtain k where k: "Suc n \<le> k" "k \<le> mx"
      "\<forall>i. Suc n \<le> i \<and> i < k \<longrightarrow> transient (net i)" "k = mx \<or> \<not> transient (net k)"
      "loop mx net (Suc n) = (finish (net k), [Suc n..<k])" by blast
    from again [of n mx net, OF lt(1) True] k(5) have "loop mx net n = (finish (net k), n # [Suc n..<k])" by simp
    also have "n # [Suc n..<k] = [n..<k]" using k(1) by (simp add: upt_conv_Cons)
    finally have "loop mx net n = (finish (net k), [n..<k])" .
    moreover have "transient (net i)" if "n \<le> i" "i < k" for i
      using that True k(3) by (cases "i = n") auto
    ultimately show ?thesis using k(1,2,4) by (intro exI [of _ k]) auto
  next
    case False
    with Suc.prems show ?thesis by (intro exI [of _ n]) (auto simp: stop)
  qed
qed

end

end
