(* ===== verification/Delivery_Protocol.thy ===== *)
theory Delivery_Protocol
  imports Delivery Interfaces "HOL-Library.Multiset"
begin

text \<open>
  What the delivery store and service guarantee over whole executions: senders, callbacks and
  crashes interleaved in any order.
\<close>

section \<open>The store provides the claiming interface\<close>

type_synonym claim_args = "micros \<times> uuid \<times> uuid \<times> delivery_request"

definition claim_outcome :: "claim_args \<Rightarrow> database \<Rightarrow> bool option \<times> database" where
  "claim_outcome a d =
     (case a of (now, aid, cid, req) \<Rightarrow>
        (case claim now aid cid req d of
           (Inl e, d') \<Rightarrow> (None, d') | (Inr c, d') \<Rightarrow> (Some (dc_created c), d')))"

definition claim_key :: "claim_args \<Rightarrow> pystr" where
  "claim_key a = (case a of (now, aid, cid, req) \<Rightarrow> dr_idempotency_key req)"

definition settles :: "database \<Rightarrow> database \<Rightarrow> bool" where
  "settles d d' \<longleftrightarrow>
     (\<exists>now eid aid result r. finalize now eid aid result d = (r, d'))
     \<or> (\<exists>now eid cb r. session (apply_callback_body now eid cb) d = (r, d'))
     \<or> attempts d' = attempts d"

lemma finalize_keys:
  assumes "finalize now eid aid result d = (r, d')"
  shows "map at_idempotency_key (attempts d') = map at_idempotency_key (attempts d)"
proof (cases r)
  case (Inl e)
  with assms show ?thesis by (metis finalize_raised)
next
  case (Inr u)
  with assms show ?thesis by (auto elim: finalize_Inr)
qed

lemma callback_write_keys:
  assumes "callback_write now eid cb attempt d = (Inr x, d')"
  shows "map at_idempotency_key (attempts d') = map at_idempotency_key (attempts d)"
  using assms
  by (cases x) (auto elim!: callback_write_Inr simp: add_status_event_Inr)

lemma callback_keys:
  assumes "session (apply_callback_body now eid cb) d = (r, d')"
  shows "map at_idempotency_key (attempts d') = map at_idempotency_key (attempts d)"
proof (cases r)
  case (Inl e)
  with assms show ?thesis by (metis session_Inl)
next
  case (Inr x)
  with assms have "apply_callback_body now eid cb d = (Inr (fst x, snd x), d')"
    by (simp add: session_Inr)
  then show ?thesis
    by (cases rule: apply_callback_body_Inr) (auto dest: callback_write_keys)
qed

interpretation pg: idempotent_store claim_outcome claim_key claimed_keys settles
proof unfold_locales
  fix a :: claim_args and s s'
  assume "claim_outcome a s = (Some True, s')"
  then obtain now aid cid req c where "a = (now, aid, cid, req)"
    "claim now aid cid req s = (Inr c, s')" "dc_created c"
    by (auto simp: claim_outcome_def split: prod.splits sum.splits)
  with claim_created [OF this(2,3)]
  show "claim_key a \<notin> claimed_keys s \<and> insert (claim_key a) (claimed_keys s) \<subseteq> claimed_keys s'"
    by (simp add: claim_key_def new_attempt_def)
next
  fix a :: claim_args and b s s'
  assume o: "claim_outcome a s = (b, s')" and "b \<noteq> Some True"
  obtain now aid cid req where a: "a = (now, aid, cid, req)" by (cases a)
  obtain r d where r: "claim now aid cid req s = (r, d)" by (cases "claim now aid cid req s")
  from o r a have "s' = d" by (auto simp: claim_outcome_def split: sum.splits)
  moreover have "d = s"
  proof (cases r)
    case (Inl e)
    with r show ?thesis by (metis claim_raised)
  next
    case (Inr c)
    with o r a \<open>b \<noteq> Some True\<close> have "\<not> dc_created c" by (auto simp: claim_outcome_def)
    with r Inr show ?thesis by (metis claim_replayed(1))
  qed
  ultimately have "s' = s" by simp
  then show "claimed_keys s \<subseteq> claimed_keys s'" by simp
next
  fix s s' assume "settles s s'"
  then have "map at_idempotency_key (attempts s') = map at_idempotency_key (attempts s)"
    unfolding settles_def by (metis callback_keys finalize_keys)
  then show "claimed_keys s \<subseteq> claimed_keys s'" by simp
qed

section \<open>Concurrent senders\<close>

text \<open>
  Several workers run \<open>IdempotentDeliveryService.send\<close> at once. A worker whose claim was granted
  waits for its turn to call the adapter (\<open>sv_waiting\<close>), then for its turn to finalize
  (\<open>sv_results\<close>); \<open>sv_called\<close> lists the requests handed to the adapter. A worker may crash at
  either point, and callbacks and the other repositories change the database in between.
\<close>

record service =
  sv_db :: database
  sv_waiting :: "(uuid \<times> delivery_request) list"
  sv_results :: "(uuid \<times> delivery_result) list"
  sv_called :: "delivery_request list"

inductive service_step :: "service \<Rightarrow> service \<Rightarrow> bool" where
  claim_granted: "claim now aid cid req (sv_db s) = (Inr c, d) \<Longrightarrow> dc_created c \<Longrightarrow>
    service_step s (s\<lparr>sv_db := d, sv_waiting := (sn_id (dc_attempt c), req) # sv_waiting s\<rparr>)"
| claim_replayed: "claim now aid cid req (sv_db s) = (Inr c, d) \<Longrightarrow> \<not> dc_created c \<Longrightarrow>
    service_step s (s\<lparr>sv_db := d\<rparr>)"
| claim_raised: "claim now aid cid req (sv_db s) = (Inl e, d) \<Longrightarrow> service_step s (s\<lparr>sv_db := d\<rparr>)"
| adapter_called: "sv_waiting s = xs @ (aid, req) # ys \<Longrightarrow>
    service_step s (s\<lparr>sv_waiting := xs @ ys, sv_called := req # sv_called s,
      sv_results := (aid, result) # sv_results s\<rparr>)"
| finalized: "sv_results s = xs @ (aid, result) # ys \<Longrightarrow> finalize now eid aid result (sv_db s) = (r, d) \<Longrightarrow>
    service_step s (s\<lparr>sv_db := d, sv_results := xs @ ys\<rparr>)"
| callback: "session (apply_callback_body now eid cb) (sv_db s) = (r, d) \<Longrightarrow>
    service_step s (s\<lparr>sv_db := d\<rparr>)"
| crash_before_call: "sv_waiting s = xs @ x # ys \<Longrightarrow> service_step s (s\<lparr>sv_waiting := xs @ ys\<rparr>)"
| crash_after_call: "sv_results s = xs @ x # ys \<Longrightarrow> service_step s (s\<lparr>sv_results := xs @ ys\<rparr>)"
| elsewhere: "attempts d = attempts (sv_db s) \<Longrightarrow> db_ok d \<Longrightarrow> service_step s (s\<lparr>sv_db := d\<rparr>)"

definition idle_service :: "database \<Rightarrow> service" where
  "idle_service d = \<lparr>sv_db = d, sv_waiting = [], sv_results = [], sv_called = []\<rparr>"

text \<open>Every granted claim is accounted for: calls made and calls to be made are distinct claims.\<close>

definition accounted :: "database \<Rightarrow> service \<Rightarrow> bool" where
  "accounted d0 s \<longleftrightarrow> (\<exists>ks. claims_run claim_outcome claim_key settles d0 ks (sv_db s)
     \<and> mset (map dr_idempotency_key (map snd (sv_waiting s) @ sv_called s)) \<subseteq># mset ks)"


lemma distinct_submset:
  assumes "mset xs \<subseteq># mset ys" and "distinct ys"
  shows "distinct xs"
proof -
  from assms(1) obtain zs where "mset ys = mset (xs @ zs)"
    by (metis ex_mset mset_append mset_subset_eq_exists_conv)
  with assms(2) have "distinct (xs @ zs)" by (metis mset_eq_imp_distinct_iff)
  then show ?thesis by simp
qed

lemma accounted_step:
  assumes "service_step s t" and "accounted d0 s"
  shows "accounted d0 t"
proof -
  from assms(2) obtain ks where
    run: "claims_run claim_outcome claim_key settles d0 ks (sv_db s)"
    and sub: "mset (map dr_idempotency_key (map snd (sv_waiting s) @ sv_called s)) \<subseteq># mset ks"
    by (auto simp: accounted_def)
  have moved: "accounted d0 t"
    if "settles (sv_db s) (sv_db t)"
      "mset (map dr_idempotency_key (map snd (sv_waiting t) @ sv_called t))
        \<subseteq># mset (map dr_idempotency_key (map snd (sv_waiting s) @ sv_called s))" for t
    unfolding accounted_def
    using claims_run.elsewhere [OF run that(1)] subset_mset.order_trans [OF that(2) sub] by blast
  have same: "settles d d" for d by (simp add: settles_def)
  from assms(1) show ?thesis
  proof cases
    case (claim_granted now aid cid req c d)
    then have "claim_outcome (now, aid, cid, req) (sv_db s) = (Some True, d)"
      by (simp add: claim_outcome_def)
    from claims_run.granted [OF run this] sub claim_granted(1) show ?thesis
      by (auto simp: accounted_def claim_key_def)
  next
    case (adapter_called xs aid req ys result)
    then show ?thesis by (intro moved) (simp_all add: same)
  next
    case (finalized xs aid result ys now eid r d)
    then show ?thesis by (intro moved) (auto simp: settles_def)
  next
    case (callback now eid cb r d)
    then show ?thesis by (intro moved) (auto simp: settles_def)
  next
    case (crash_before_call xs x ys)
    then show ?thesis by (intro moved) (simp_all add: same)
  next
    case (claim_replayed now aid cid req c d)
    then have "d = sv_db s" by (metis Delivery.claim_replayed(1))
    with claim_replayed show ?thesis by (intro moved) (simp_all add: same)
  next
    case (claim_raised now aid cid req e d)
    then have "d = sv_db s" by (metis Delivery.claim_raised)
    with claim_raised show ?thesis by (intro moved) (simp_all add: same)
  qed (intro moved; simp add: settles_def)+
qed

lemma accounted_run: "service_step\<^sup>*\<^sup>* (idle_service d0) s \<Longrightarrow> accounted d0 s"
proof (induction rule: rtranclp_induct)
  case base
  show ?case using claims_run.start [of claim_outcome claim_key settles d0]
    by (auto simp: accounted_def idle_service_def)
qed (rule accounted_step)

text \<open>
  C1. At-most-once delivery. However senders, callbacks and crashes interleave, starting from any
  database with no send in progress, the adapter is called at most once per idempotency key, and
  never for a key the database already held.
\<close>

theorem delivery_at_most_once:
  assumes "service_step\<^sup>*\<^sup>* (idle_service d0) s"
  shows "distinct (map dr_idempotency_key (sv_called s))
    \<and> (\<forall>req \<in> set (sv_called s). dr_idempotency_key req \<notin> claimed_keys d0)"
proof -
  from accounted_run [OF assms] obtain ks where
    run: "claims_run claim_outcome claim_key settles d0 ks (sv_db s)"
    and sub: "mset (map dr_idempotency_key (map snd (sv_waiting s) @ sv_called s)) \<subseteq># mset ks"
    by (auto simp: accounted_def)
  from sub have called: "mset (map dr_idempotency_key (sv_called s)) \<subseteq># mset ks"
    by (metis map_append mset_append mset_subset_eq_add_right subset_mset.order_trans)
  from pg.run_claimed [OF run] have "distinct ks" "set ks \<inter> claimed_keys d0 = {}" by auto
  moreover from called have "set (map dr_idempotency_key (sv_called s)) \<subseteq> set ks"
    by (metis set_mset_mono set_mset_mset)
  ultimately show ?thesis using distinct_submset [OF called] by auto
qed

definition sample_request :: delivery_request where
  "sample_request = \<lparr>dr_idempotency_key = lit ''reply:wamid.1'', dr_conversation_id = lit ''54911'',
     dr_kind = DK_TEXT, dr_text = Some (lit ''hola''), dr_media_url = None, dr_interactive_options = [],
     dr_template_name = None, dr_template_language = None, dr_template_parameters = [],
     dr_customer_service_window = WINDOW_OPEN, dr_trace_id = lit ''t1''\<rparr>"

definition sample_db :: database where
  "sample_db = empty_db\<lparr>conversations := [\<lparr>cv_id = 1, cv_channel = WHATSAPP,
     cv_channel_account_id = lit ''pn1'', cv_external_conversation_id = lit ''54911'',
     cv_status = CW_PIKI_ACTIVE, cv_created_at = 0, cv_updated_at = 0\<rparr>]\<rparr>"

lemma sample_claim:
  "claim 5 7 1 sample_request sample_db =
     (Inr \<lparr>dc_created = True, dc_attempt = \<lparr>sn_id = 7, sn_state = AS_PENDING,
        sn_provider_message_id = None, sn_error_code = None, sn_error_message = None,
        sn_trace_id = lit ''t1''\<rparr>\<rparr>,
      sample_db\<lparr>attempts := [new_attempt 5 7 1 sample_request]\<rparr>)"
  by (simp add: claim_def session_def claim_body_def sample_db_def empty_db_def sample_request_def
      new_attempt_def conflicts_def snapshot_def construct_def valid_defs varchar_def Let_def)
    (simp add: lit_def)

definition sample_result :: delivery_result where
  "sample_result = \<lparr>rs_status = ACCEPTED, rs_provider_message_id = Some (lit ''wamid.out''),
     rs_error_code = None, rs_error_message = None, rs_trace_id = lit ''t1'', rs_metadata = []\<rparr>"

definition sample_service :: service where
  "sample_service = \<lparr>sv_db = sample_db\<lparr>attempts := [new_attempt 5 7 1 sample_request]\<rparr>,
     sv_waiting = [], sv_results = [(7, sample_result)], sv_called = [sample_request]\<rparr>"

lemma sample_service_reached: "service_step\<^sup>*\<^sup>* (idle_service sample_db) sample_service"
proof -
  let ?s1 = "\<lparr>sv_db = sample_db\<lparr>attempts := [new_attempt 5 7 1 sample_request]\<rparr>,
    sv_waiting = [(7, sample_request)], sv_results = [], sv_called = []\<rparr>"
  have "service_step (idle_service sample_db) ?s1"
    using service_step.claim_granted [of 5 7 1 sample_request "idle_service sample_db"] sample_claim
    by (simp add: idle_service_def)
  moreover have "service_step ?s1 sample_service"
    using service_step.adapter_called [of ?s1 "[]" 7 sample_request "[]" sample_result]
    by (simp add: sample_service_def)
  ultimately show ?thesis by (meson converse_rtranclp_into_rtranclp r_into_rtranclp)
qed

theorem delivery_at_most_once_witness:
  "sv_called sample_service = [sample_request]
    \<and> distinct (map dr_idempotency_key (sv_called sample_service))"
  using delivery_at_most_once [OF sample_service_reached] by (simp add: sample_service_def)


section \<open>Delivery states only progress\<close>

fun state_rank :: "attempt_state \<Rightarrow> nat" where
  "state_rank AS_PENDING = 0"
| "state_rank AS_ACCEPTED = 1"
| "state_rank AS_SENT = 2"
| "state_rank AS_DELIVERED = 3"
| "state_rank AS_READ = 4"
| "state_rank AS_FAILED = 4"
| "state_rank AS_UNKNOWN = 4"

definition state_moves :: "attempt_state \<Rightarrow> attempt_state \<Rightarrow> bool" where
  "state_moves a b \<longleftrightarrow> (a = AS_PENDING \<and> b \<noteq> AS_PENDING) \<or> can_transition a b"

interpretation att: ranked_progress state_moves state_rank
proof unfold_locales
  show "state_rank a < state_rank b" if "state_moves a b" for a b
    using that by (cases a; cases b) (auto simp: state_moves_def can_transition_def)
qed

lemma attempt_of_status_not_pending [simp]: "attempt_of_status s \<noteq> AS_PENDING"
  by (cases s) auto

lemma db_ok_attempt_id_eq:
  "db_ok d \<Longrightarrow> r \<in> set (attempts d) \<Longrightarrow> r' \<in> set (attempts d) \<Longrightarrow> at_id r = at_id r' \<Longrightarrow> r = r'"
  by (rule unique_on_key_eq [of "pk at_id" "attempts d" r r' "at_id r"])
    (auto simp: db_ok_def db_unique_def pk_def)

text \<open>The row that succeeds \<open>r\<close>: the same attempt, its status unchanged or one move further.\<close>

definition succeeds :: "attempt_row \<Rightarrow> attempt_row \<Rightarrow> bool" where
  "succeeds r r' \<longleftrightarrow> at_id r' = at_id r \<and> at_idempotency_key r' = at_idempotency_key r
     \<and> (at_status r' = at_status r \<or> state_moves (at_status r) (at_status r'))"

lemma finalize_succeeds:
  assumes "finalize now eid aid result d = (x, d')" and "r \<in> set (attempts d)"
  shows "\<exists>r' \<in> set (attempts d'). succeeds r r'"
proof (cases x)
  case (Inl e)
  with assms show ?thesis by (metis finalize_raised succeeds_def)
next
  case (Inr u)
  from assms(1) [unfolded Inr] obtain e where
    "attempts d' = update_where (is_pending_attempt aid) (finalized now result) (attempts d)"
    by (rule finalize_Inr) simp
  with updated_in [OF assms(2)] have
    "(if is_pending_attempt aid r then finalized now result r else r) \<in> set (attempts d')" by metis
  moreover have "succeeds r (if is_pending_attempt aid r then finalized now result r else r)"
    by (simp add: succeeds_def is_pending_attempt_def state_moves_def finalized_def)
  ultimately show ?thesis by blast
qed

lemma callback_succeeds:
  assumes "db_ok d" and "session (apply_callback_body now eid cb) d = (x, d')" and "r \<in> set (attempts d)"
  shows "\<exists>r' \<in> set (attempts d'). succeeds r r'"
proof -
  have refl: "\<exists>r' \<in> set (attempts d). succeeds r r'"
    using assms(3) by (auto simp: succeeds_def)
  show ?thesis
  proof (cases x)
    case (Inl e)
    from session_Inl [OF assms(2) [unfolded Inl]] refl show ?thesis by simp
  next
    case (Inr y)
    with assms(2) have "apply_callback_body now eid cb d = (Inr (fst y, snd y), d')"
      by (simp add: session_Inr)
    then show ?thesis
    proof (cases rule: apply_callback_body_Inr)
      case (2 attempt)
      note read = callback_read_Some [OF 2(1)]
      from 2(2) show ?thesis
      proof (cases rule: callback_write_Inr)
        case (3 d1)
        let ?r' = "if at_id r = at_id attempt then moved now cb r else r"
        have "attempts d1 = attempts d" using 3(3) by (simp add: add_status_event_Inr)
        then have "?r' \<in> set (attempts d')"
          using updated_in [OF assms(3), of "\<lambda>r. at_id r = at_id attempt" "moved now cb"] 3(4) by simp
        moreover have "at_status r = at_status attempt" if "at_id r = at_id attempt"
          using db_ok_attempt_id_eq [OF assms(1,3) read(1) that] by simp
        then have "succeeds r ?r'"
          using 3(2) by (simp add: succeeds_def state_moves_def) (simp add: moved_def)
        ultimately show ?thesis by blast
      qed (use refl in \<open>auto simp: add_status_event_Inr\<close>)
    qed (use refl in simp)
  qed
qed

lemma service_step_db_ok: "service_step s t \<Longrightarrow> db_ok (sv_db s) \<Longrightarrow> db_ok (sv_db t)"
  by (induction rule: service_step.induct)
    (simp_all, (blast intro: claim_db_ok finalize_db_ok apply_callback_db_ok)+)

lemma service_step_succeeds:
  assumes "service_step s t" and "db_ok (sv_db s)" and "r \<in> set (attempts (sv_db s))"
  shows "\<exists>r' \<in> set (attempts (sv_db t)). succeeds r r'"
proof -
  have refl: "succeeds r r" by (simp add: succeeds_def)
  from assms(1) show ?thesis
  proof cases
    case (claim_granted now aid cid req c d)
    with claim_created(3) [OF claim_granted(2,3)] assms(3) refl show ?thesis by auto
  next
    case (claim_replayed now aid cid req c d)
    then have "d = sv_db s" by (metis Delivery.claim_replayed(1))
    with claim_replayed(1) assms(3) refl show ?thesis by auto
  next
    case (claim_raised now aid cid req e d)
    then have "d = sv_db s" by (metis Delivery.claim_raised)
    with claim_raised(1) assms(3) refl show ?thesis by auto
  next
    case (finalized xs aid result ys now eid x d)
    with finalize_succeeds [OF finalized(3) assms(3)] show ?thesis by simp
  next
    case (callback now eid cb x d)
    with callback_succeeds [OF assms(2) callback(2) assms(3)] show ?thesis by simp
  qed (use assms(3) refl in auto)
qed

text \<open>
  C12. No regression. Along every interleaving of senders and serialized callbacks, from a database
  that satisfies its constraints, an attempt is never lost, and its status either is unchanged or
  has moved forward in the order pending, accepted, sent, delivered, read; the statuses read,
  failed and unknown are final.
\<close>

theorem delivery_status_monotone:
  assumes "service_step\<^sup>*\<^sup>* s t" and "db_ok (sv_db s)" and "r \<in> set (attempts (sv_db s))"
  shows "\<exists>r' \<in> set (attempts (sv_db t)). at_id r' = at_id r
    \<and> (at_status r' = at_status r \<or> state_rank (at_status r) < state_rank (at_status r'))"
proof -
  from assms(1) have "db_ok (sv_db t) \<and> (\<exists>r' \<in> set (attempts (sv_db t)). at_id r' = at_id r
      \<and> state_moves\<^sup>*\<^sup>* (at_status r) (at_status r'))"
  proof (induction rule: rtranclp_induct)
    case base
    then show ?case using assms(2,3) by auto
  next
    case (step y z)
    then obtain r1 where r1: "r1 \<in> set (attempts (sv_db y))" "at_id r1 = at_id r"
      "state_moves\<^sup>*\<^sup>* (at_status r) (at_status r1)" by blast
    from service_step_succeeds [OF step.hyps(2) _ r1(1)] step.IH obtain r2 where
      "r2 \<in> set (attempts (sv_db z))" "succeeds r1 r2" by blast
    with r1(2,3) service_step_db_ok [OF step.hyps(2)] step.IH show ?case
      by (auto simp: succeeds_def intro: rtranclp.rtrancl_into_rtrancl)
  qed
  then obtain r' where r': "r' \<in> set (attempts (sv_db t))" "at_id r' = at_id r"
    "state_moves\<^sup>*\<^sup>* (at_status r) (at_status r')" by blast
  from att.run_rank [OF r'(3)] r'(1,2) show ?thesis by metis
qed


lemma sample_finalize:
  "finalize 6 8 7 sample_result (sv_db sample_service) = (Inr (), d) \<Longrightarrow>
   service_step sample_service (sample_service\<lparr>sv_db := d, sv_results := []\<rparr>)"
  using service_step.finalized [of sample_service "[]" 7 sample_result "[]" 6 8]
  by (simp add: sample_service_def)

lemma sample_finalize_ok: "fst (finalize 6 8 7 sample_result (sv_db sample_service)) = Inr ()"
  by (simp add: finalize_def session_def finalize_body_def sample_service_def sample_db_def
      empty_db_def sample_result_def new_attempt_def is_pending_attempt_def add_status_event_def
      event_columns_ok_def opt_varchar_def varchar_def conflicts_def finalized_def update_where_def)
    (simp add: lit_def)

lemma sample_service_ok: "db_ok (sv_db sample_service)"
proof -
  have "db_ok sample_db"
    by (simp add: sample_db_def empty_db_def db_ok_def db_unique_def db_foreign_keys_def unique_on_def
        List.map_filter_simps pk_def uq_defs)
  then have "db_ok (sv_db (idle_service sample_db))" by (simp add: idle_service_def)
  with sample_service_reached show ?thesis
    by (induction rule: rtranclp_induct) (auto intro: service_step_db_ok)
qed

theorem delivery_status_monotone_witness:
  "\<exists>t r'. service_step\<^sup>*\<^sup>* sample_service t \<and> sv_results t = [] \<and> r' \<in> set (attempts (sv_db t))
     \<and> at_id r' = 7
     \<and> (at_status r' = AS_PENDING \<or> state_rank AS_PENDING < state_rank (at_status r'))"
proof -
  obtain d where "finalize 6 8 7 sample_result (sv_db sample_service) = (Inr (), d)"
    using sample_finalize_ok by (metis prod.collapse)
  then have st: "service_step\<^sup>*\<^sup>* sample_service (sample_service\<lparr>sv_db := d, sv_results := []\<rparr>)"
    using sample_finalize by blast
  have r: "new_attempt 5 7 1 sample_request \<in> set (attempts (sv_db sample_service))"
    by (simp add: sample_service_def)
  from delivery_status_monotone [OF st sample_service_ok r] st show ?thesis
    by (fastforce simp: new_attempt_def)
qed

end
