(* ===== verification/Delivery_Callbacks.thy ===== *)
theory Delivery_Callbacks
  imports Delivery_Protocol
begin

text \<open>
  The delivery invariant and what it gives for callbacks and replays: provider identifiers are
  unambiguous, a replayed send always has a truthful answer, duplicate callbacks change nothing, and
  successful callbacks converge to the same status in whatever order Meta delivers them.
\<close>

section \<open>The delivery invariant\<close>

text \<open>
  What the Meta adapter returns: a valid result whose status is accepted, failed or unknown, with a
  provider identifier exactly when it is accepted.
\<close>

definition adapter_result :: "delivery_result \<Rightarrow> bool" where
  "adapter_result r \<longleftrightarrow> valid_delivery_result r \<and> rs_status r \<in> {ACCEPTED, FAILED, UNKNOWN}
     \<and> (rs_provider_message_id r \<noteq> None \<longrightarrow> rs_status r = ACCEPTED)"

text \<open>A callback as normalization produces it: valid, and a failure carries a non-empty code.\<close>

definition normal_callback :: "status_update \<Rightarrow> bool" where
  "normal_callback cb \<longleftrightarrow> valid_status_update cb \<and> su_status cb \<in> {SENT, DELIVERED, READ, FAILED}
     \<and> su_error_code cb \<noteq> Some []"

definition truthful_row :: "attempt_row \<Rightarrow> bool" where
  "truthful_row r \<longleftrightarrow>
     len_between 1 128 (at_trace_id r)
     \<and> (if at_status r = AS_PENDING
        then at_provider_message_id r = None
        else (\<exists>st. status_of_attempt (at_status r) = Inr st \<and>
          valid_delivery_result \<lparr>rs_status = st, rs_provider_message_id = at_provider_message_id r,
            rs_error_code = at_error_code r, rs_error_message = at_error_message r,
            rs_trace_id = at_trace_id r, rs_metadata = [(lit ''idempotent_replay'', MBool True)]\<rparr>))"

definition accepted_event :: "database \<Rightarrow> pystr \<Rightarrow> uuid \<Rightarrow> bool" where
  "accepted_event d p aid \<longleftrightarrow> (\<exists>e \<in> set (status_events d). se_provider_message_id e = Some p
     \<and> se_status e = ACCEPTED \<and> se_delivery_attempt_id e = aid)"

definition delivery_inv :: "database \<Rightarrow> bool" where
  "delivery_inv d \<longleftrightarrow> db_ok d \<and> (\<forall>r \<in> set (attempts d). truthful_row r)
     \<and> (\<forall>r \<in> set (attempts d). \<forall>p. at_provider_message_id r = Some p \<longrightarrow> accepted_event d p (at_id r))
     \<and> (\<forall>e \<in> set (status_events d). \<forall>p. se_provider_message_id e = Some p \<longrightarrow>
          (\<exists>r \<in> set (attempts d). at_provider_message_id r = Some p
             \<and> \<not> can_transition (at_status r) (attempt_of_status (se_status e))))"

lemma delivery_invD:
  assumes "delivery_inv d"
  shows "db_ok d" and "r \<in> set (attempts d) \<Longrightarrow> truthful_row r"
    and "r \<in> set (attempts d) \<Longrightarrow> at_provider_message_id r = Some p \<Longrightarrow> accepted_event d p (at_id r)"
    and "e \<in> set (status_events d) \<Longrightarrow> se_provider_message_id e = Some p \<Longrightarrow>
      \<exists>r \<in> set (attempts d). at_provider_message_id r = Some p
        \<and> \<not> can_transition (at_status r) (attempt_of_status (se_status e))"
  using assms by (auto simp: delivery_inv_def)

text \<open>A provider identifier belongs to one attempt, so reading it back never finds two.\<close>

lemma provider_unique:
  assumes "delivery_inv d" "r \<in> set (attempts d)" "r' \<in> set (attempts d)"
    "at_provider_message_id r = Some p" "at_provider_message_id r' = Some p"
  shows "r = r'"
proof -
  from delivery_invD(3) [OF assms(1,2,4)] obtain e where
    e: "e \<in> set (status_events d)" "uq_delivery_status_provider_state e = Some (p, ACCEPTED)"
      "se_delivery_attempt_id e = at_id r"
    by (auto simp: accepted_event_def uq_defs)
  from delivery_invD(3) [OF assms(1,3,5)] obtain e' where
    e': "e' \<in> set (status_events d)" "uq_delivery_status_provider_state e' = Some (p, ACCEPTED)"
      "se_delivery_attempt_id e' = at_id r'"
    by (auto simp: accepted_event_def uq_defs)
  have "unique_on uq_delivery_status_provider_state (status_events d)"
    using delivery_invD(1) [OF assms(1)] by (simp add: db_ok_def db_unique_def)
  from unique_on_key_eq [OF this e(1) e'(1) e(2) e'(2)] e(3) e'(3) have "at_id r = at_id r'"
    by simp
  with assms(2,3) delivery_invD(1) [OF assms(1)] show ?thesis by (metis db_ok_attempt_id_eq)
qed

lemma unique_on_provider:
  assumes "delivery_inv d"
  shows "unique_on at_provider_message_id (attempts d)"
proof -
  have "distinct (attempts d)"
    using delivery_invD(1) [OF assms]
    by (auto simp: db_ok_def db_unique_def unique_on_def pk_def List.map_filter_def distinct_map)
  moreover have "List.map_filter at_provider_message_id (attempts d)
    = map (the \<circ> at_provider_message_id) (filter (\<lambda>r. at_provider_message_id r \<noteq> None) (attempts d))"
    by (simp add: List.map_filter_def comp_def)
  moreover have "inj_on (the \<circ> at_provider_message_id)
      (set (filter (\<lambda>r. at_provider_message_id r \<noteq> None) (attempts d)))"
    by (rule inj_onI) (auto dest: provider_unique [OF assms])
  ultimately show ?thesis by (simp add: unique_on_def distinct_map)
qed

text \<open>
  A callback is never ambiguous: in a database that satisfies the delivery invariant, looking up
  the attempt of a provider message identifier returns that attempt or nothing, never
  \<open>MultipleResultsFound\<close>, although the column has no unique constraint.
\<close>

theorem callback_read_unambiguous:
  assumes "delivery_inv d"
  shows "callback_read cb d
    = Inr (find (\<lambda>r. at_provider_message_id r = Some (su_provider_message_id cb)) (attempts d))"
  unfolding callback_read_def
  by (rule one_or_none_filter_unique) (rule unique_on_provider [OF assms])


section \<open>Every operation keeps the invariant\<close>

lemma can_transition_trans: "can_transition a b \<Longrightarrow> can_transition b c \<Longrightarrow> can_transition a c"
  by (cases a; cases b) (auto simp: can_transition_def)

lemma can_transition_irrefl [simp]: "\<not> can_transition a a"
  by (cases a) (auto simp: can_transition_def)

lemma can_transition_from_pending [simp]: "\<not> can_transition AS_PENDING b"
  by (simp add: can_transition_def)

lemma can_transition_ready:
  "can_transition a b \<Longrightarrow> a \<in> {AS_ACCEPTED, AS_SENT, AS_DELIVERED} \<and> b \<in> {AS_SENT, AS_DELIVERED, AS_READ, AS_FAILED}"
  by (cases a) (auto simp: can_transition_def)

lemma claim_inv:
  assumes inv: "delivery_inv d" and c: "claim now aid cid req d = (r, d')"
  shows "delivery_inv d'"
proof (cases "\<exists>c. r = Inr c \<and> dc_created c")
  case True
  then obtain k where "r = Inr k" "dc_created k" by blast
  note new = claim_created [OF c [unfolded this(1)] this(2)]
  have "truthful_row (new_attempt now aid cid req)" and "at_provider_message_id (new_attempt now aid cid req) = None"
    using new(6) by (simp_all add: truthful_row_def new_attempt_def)
  with inv claim_db_ok [OF delivery_invD(1) [OF inv] c] show ?thesis
    unfolding delivery_inv_def accepted_event_def new(3) by fastforce
next
  case False
  from claim_unchanged [OF c False] have "d' = d" .
  with inv show ?thesis by simp
qed

lemma truthful_finalized:
  assumes "truthful_row r" and "adapter_result result"
  shows "truthful_row (finalized now result r)"
  using assms unfolding truthful_row_def adapter_result_def
  by (auto simp: finalized_def valid_defs)

text \<open>
  One step that adds a status event and maps the attempts: what to check of the event and of the map.
\<close>

lemma delivery_inv_step:
  assumes inv: "delivery_inv d" and "db_ok d'"
    and ev: "set (status_events d') = insert e (set (status_events d))"
    and at: "set (attempts d') = f ` set (attempts d)"
    and true: "\<And>r. r \<in> set (attempts d) \<Longrightarrow> truthful_row (f r)"
    and id: "\<And>r. r \<in> set (attempts d) \<Longrightarrow> at_id (f r) = at_id r"
    and acc: "\<And>r p. r \<in> set (attempts d) \<Longrightarrow> at_provider_message_id (f r) = Some p \<Longrightarrow>
      at_provider_message_id r = Some p
      \<or> se_provider_message_id e = Some p \<and> se_status e = ACCEPTED \<and> se_delivery_attempt_id e = at_id r"
    and old: "\<And>r p b. r \<in> set (attempts d) \<Longrightarrow> at_provider_message_id r = Some p \<Longrightarrow> \<not> can_transition (at_status r) b \<Longrightarrow>
      at_provider_message_id (f r) = Some p \<and> \<not> can_transition (at_status (f r)) b"
    and new: "\<And>p. se_provider_message_id e = Some p \<Longrightarrow> \<exists>r \<in> set (attempts d). at_provider_message_id (f r) = Some p
      \<and> \<not> can_transition (at_status (f r)) (attempt_of_status (se_status e))"
  shows "delivery_inv d'"
proof -
  have "truthful_row r" if "r \<in> set (attempts d')" for r using that true by (auto simp: at)
  moreover have "accepted_event d' p (at_id r)" if "r \<in> set (attempts d')" "at_provider_message_id r = Some p" for r p
  proof -
    from that(1) obtain r0 where r0: "r0 \<in> set (attempts d)" "r = f r0" by (auto simp: at)
    from acc [OF r0(1)] that(2) r0(2) consider "at_provider_message_id r0 = Some p"
      | "se_provider_message_id e = Some p" "se_status e = ACCEPTED" "se_delivery_attempt_id e = at_id r0" by blast
    then show ?thesis
      using delivery_invD(3) [OF inv r0(1)] by cases (auto simp: accepted_event_def ev r0(2) id [OF r0(1)])
  qed
  moreover have "\<exists>r \<in> set (attempts d'). at_provider_message_id r = Some p
      \<and> \<not> can_transition (at_status r) (attempt_of_status (se_status x))"
    if "x \<in> set (status_events d')" "se_provider_message_id x = Some p" for x p
  proof (cases "x = e")
    case True
    with new that(2) show ?thesis by (auto simp: at)
  next
    case False
    with that delivery_invD(4) [OF inv, of x p] old show ?thesis by (fastforce simp: at ev)
  qed
  ultimately show ?thesis unfolding delivery_inv_def using assms(2) by blast
qed

lemma finalize_inv:
  assumes inv: "delivery_inv d" and ar: "adapter_result result"
    and f: "finalize now eid aid result d = (x, d')"
  shows "delivery_inv d'"
proof (cases x)
  case (Inl e)
  with f inv show ?thesis by (metis finalize_raised)
next
  case (Inr u)
  from f [unfolded Inr] obtain e where
    d': "d' = d\<lparr>attempts := update_where (is_pending_attempt aid) (finalized now result) (attempts d),
      status_events := status_events d @ [e]\<rparr>"
    and e: "se_delivery_attempt_id e = aid" "se_provider_message_id e = rs_provider_message_id result"
      "se_status e = rs_status result"
    and pend: "\<exists>r \<in> set (attempts d). is_pending_attempt aid r"
    by (rule finalize_Inr)
  let ?g = "\<lambda>r. if is_pending_attempt aid r then finalized now result r else r"
  have free: "at_provider_message_id r = None" if "r \<in> set (attempts d)" "is_pending_attempt aid r" for r
    using delivery_invD(2) [OF inv that(1)] that(2) by (auto simp: truthful_row_def is_pending_attempt_def)
  show ?thesis
  proof (rule delivery_inv_step [OF inv finalize_db_ok [OF delivery_invD(1) [OF inv] f], where e = e and f = ?g])
    fix r p
    assume "r \<in> set (attempts d)" "at_provider_message_id (?g r) = Some p"
    with e ar show "at_provider_message_id r = Some p
      \<or> se_provider_message_id e = Some p \<and> se_status e = ACCEPTED \<and> se_delivery_attempt_id e = at_id r"
      by (auto simp: finalized_def adapter_result_def is_pending_attempt_def split: if_splits)
  next
    fix p
    assume "se_provider_message_id e = Some p"
    with e ar pend show "\<exists>r \<in> set (attempts d). at_provider_message_id (?g r) = Some p
      \<and> \<not> can_transition (at_status (?g r)) (attempt_of_status (se_status e))"
      by (auto simp: finalized_def can_transition_def adapter_result_def)
  qed (use free delivery_invD(2) [OF inv] ar in \<open>auto simp: d' update_where_def truthful_finalized\<close>)
qed

lemma truthful_moved:
  assumes "truthful_row r" and "normal_callback cb"
    and "can_transition (at_status r) (attempt_of_status (su_status cb))"
  shows "truthful_row (moved now cb r)"
proof -
  from can_transition_ready [OF assms(3)] have
    "at_status r \<in> {AS_ACCEPTED, AS_SENT, AS_DELIVERED}" by simp
  with assms(1) have "truthy (at_provider_message_id r)" "opt_len 0 255 (at_provider_message_id r)"
    "len_between 1 128 (at_trace_id r)"
    by (auto simp: truthful_row_def valid_defs error_statuses_def provider_statuses_def)
  with assms(2) show ?thesis
    by (cases "su_error_code cb")
      (auto simp: truthful_row_def moved_def normal_callback_def valid_defs error_statuses_def)
qed

lemma callback_changed:
  assumes "session (apply_callback_body now eid cb) d = (x, d')" "d' \<noteq> d"
  obtains attempt res tr where "callback_read cb d = Inr (Some attempt)"
    "callback_write now eid cb attempt d = (Inr (res, tr), d')"
proof (cases x)
  case (Inl e)
  with assms that show ?thesis by (metis session_Inl)
next
  case (Inr y)
  obtain res tr where "y = (res, tr)" by (cases y)
  with assms(1) Inr have "apply_callback_body now eid cb d = (Inr (res, tr), d')" by (simp add: session_Inr)
  then show ?thesis by (cases rule: apply_callback_body_Inr) (use assms(2) that in auto)
qed

lemma callback_inv:
  assumes inv: "delivery_inv d" and nc: "normal_callback cb"
    and a: "session (apply_callback_body now eid cb) d = (x, d')"
  shows "delivery_inv d'"
proof (cases "d' = d")
  case ne: False
  with a obtain attempt res tr where rd: "callback_read cb d = Inr (Some attempt)"
    and w: "callback_write now eid cb attempt d = (Inr (res, tr), d')" by (rule callback_changed)
  let ?e = "callback_event now eid cb attempt"
  let ?t = "attempt_of_status (su_status cb)"
  define f where "f = (\<lambda>r. if at_id r = at_id attempt \<and> can_transition (at_status attempt) ?t
    then moved now cb r else r)"
  note att = callback_read_Some(1,2) [OF rd]
  have d': "set (status_events d') = insert ?e (set (status_events d))"
      "set (attempts d') = f ` set (attempts d)"
    unfolding f_def
    using w ne by (cases rule: callback_write_Inr; auto simp: add_status_event_Inr update_where_def)+
  have f_keeps: "at_id (f r) = at_id r" "at_provider_message_id (f r) = at_provider_message_id r" for r
    by (simp_all add: f_def)
  have f_other: "f r = r" if "r \<in> set (attempts d)" "r \<noteq> attempt" for r
    using db_ok_attempt_id_eq [OF delivery_invD(1) [OF inv] that(1) att(1)] that(2)
    by (auto simp: f_def)
  have f_true: "truthful_row (f r)" if "r \<in> set (attempts d)" for r
    using truthful_moved [OF delivery_invD(2) [OF inv att(1)] nc] delivery_invD(2) [OF inv that] f_other [OF that]
    by (cases "r = attempt") (simp_all add: f_def)
  have e: "se_provider_message_id ?e = at_provider_message_id attempt" "se_status ?e = su_status cb"
    using att(2) by (simp_all add: callback_event_def)
  have new_settled: "\<not> can_transition (at_status (f attempt)) ?t" by (simp add: f_def moved_def)
  have old_settled: "\<not> can_transition (at_status (f r)) b"
    if "r \<in> set (attempts d)" "\<not> can_transition (at_status r) b" for r b
    using that f_other [OF that(1)] can_transition_trans by (cases "r = attempt") (auto simp: f_def moved_def)
  show ?thesis
  proof (rule delivery_inv_step [OF inv apply_callback_db_ok [OF delivery_invD(1) [OF inv] a] d'(1,2)])
    fix p
    assume "se_provider_message_id ?e = Some p"
    with e new_settled att(1) show "\<exists>r \<in> set (attempts d). at_provider_message_id (f r) = Some p
      \<and> \<not> can_transition (at_status (f r)) (attempt_of_status (se_status ?e))"
      by (intro bexI [of _ attempt]) (simp_all add: f_keeps)
  qed (use f_true f_keeps old_settled in auto)
qed (use inv in simp)

lemma delivery_inv_no_attempts:
  "db_ok d \<Longrightarrow> attempts d = [] \<Longrightarrow> status_events d = [] \<Longrightarrow> delivery_inv d"
  by (simp add: delivery_inv_def)


section \<open>Replays\<close>

lemma valid_emit_attempt:
  assumes "valid_delivery_result r"
  shows "\<exists>log'. emit_attempt el r log = Inr log'"
proof -
  have "emit_counts el ev (rs_trace_id r) (lit ''meta_delivery'') out timed (rs_error_code r) None None l
      = Inr (l @ [\<lparr>lr_event = ev, lr_trace_id = rs_trace_id r, lr_component = lit ''meta_delivery'',
        lr_outcome = out, lr_duration_ms = (if timed then max 0 (el (length l)) else 0),
        lr_error_code = rs_error_code r, lr_confirmed_count = None, lr_unavailable_count = None\<rparr>])"
    for ev out timed l
    using assms by (auto simp: emit_counts_def construct_def valid_defs opt_nonneg_def)
  then show ?thesis by (simp add: emit_attempt_def Let_def)
qed

lemma truthful_existing_result:
  assumes "truthful_row r" and "snapshot r = Inr sn"
  shows "\<exists>result. existing_result sn = Inr result \<and> valid_delivery_result result
    \<and> rs_status result = (if at_status r = AS_PENDING then UNKNOWN
        else (case status_of_attempt (at_status r) of Inr st \<Rightarrow> st | Inl _ \<Rightarrow> UNKNOWN))"
proof -
  from assms(2) have sn: "sn = \<lparr>sn_id = at_id r, sn_state = at_status r,
    sn_provider_message_id = at_provider_message_id r, sn_error_code = at_error_code r,
    sn_error_message = at_error_message r, sn_trace_id = at_trace_id r\<rparr>"
    by (simp add: snapshot_def)
  show ?thesis
proof (cases "at_status r = AS_PENDING")
  case True
  with assms(1) have "len_between 1 128 (at_trace_id r)" by (simp add: truthful_row_def)
  with True sn show ?thesis
    by (simp add: existing_result_def construct_def valid_defs error_statuses_def
        provider_statuses_def lit_def)
next
  case False
  with assms(1) obtain st where st: "status_of_attempt (at_status r) = Inr st"
    and v: "valid_delivery_result \<lparr>rs_status = st, rs_provider_message_id = at_provider_message_id r,
      rs_error_code = at_error_code r, rs_error_message = at_error_message r,
      rs_trace_id = at_trace_id r, rs_metadata = [(lit ''idempotent_replay'', MBool True)]\<rparr>"
    by (auto simp: truthful_row_def)
  with False sn show ?thesis by (simp add: existing_result_def construct_def)
qed
qed

text \<open>
  C25. A replayed send is answered from the record: if the key was claimed before, \<open>send\<close> returns a
  valid result with the recorded status (\<open>UNKNOWN\<close> while the first attempt is still pending), calls
  no adapter and leaves the database as it was.
\<close>

theorem send_replay_truthful:
  assumes inv: "delivery_inv (ds_db s)" and r: "r \<in> set (attempts (ds_db s))"
    and key: "at_idempotency_key r = dr_idempotency_key req"
    and req: "valid_delivery_request req" "0 \<notin> set (dr_idempotency_key req)" "0 \<notin> set (dr_trace_id req)"
  shows "\<exists>result log'. send el now1 now2 aid eid adapter cid req s = (Inr result, s\<lparr>ds_log := log'\<rparr>)
    \<and> valid_delivery_result result
    \<and> (if at_status r = AS_PENDING then rs_status result = UNKNOWN
       else status_of_attempt (at_status r) = Inr (rs_status result))"
proof -
  have "unique_on uq_delivery_attempts_idempotency_key (attempts (ds_db s))"
    using delivery_invD(1) [OF inv] by (simp add: db_ok_def db_unique_def)
  from filter_unique_key [OF this r] have f:
    "filter (\<lambda>x. at_idempotency_key x = dr_idempotency_key req) (attempts (ds_db s)) = [r]"
    using key by (simp add: uq_defs)
  from delivery_invD(2) [OF inv r] obtain sn where sn: "snapshot r = Inr sn"
    by (auto simp: truthful_row_def snapshot_def construct_def valid_defs)
  from truthful_existing_result [OF delivery_invD(2) [OF inv r] sn] obtain result where
    res: "existing_result sn = Inr result" "valid_delivery_result result"
      "rs_status result = (if at_status r = AS_PENDING then UNKNOWN
        else (case status_of_attempt (at_status r) of Inr st \<Rightarrow> st | Inl _ \<Rightarrow> UNKNOWN))" by blast
  have "varchar 255 (dr_idempotency_key req)" "varchar 128 (dr_trace_id req)"
    using req by (auto simp: varchar_def valid_defs)
  moreover have "dr_idempotency_key req \<in> claimed_keys (ds_db s)"
    using r key [symmetric] by simp
  ultimately have "claim now1 aid cid req (ds_db s) = (Inr \<lparr>dc_created = False, dc_attempt = sn\<rparr>, ds_db s)"
    using f sn by (simp add: claim_def session_def claim_body_def conflicts_idempotency new_attempt_def)
  moreover obtain log' where "emit_attempt el result (ds_log s) = Inr log'"
    using valid_emit_attempt [OF res(2)] by blast
  moreover have settled: "at_status r \<noteq> AS_PENDING \<Longrightarrow> status_of_attempt (at_status r) = Inr (rs_status result)"
    using res(3) by (cases "at_status r") auto
  ultimately have "send el now1 now2 aid eid adapter cid req s = (Inr result, s\<lparr>ds_log := log'\<rparr>)"
    using res(1) by (simp add: send_def)
  moreover have "rs_status result = UNKNOWN" if "at_status r = AS_PENDING" using res(3) that by simp
  ultimately show ?thesis using res(2) settled by (auto split: if_splits)
qed

section \<open>Duplicates and order of callbacks\<close>

text \<open>
  Callbacks are idempotent: once a callback found its attempt and was processed, processing
  the same status of the same message again reports \<open>DUPLICATE\<close> and changes nothing.
\<close>

theorem callback_idempotent:
  assumes inv: "delivery_inv d" and nc: "normal_callback cb"
    and first: "session (apply_callback_body now eid cb) d = (Inr (result, tr), d')"
    and found: "result \<noteq> MISSING_ATTEMPT"
  shows "\<exists>tr'. session (apply_callback_body now' eid' cb) d' = (Inr (DUPLICATE, tr'), d')"
proof -
  have inv': "delivery_inv d'" by (rule callback_inv [OF inv nc first])
  from first have "apply_callback_body now eid cb d = (Inr (result, tr), d')" by (simp add: session_Inr)
  then obtain attempt where rd: "callback_read cb d = Inr (Some attempt)"
    and w: "callback_write now eid cb attempt d = (Inr (result, tr), d')"
    using found by (cases rule: apply_callback_body_Inr) auto
  have key: "uq_delivery_status_provider_state (callback_event n i cb a)
      = Some (su_provider_message_id cb, su_status cb)" for n i a
    by (simp add: uq_defs callback_event_def)
  from w have ev: "Some (su_provider_message_id cb, su_status cb)
      \<in> uq_delivery_status_provider_state ` set (status_events d')"
    by (cases rule: callback_write_Inr) (auto simp: conflicts_def key add_status_event_Inr)
  from w have cols: "event_columns_ok (callback_event now eid cb attempt)"
    by (auto simp: callback_write_def Let_def add_status_event_def split: if_splits prod.splits sum.splits)
  have "\<exists>a \<in> set (attempts d'). at_id a = at_id attempt \<and> at_trace_id a = at_trace_id attempt
      \<and> at_provider_message_id a = Some (su_provider_message_id cb)"
    using w
  proof (cases rule: callback_write_Inr)
    case (3 d1)
    with updated_in [OF callback_read_Some(1) [OF rd], of "\<lambda>r. at_id r = at_id attempt" "moved now cb"]
    have "moved now cb attempt \<in> set (attempts d')" by (simp add: add_status_event_Inr)
    with callback_read_Some(2) [OF rd] show ?thesis by (intro bexI [of _ "moved now cb attempt"]) simp_all
  qed (use callback_read_Some(1,2) [OF rd] in \<open>auto simp: add_status_event_Inr\<close>)
  then obtain a where a: "a \<in> set (attempts d')" "at_trace_id a = at_trace_id attempt"
    "at_provider_message_id a = Some (su_provider_message_id cb)" by blast
  then have "callback_read cb d' = Inr (Some a)"
    using filter_unique_key [OF unique_on_provider [OF inv'] a(1,3)] by (simp add: callback_read_def)
  moreover have "callback_write now' eid' cb a d' = (Inr (DUPLICATE, Some (at_trace_id a)), d')"
    using ev cols a(2) by (simp add: callback_write_def Let_def conflicts_def key)
      (simp add: event_columns_ok_def callback_event_def)
  ultimately show ?thesis by (simp add: session_Inr apply_callback_body_def)
qed

section \<open>A concrete delivery\<close>

definition sample_sent :: database where
  "sample_sent = snd (finalize 6 8 7 sample_result (sv_db sample_service))"

definition sample_callback :: status_update where
  "sample_callback = \<lparr>su_provider_message_id = lit ''wamid.out'', su_phone_number_id = lit ''pn1'',
     su_recipient_id = lit ''54911'', su_status = DELIVERED,
     su_occurred_at = Aware 9, su_error_code = None, su_error_message = None\<rparr>"

lemma sample_service_inv: "delivery_inv (sv_db sample_service)"
proof -
  have "db_ok sample_db"
    by (simp add: sample_db_def empty_db_def db_ok_def db_unique_def db_foreign_keys_def unique_on_def
        List.map_filter_simps pk_def uq_defs)
  then have "delivery_inv sample_db"
    by (rule delivery_inv_no_attempts) (simp_all add: sample_db_def empty_db_def)
  from claim_inv [OF this sample_claim] show ?thesis by (simp add: sample_service_def)
qed

lemma sample_result_ok: "adapter_result sample_result"
  by (simp add: adapter_result_def sample_result_def valid_defs error_statuses_def
      provider_statuses_def lit_def)

lemma sample_callback_ok: "normal_callback sample_callback"
  by (simp add: normal_callback_def sample_callback_def valid_defs error_statuses_def lit_def)

lemma sample_sent_inv: "delivery_inv sample_sent"
  by (rule finalize_inv [OF sample_service_inv sample_result_ok]) (simp add: sample_sent_def prod_eq_iff)

lemma sample_sent_eq:
  "sample_sent = sample_db\<lparr>
     attempts := [finalized 6 sample_result (new_attempt 5 7 1 sample_request)],
     status_events := [\<lparr>se_id = 8, se_delivery_attempt_id = 7,
       se_provider_message_id = Some (lit ''wamid.out''), se_status = ACCEPTED, se_error_code = None,
       se_error_message = None, se_trace_id = lit ''t1'', se_occurred_at = Aware 6, se_created_at = 6\<rparr>]\<rparr>"
  by (simp add: sample_sent_def finalize_def session_def finalize_body_def sample_service_def sample_db_def
      empty_db_def sample_result_def new_attempt_def is_pending_attempt_def add_status_event_def
      event_columns_ok_def opt_varchar_def varchar_def conflicts_def update_where_def)
    (simp add: lit_def finalized_def)

lemma sample_sent_attempts:
  "attempts sample_sent = [finalized 6 sample_result (new_attempt 5 7 1 sample_request)]"
  by (simp add: sample_sent_eq)

lemma sample_sent_row:
  "at_idempotency_key (new_attempt now aid cid req) = dr_idempotency_key req"
  "at_status (finalized 6 sample_result r) = AS_ACCEPTED"
  by (simp_all add: finalized_def sample_result_def new_attempt_def)

lemma sample_request_ok:
  "valid_delivery_request sample_request" "0 \<notin> set (dr_idempotency_key sample_request)"
  "0 \<notin> set (dr_trace_id sample_request)"
  by (simp_all add: sample_request_def valid_defs lit_def)

theorem callback_read_unambiguous_witness:
  "delivery_inv sample_sent \<and> callback_read sample_callback sample_sent
     = Inr (Some (finalized 6 sample_result (new_attempt 5 7 1 sample_request)))"
  using callback_read_unambiguous [OF sample_sent_inv, of sample_callback] sample_sent_inv
  by (simp add: sample_sent_attempts finalized_def sample_result_def sample_callback_def)


theorem send_replay_truthful_witness:
  "\<exists>result log'. send (\<lambda>n. 0) 10 11 12 13 (\<lambda>req. Inl RuntimeError) 1 sample_request
      \<lparr>ds_db = sample_sent, ds_log = [], ds_sent = []\<rparr>
    = (Inr result, \<lparr>ds_db = sample_sent, ds_log = log', ds_sent = []\<rparr>)
    \<and> valid_delivery_result result \<and> rs_status result = ACCEPTED"
  using send_replay_truthful [of "\<lparr>ds_db = sample_sent, ds_log = [], ds_sent = []\<rparr>"
      "finalized 6 sample_result (new_attempt 5 7 1 sample_request)" sample_request "\<lambda>n. 0" 10 11 12 13
      "\<lambda>req. Inl RuntimeError" 1]
  by (simp add: sample_sent_inv sample_sent_attempts sample_request_ok sample_sent_row
      eq_commute [of ACCEPTED])

theorem callback_idempotent_witness:
  "\<exists>d' tr'. session (apply_callback_body 20 21 sample_callback) sample_sent
      = (Inr (APPLIED, Some (lit ''t1'')), d')
    \<and> session (apply_callback_body 22 23 sample_callback) d' = (Inr (DUPLICATE, tr'), d')"
proof -
  have "fst (session (apply_callback_body 20 21 sample_callback) sample_sent)
      = Inr (APPLIED, Some (lit ''t1''))"
    by (simp add: session_def apply_callback_body_def callback_read_def callback_write_def Let_def
        sample_sent_eq sample_callback_def callback_event_def event_columns_ok_def opt_varchar_def
        varchar_def conflicts_def uq_defs add_status_event_def pk_def can_transition_def finalized_def
        new_attempt_def sample_result_def sample_request_def)
      (simp add: lit_def)
  then obtain d' where d': "session (apply_callback_body 20 21 sample_callback) sample_sent
      = (Inr (APPLIED, Some (lit ''t1'')), d')" by (metis prod.collapse)
  from callback_idempotent [OF sample_sent_inv sample_callback_ok d'] d' show ?thesis by auto
qed

end
