(* ===== verification/Delivery_Order.thy ===== *)
theory Delivery_Order
  imports Delivery_Callbacks
begin

text \<open>
  The order of callbacks: serialized callbacks converge to the same status in whatever order Meta
  delivers them, overlapping ones need not, and a success event follows a durable row.
\<close>

section \<open>Serialized callbacks converge\<close>

text \<open>The callbacks of a list, each in its own session, until one raises.\<close>

fun apply_callbacks ::
  "(micros \<times> uuid \<times> status_update) list \<Rightarrow> database \<Rightarrow> callback_apply_status list res \<times> database" where
  "apply_callbacks [] d = (Inr [], d)"
| "apply_callbacks ((now, eid, cb) # cs) d =
     (case session (apply_callback_body now eid cb) d of
        (Inl e, d1) \<Rightarrow> (Inl e, d1)
      | (Inr (r, _), d1) \<Rightarrow>
        (case apply_callbacks cs d1 of (Inl e, d2) \<Rightarrow> (Inl e, d2) | (Inr rs, d2) \<Rightarrow> (Inr (r # rs), d2)))"

definition advance :: "attempt_state \<Rightarrow> attempt_state \<Rightarrow> attempt_state" where
  "advance a b = (if can_transition a b then b else a)"

text \<open>One callback advances the status of its attempt, whichever of its branches it takes.\<close>

lemma callback_advances:
  assumes inv: "delivery_inv d" and nc: "normal_callback cb"
    and a: "session (apply_callback_body now eid cb) d = (Inr (res, tr), d')"
    and r: "r \<in> set (attempts d)" "at_provider_message_id r = Some (su_provider_message_id cb)"
  shows "\<exists>r' \<in> set (attempts d'). at_provider_message_id r' = at_provider_message_id r
    \<and> at_status r' = advance (at_status r) (attempt_of_status (su_status cb))"
proof -
  let ?t = "attempt_of_status (su_status cb)"
  from a have b: "apply_callback_body now eid cb d = (Inr (res, tr), d')" by (simp add: session_Inr)
  have f: "filter (\<lambda>x. at_provider_message_id x = Some (su_provider_message_id cb)) (attempts d) = [r]"
    by (rule filter_unique_key [OF unique_on_provider [OF inv] r])
  from b f have w: "callback_write now eid cb r d = (Inr (res, tr), d')"
    by (simp add: apply_callback_body_def callback_read_def)
  then show ?thesis
  proof (cases rule: callback_write_Inr)
    case 1
    then obtain e where e: "e \<in> set (status_events d)"
      "uq_delivery_status_provider_state (callback_event now eid cb r)
        = uq_delivery_status_provider_state e"
      by (auto simp: conflicts_def)
    then have e': "se_provider_message_id e = Some (su_provider_message_id cb)" "se_status e = su_status cb"
      by (auto simp: uq_defs callback_event_def eq_commute [of "Some _"])
    from delivery_invD(4) [OF inv e(1) e'(1)] e'(2) provider_unique [OF inv _ r(1) _ r(2)]
    have "\<not> can_transition (at_status r) ?t" by metis
    with 1 r show ?thesis by (auto simp: advance_def)
  next
    case 2
    with r show ?thesis by (auto simp: advance_def add_status_event_Inr)
  next
    case (3 d1)
    from updated_in [OF r(1), of "\<lambda>x. at_id x = at_id r" "moved now cb"] 3 have
      "moved now cb r \<in> set (attempts d')" by (simp add: add_status_event_Inr)
    with 3(2) show ?thesis
      by (intro bexI [of _ "moved now cb r"]) (simp_all add: advance_def, simp add: moved_def)
  qed
qed

lemma callbacks_fold:
  assumes "apply_callbacks cs d = (Inr rs, d')" and "delivery_inv d"
    and "\<forall>c \<in> set cs. normal_callback (snd (snd c)) \<and> su_provider_message_id (snd (snd c)) = p"
    and "r \<in> set (attempts d)" "at_provider_message_id r = Some p"
  shows "delivery_inv d' \<and> (\<exists>r' \<in> set (attempts d'). at_provider_message_id r' = Some p
    \<and> at_status r' = foldl advance (at_status r) (map (attempt_of_status \<circ> su_status \<circ> snd \<circ> snd) cs))"
  using assms
proof (induction cs arbitrary: d rs r)
  case (Cons c cs)
  obtain now eid cb where c: "c = (now, eid, cb)" by (cases c)
  with Cons.prems(3) have cb: "normal_callback cb" "su_provider_message_id cb = p" by auto
  from Cons.prems(1) c obtain res tr d1 rs1 where
    s: "session (apply_callback_body now eid cb) d = (Inr (res, tr), d1)"
    and rest: "apply_callbacks cs d1 = (Inr rs1, d')"
    by (auto split: prod.splits sum.splits)
  from callback_advances [OF Cons.prems(2) cb(1) s Cons.prems(4)] Cons.prems(5) cb(2) obtain r1 where
    r1: "r1 \<in> set (attempts d1)" "at_provider_message_id r1 = Some p"
      "at_status r1 = advance (at_status r) (attempt_of_status (su_status cb))" by auto
  from Cons.IH [OF rest callback_inv [OF Cons.prems(2) cb(1) s] _ r1(1,2)] Cons.prems(3) r1(3) c
  show ?case by simp
qed auto

definition success_chain :: "attempt_state set" where
  "success_chain = {AS_ACCEPTED, AS_SENT, AS_DELIVERED, AS_READ}"

lemma advance_stuck: "a \<notin> success_chain \<Longrightarrow> foldl advance a bs = a"
  by (induction bs) (cases a; auto simp: success_chain_def advance_def can_transition_def)+

lemma advance_chain:
  assumes "a \<in> success_chain" "b \<in> success_chain"
  shows "advance a b \<in> success_chain \<and> state_rank (advance a b) = max (state_rank a) (state_rank b)"
  using assms by (auto simp: success_chain_def advance_def can_transition_def)

lemma advance_fold_rank:
  assumes "a \<in> success_chain" "set bs \<subseteq> success_chain"
  shows "foldl advance a bs \<in> success_chain
    \<and> state_rank (foldl advance a bs) = Max (state_rank ` insert a (set bs))"
  using assms
proof (induction bs arbitrary: a)
  case (Cons b bs)
  then have "advance a b \<in> success_chain" and m: "state_rank (advance a b) = max (state_rank a) (state_rank b)"
    using advance_chain by auto
  from Cons.IH [OF this(1)] Cons.prems(2) m show ?case
    by (cases "bs = []") (simp_all add: max.assoc)
qed simp

lemma advance_same_set:
  assumes "set bs = set bs'" "set bs \<subseteq> success_chain"
  shows "foldl advance a bs = foldl advance a bs'"
proof (cases "a \<in> success_chain")
  case True
  have "inj_on state_rank success_chain" by (auto simp: inj_on_def success_chain_def)
  moreover have "state_rank (foldl advance a bs) = state_rank (foldl advance a bs')"
    using advance_fold_rank [OF True] assms by simp
  ultimately show ?thesis
    using advance_fold_rank [OF True] assms by (metis inj_onD)
qed (simp add: advance_stuck)

lemma success_status_chain: "s \<in> {SENT, DELIVERED, READ} \<Longrightarrow> attempt_of_status s \<in> success_chain"
  by (auto simp: success_chain_def)

text \<open>
  C19. Order does not matter for successful callbacks. Two runs of serialized callbacks about one
  message, in any order and with any repetitions, that report the same set of statuses among sent,
  delivered and read leave its attempt with the same status.
\<close>

theorem callbacks_converge:
  assumes inv: "delivery_inv d"
    and cs: "\<forall>c \<in> set cs \<union> set cs'. normal_callback (snd (snd c))
      \<and> su_provider_message_id (snd (snd c)) = p \<and> su_status (snd (snd c)) \<noteq> FAILED"
    and same: "(su_status \<circ> snd \<circ> snd) ` set cs = (su_status \<circ> snd \<circ> snd) ` set cs'"
    and runs: "apply_callbacks cs d = (Inr rs, d1)" "apply_callbacks cs' d = (Inr rs', d2)"
    and r: "r \<in> set (attempts d)" "at_provider_message_id r = Some p"
  shows "\<exists>r1 \<in> set (attempts d1). \<exists>r2 \<in> set (attempts d2).
    at_provider_message_id r1 = Some p \<and> at_provider_message_id r2 = Some p
    \<and> at_status r1 = at_status r2"
proof -
  let ?f = "attempt_of_status \<circ> su_status \<circ> snd \<circ> snd"
  have chain: "?f c \<in> success_chain" if "c \<in> set cs" for c
    using cs that by (auto simp: normal_callback_def intro!: success_status_chain)
  have "set (map ?f cs) = set (map ?f cs')" using same by (metis image_comp list.set_map)
  moreover have "set (map ?f cs) \<subseteq> success_chain" using chain by auto
  ultimately have "foldl advance a (map ?f cs) = foldl advance a (map ?f cs')" for a
    by (rule advance_same_set)
  with callbacks_fold [OF runs(1) inv _ r] callbacks_fold [OF runs(2) inv _ r] cs show ?thesis
    by (metis Un_iff)
qed


definition sample_read :: status_update where
  "sample_read = sample_callback\<lparr>su_status := READ\<rparr>"

lemma sample_read_ok: "normal_callback sample_read"
  by (simp add: normal_callback_def sample_read_def sample_callback_def valid_defs error_statuses_def
      lit_def)

lemmas sample_callback_eval = session_def apply_callback_body_def callback_read_def callback_write_def
  Let_def sample_sent_eq sample_read_def sample_callback_def callback_event_def event_columns_ok_def
  opt_varchar_def varchar_def conflicts_def uq_defs add_status_event_def pk_def can_transition_def
  finalized_def new_attempt_def sample_result_def sample_request_def update_where_def moved_def

lemma sample_orders:
  "fst (apply_callbacks [(20, 21, sample_callback), (22, 23, sample_read)] sample_sent)
    = Inr [APPLIED, APPLIED]"
  "fst (apply_callbacks [(20, 21, sample_read), (22, 23, sample_callback), (24, 25, sample_read)] sample_sent)
    = Inr [APPLIED, IGNORED_REGRESSION, DUPLICATE]"
  by (simp_all add: sample_callback_eval) (simp_all add: lit_def)

theorem callbacks_converge_witness:
  "\<exists>d1 d2. apply_callbacks [(20, 21, sample_callback), (22, 23, sample_read)] sample_sent
      = (Inr [APPLIED, APPLIED], d1)
    \<and> apply_callbacks [(20, 21, sample_read), (22, 23, sample_callback), (24, 25, sample_read)] sample_sent
      = (Inr [APPLIED, IGNORED_REGRESSION, DUPLICATE], d2)
    \<and> (\<exists>r1 \<in> set (attempts d1). \<exists>r2 \<in> set (attempts d2). at_status r1 = at_status r2)"
proof -
  obtain d1 d2 where
    d1: "apply_callbacks [(20, 21, sample_callback), (22, 23, sample_read)] sample_sent
      = (Inr [APPLIED, APPLIED], d1)"
    and d2: "apply_callbacks [(20, 21, sample_read), (22, 23, sample_callback), (24, 25, sample_read)] sample_sent
      = (Inr [APPLIED, IGNORED_REGRESSION, DUPLICATE], d2)"
    using sample_orders by (metis prod.collapse)
  have r: "finalized 6 sample_result (new_attempt 5 7 1 sample_request) \<in> set (attempts sample_sent)"
    "at_provider_message_id (finalized 6 sample_result (new_attempt 5 7 1 sample_request))
      = Some (lit ''wamid.out'')"
    by (simp_all add: sample_sent_attempts) (simp add: finalized_def sample_result_def)
  from callbacks_converge [OF sample_sent_inv _ _ d1 d2 r] d1 d2 sample_callback_ok sample_read_ok
  show ?thesis by (auto simp: sample_read_def sample_callback_def)
qed

section \<open>Overlapping callbacks\<close>

text \<open>
  Overlapping callbacks may regress. \<open>_apply_callback\<close> reads the attempt without locking it, so
  two transactions can read the same accepted attempt; when the one that reports read writes first
  and the one that reports delivered writes second, both are applied and the attempt goes back from
  read to delivered, although \<open>_can_transition\<close> forbids that move.
\<close>

theorem overlapping_callbacks_regress:
  "\<exists>d attempt d1 d2. delivery_inv d \<and> callback_read sample_read d = Inr (Some attempt)
    \<and> callback_read sample_callback d = Inr (Some attempt)
    \<and> callback_write 20 21 sample_read attempt d = (Inr (APPLIED, Some (at_trace_id attempt)), d1)
    \<and> callback_write 22 23 sample_callback attempt d1 = (Inr (APPLIED, Some (at_trace_id attempt)), d2)
    \<and> map at_status (attempts d1) = [AS_READ] \<and> map at_status (attempts d2) = [AS_DELIVERED]
    \<and> \<not> can_transition AS_READ AS_DELIVERED"
proof -
  let ?a = "finalized 6 sample_result (new_attempt 5 7 1 sample_request)"
  define w1 where "w1 = callback_write 20 21 sample_read ?a sample_sent"
  define w2 where "w2 = callback_write 22 23 sample_callback ?a (snd w1)"
  have "callback_read sample_read sample_sent = Inr (Some ?a)"
    "callback_read sample_callback sample_sent = Inr (Some ?a)"
    by (simp_all add: sample_callback_eval)
  moreover have "fst w1 = Inr (APPLIED, Some (at_trace_id ?a))" "map at_status (attempts (snd w1)) = [AS_READ]"
    by (simp_all add: w1_def sample_callback_eval) (simp_all add: lit_def)
  moreover have "fst w2 = Inr (APPLIED, Some (at_trace_id ?a))"
    "map at_status (attempts (snd w2)) = [AS_DELIVERED]"
    by (simp_all add: w2_def w1_def sample_callback_eval) (simp_all add: lit_def)
  moreover have "\<not> can_transition AS_READ AS_DELIVERED" by (simp add: can_transition_def)
  ultimately show ?thesis using sample_sent_inv unfolding w1_def w2_def by (metis prod.collapse)
qed

end
