(* ===== verification/Json.thy ===== *)
theory Json
  imports Contracts
begin

text \<open>
  JSON values as \<open>json.loads\<close> returns them and as request bodies are built, and the outcome of an
  HTTP request. A dictionary is the list of its items; a float is kept as its \<open>repr\<close>. Network
  behaviour is an input: a request times out, fails, or returns a status code and a body, which is
  \<open>None\<close> when \<open>response.json()\<close> raises \<open>ValueError\<close>.
\<close>

datatype json = JNull | JBool bool | JInt int | JFloat pystr | JStr pystr | JArr "json list"
  | JObj "(pystr \<times> json) list"

datatype http_outcome = Http_Timeout | Http_RequestError | Http_Response int "json option"

fun jget :: "pystr \<Rightarrow> json \<Rightarrow> json option" where
  "jget k (JObj items) = map_of items k"
| "jget k _ = None"

fun jstr :: "json option \<Rightarrow> pystr option" where
  "jstr (Some (JStr s)) = Some s"
| "jstr _ = None"

fun jlist :: "json option \<Rightarrow> json list option" where
  "jlist (Some (JArr xs)) = Some xs"
| "jlist _ = None"

fun is_object :: "json \<Rightarrow> bool" where
  "is_object (JObj _) = True"
| "is_object _ = False"

text \<open>\<open>str(value)\<close>; the \<open>repr\<close> of a list or dictionary is the argument \<open>repr\<close>.\<close>

fun py_str :: "(json \<Rightarrow> pystr) \<Rightarrow> json \<Rightarrow> pystr" where
  "py_str repr JNull = lit ''None''"
| "py_str repr (JBool b) = (if b then lit ''True'' else lit ''False'')"
| "py_str repr (JInt n) = str_int n"
| "py_str repr (JFloat r) = r"
| "py_str repr (JStr s) = s"
| "py_str repr j = repr j"

text \<open>\<open>httpx.Response.is_error\<close>.\<close>

definition is_error :: "int \<Rightarrow> bool" where
  "is_error status \<longleftrightarrow> 400 \<le> status \<and> status \<le> 599"

fun sequence_opt :: "'a option list \<Rightarrow> 'a list option" where
  "sequence_opt [] = Some []"
| "sequence_opt (None # xs) = None"
| "sequence_opt (Some x # xs) = map_option ((#) x) (sequence_opt xs)"

end
