(* ===== verification/Meta_Delivery.thy ===== *)
theory Meta_Delivery
  imports Json Delivery_Callbacks
begin

text \<open>
  The Meta delivery adapter, \<open>src/src/piki/integrations/meta/delivery.py\<close>: the request body for each
  kind of delivery, and the result for each outcome of the one HTTP request.
\<close>

section \<open>Definitions\<close>

text \<open>\<open>MetaSendResponse.model_validate\<close>: other keys are ignored.\<close>

definition meta_send_response :: "json \<Rightarrow> (pystr \<times> pystr list) option" where
  "meta_send_response j =
     (case (jstr (jget (lit ''messaging_product'') j), jlist (jget (lit ''messages'') j)) of
        (Some product, Some xs) \<Rightarrow>
          map_option (Pair product) (sequence_opt (map (\<lambda>x. jstr (jget (lit ''id'') x)) xs))
      | _ \<Rightarrow> None)"

definition failure ::
  "delivery_status \<Rightarrow> pystr \<Rightarrow> pystr \<Rightarrow> (pystr \<times> meta_value) list \<Rightarrow> pystr \<Rightarrow> delivery_result res" where
  "failure status code msg metadata tid = construct valid_delivery_result
     \<lparr>rs_status = status, rs_provider_message_id = None, rs_error_code = Some code,
      rs_error_message = Some msg, rs_trace_id = tid, rs_metadata = metadata\<rparr>"

definition local_failure :: "delivery_request \<Rightarrow> pystr \<Rightarrow> delivery_result res" where
  "local_failure req code = failure FAILED code
     (lit ''El mensaje no cumple el contrato de entrega de Meta.'') [] (dr_trace_id req)"

definition window_failure :: "delivery_request \<Rightarrow> delivery_result res" where
  "window_failure req =
     (if dr_customer_service_window req = WINDOW_CLOSED
      then failure FAILED (lit ''META_TEMPLATE_REQUIRED'')
        (lit ''La ventana de atenci'' @ [243] @ lit ''n est'' @ [225]
         @ lit '' cerrada; se requiere un template aprobado.'') [] (dr_trace_id req)
      else failure FAILED (lit ''META_WINDOW_UNCONFIRMED'')
        (lit ''No se pudo confirmar la ventana de atenci'' @ [243] @ lit ''n para el env'' @ [237]
         @ lit ''o libre.'') [] (dr_trace_id req))"

definition opt_json :: "pystr option \<Rightarrow> json" where
  "opt_json x = (case x of None \<Rightarrow> JNull | Some s \<Rightarrow> JStr s)"

definition body_base :: "delivery_request \<Rightarrow> (pystr \<times> json) list" where
  "body_base req = [(lit ''messaging_product'', JStr (lit ''whatsapp'')),
     (lit ''recipient_type'', JStr (lit ''individual'')), (lit ''to'', JStr (dr_conversation_id req))]"

definition text_body :: "delivery_request \<Rightarrow> (pystr \<times> json) list" where
  "text_body req = [(lit ''type'', JStr (lit ''text'')),
     (lit ''text'', JObj [(lit ''preview_url'', JBool False), (lit ''body'', opt_json (dr_text req))])]"

definition image_body :: "delivery_request \<Rightarrow> (pystr \<times> json) list" where
  "image_body req = [(lit ''type'', JStr (lit ''image'')),
     (lit ''image'', JObj ((lit ''link'', JStr (case dr_media_url req of None \<Rightarrow> lit ''None'' | Some u \<Rightarrow> u))
        # (if truthy (dr_text req) then [(lit ''caption'', opt_json (dr_text req))] else [])))]"

definition interactive_body :: "delivery_request \<Rightarrow> (pystr \<times> json) list" where
  "interactive_body req = [(lit ''type'', JStr (lit ''interactive'')),
     (lit ''interactive'', JObj [(lit ''type'', JStr (lit ''button'')),
        (lit ''body'', JObj [(lit ''text'', opt_json (dr_text req))]),
        (lit ''action'', JObj [(lit ''buttons'', JArr (map (\<lambda>x. JObj [(lit ''type'', JStr (lit ''reply'')),
           (lit ''reply'', JObj [(lit ''id'', JStr (io_id x)), (lit ''title'', JStr (io_title x))])])
           (dr_interactive_options req)))])])]"

definition template_body :: "delivery_request \<Rightarrow> (pystr \<times> json) list" where
  "template_body req = [(lit ''type'', JStr (lit ''template'')),
     (lit ''template'', JObj ([(lit ''name'', opt_json (dr_template_name req)),
        (lit ''language'', JObj [(lit ''code'', opt_json (dr_template_language req))])]
      @ (if dr_template_parameters req \<noteq> [] then
           [(lit ''components'', JArr [JObj [(lit ''type'', JStr (lit ''body'')),
              (lit ''parameters'', JArr (map (\<lambda>v. JObj [(lit ''type'', JStr (lit ''text'')),
                 (lit ''text'', JStr v)]) (dr_template_parameters req)))]])]
         else [])))]"

text \<open>\<open>_build_body\<close>: the body, or the result of a request that is refused locally.\<close>

definition build_body :: "delivery_request \<Rightarrow> delivery_result res + json" where
  "build_body req =
     (case dr_kind req of
        DK_TEXT \<Rightarrow> Inr (JObj (body_base req @ text_body req))
      | DK_IMAGE \<Rightarrow>
        if truthy (dr_text req) \<and> length (or_empty (dr_text req)) > 1024
        then Inl (local_failure req (lit ''META_IMAGE_CAPTION_TOO_LONG''))
        else Inr (JObj (body_base req @ image_body req))
      | DK_INTERACTIVE \<Rightarrow> Inr (JObj (body_base req @ interactive_body req))
      | DK_TEMPLATE \<Rightarrow> Inr (JObj (body_base req @ template_body req)))"

definition meta_error_code :: "(json \<Rightarrow> pystr) \<Rightarrow> int \<Rightarrow> json option \<Rightarrow> pystr" where
  "meta_error_code repr status body =
     (let default = lit ''META_HTTP_'' @ str_int status
      in case body of
           None \<Rightarrow> default
         | Some payload \<Rightarrow>
           (let meta_error = (if is_object payload then (case jget (lit ''error'') payload of
                                None \<Rightarrow> JObj [] | Some e \<Rightarrow> e) else JObj [])
            in case (if is_object meta_error then jget (lit ''code'') meta_error else None) of
                 None \<Rightarrow> default
               | Some JNull \<Rightarrow> default
               | Some code \<Rightarrow> lit ''META_'' @ py_str repr code))"

definition rejected_result :: "(json \<Rightarrow> pystr) \<Rightarrow> int \<Rightarrow> json option \<Rightarrow> pystr \<Rightarrow> delivery_result res" where
  "rejected_result repr status body tid = failure FAILED (meta_error_code repr status body)
     (lit ''Meta rechaz'' @ [243] @ lit '' el mensaje.'') [(lit ''http_status'', MInt status)] tid"

definition provider_id_of :: "json option \<Rightarrow> (pystr \<times> pystr) option" where
  "provider_id_of body =
     (case Option.bind body meta_send_response of
        Some (product, i # _) \<Rightarrow> if strip i = [] then None else Some (product, i)
      | _ \<Rightarrow> None)"

text \<open>
  \<open>send\<close>: the bodies posted to Meta (at most one) and the result. \<open>post\<close> is what the network does
  with the request.
\<close>

definition meta_send ::
  "(json \<Rightarrow> pystr) \<Rightarrow> (json \<Rightarrow> http_outcome) \<Rightarrow> delivery_request \<Rightarrow> json list \<times> delivery_result res" where
  "meta_send repr post req =
     (if dr_kind req \<noteq> DK_TEMPLATE \<and> dr_customer_service_window req \<noteq> WINDOW_OPEN
      then ([], window_failure req)
      else case build_body req of
        Inl refused \<Rightarrow> ([], refused)
      | Inr body \<Rightarrow> ([body],
        (case post body of
           Http_Timeout \<Rightarrow> failure UNKNOWN (lit ''META_TIMEOUT_UNCERTAIN'')
             (lit ''Meta no confirm'' @ [243] @ lit '' si acept'' @ [243]
              @ lit '' el mensaje antes del timeout.'') [] (dr_trace_id req)
         | Http_RequestError \<Rightarrow> failure UNKNOWN (lit ''META_NETWORK_UNCERTAIN'')
             (lit ''No se pudo confirmar el resultado del env'' @ [237] @ lit ''o con Meta.'') [] (dr_trace_id req)
         | Http_Response status answer \<Rightarrow>
           if is_error status then rejected_result repr status answer (dr_trace_id req)
           else (case provider_id_of answer of
             None \<Rightarrow> failure UNKNOWN (lit ''META_INVALID_SUCCESS_RESPONSE'')
               (lit ''Meta respondi'' @ [243] @ lit '' sin un identificador de mensaje v'' @ [225]
                @ lit ''lido.'') [] (dr_trace_id req)
           | Some (product, i) \<Rightarrow> construct valid_delivery_result
               \<lparr>rs_status = ACCEPTED, rs_provider_message_id = Some i, rs_error_code = None,
                rs_error_message = None, rs_trace_id = dr_trace_id req,
                rs_metadata = [(lit ''messaging_product'', MStr product)]\<rparr>))))"

section \<open>Lemmas\<close>

lemma failure_Inr:
  "status \<in> set error_statuses \<Longrightarrow> code \<noteq> [] \<Longrightarrow> length code \<le> 100 \<Longrightarrow> length msg \<le> 500
   \<Longrightarrow> len_between 1 128 tid \<Longrightarrow>
   failure status code msg metadata tid = Inr \<lparr>rs_status = status, rs_provider_message_id = None,
     rs_error_code = Some code, rs_error_message = Some msg, rs_trace_id = tid, rs_metadata = metadata\<rparr>"
  by (auto simp: failure_def construct_def valid_defs error_statuses_def provider_statuses_def)

lemma failure_result:
  assumes "failure status code msg metadata tid = Inr r"
  shows "rs_status r = status" "rs_provider_message_id r = None" "valid_delivery_result r" "rs_trace_id r = tid"
  using assms by (auto simp: failure_def)

text \<open>The result of a request that was answered, by what the answer means.\<close>

definition answered :: "int \<Rightarrow> json option \<Rightarrow> delivery_status" where
  "answered status answer = (if is_error status then FAILED
     else if provider_id_of answer = None then UNKNOWN else ACCEPTED)"

text \<open>
  C32. The adapter tells the truth. Whatever the network does, a result it returns is a valid adapter
  result with the trace of the request; it is \<open>ACCEPTED\<close> exactly when Meta answered without an error
  and with a message identifier, which the result carries; it is \<open>FAILED\<close> only when nothing was
  posted or Meta answered with an error; in every other case it is \<open>UNKNOWN\<close>; and at most one
  request was posted.
\<close>

theorem meta_send_truthful:
  assumes "meta_send repr post req = (posted, Inr r)"
  shows "adapter_result r \<and> rs_trace_id r = dr_trace_id req \<and> length posted \<le> 1
    \<and> (case posted of
         [] \<Rightarrow> rs_status r = FAILED
       | body # _ \<Rightarrow> build_body req = Inr body \<and>
         (case post body of
            Http_Response status answer \<Rightarrow> rs_status r = answered status answer
              \<and> rs_provider_message_id r = (if is_error status then None else map_option snd (provider_id_of answer))
          | _ \<Rightarrow> rs_status r = UNKNOWN))"
proof -
  have f: "adapter_result r' \<and> rs_status r' = st \<and> rs_trace_id r' = tid \<and> rs_provider_message_id r' = None"
    if "failure st code msg md tid = Inr r'" "st \<in> {FAILED, UNKNOWN}" for st code msg md tid r'
    using failure_result [OF that(1)] that(2) by (auto simp: adapter_result_def)
  have acc: "adapter_result r'" if "valid_delivery_result r'" "rs_status r' = ACCEPTED" for r'
    using that by (auto simp: adapter_result_def)
  show ?thesis
  proof (cases "dr_kind req \<noteq> DK_TEMPLATE \<and> dr_customer_service_window req \<noteq> WINDOW_OPEN")
    case True
    with assms show ?thesis
      by (auto simp: meta_send_def window_failure_def dest!: f split: if_splits)
  next
    case False
    show ?thesis
    proof (cases "build_body req")
      case (Inl refused)
      then have "refused = local_failure req (lit ''META_IMAGE_CAPTION_TOO_LONG'')"
        by (auto simp: build_body_def split: delivery_kind.splits if_splits)
      with assms False Inl show ?thesis
        by (auto simp: meta_send_def local_failure_def dest!: f)
    next
      case (Inr body)
      with assms False show ?thesis
        by (cases "post body")
          (auto simp: meta_send_def rejected_result_def answered_def dest!: f intro: acc
            split: if_splits option.splits)
    qed
  qed
qed

lemma meta_error_code_nonempty: "meta_error_code repr status body \<noteq> []"
  by (auto simp: meta_error_code_def Let_def split: option.splits json.splits)

lemma rejected_result_raises:
  assumes "len_between 1 128 tid"
  shows "rejected_result repr status answer tid = Inl e \<longleftrightarrow>
    e = ValidationError \<and> length (meta_error_code repr status answer) > 100"
  using assms meta_error_code_nonempty [of repr status answer]
  by (auto simp: rejected_result_def failure_def construct_def valid_defs error_statuses_def
      provider_statuses_def)

lemma provider_id_nonempty: "provider_id_of answer = Some (product, i) \<Longrightarrow> i \<noteq> []"
  by (auto simp: provider_id_of_def split: option.splits list.splits if_splits)

text \<open>
  When the adapter raises. For a valid request the adapter raises in two cases only, both
  after Meta answered: an error answer whose code makes the error code longer than 100 characters,
  and a success answer whose message identifier is longer than 255 characters; the exception is the
  \<open>ValidationError\<close> of \<open>DeliveryResult\<close>. In the second case Meta accepted the message.
\<close>

theorem meta_send_raises:
  assumes "valid_delivery_request req"
  shows "meta_send repr post req = (posted, Inl e) \<longleftrightarrow>
    e = ValidationError \<and> (\<exists>body status answer. fst (meta_send repr post req) = [body] \<and> posted = [body]
      \<and> post body = Http_Response status answer
      \<and> (if is_error status then length (meta_error_code repr status answer) > 100
         else \<exists>product i. provider_id_of answer = Some (product, i) \<and> length i > 255))"
proof -
  have tid: "len_between 1 128 (dr_trace_id req)" using assms by (simp add: valid_defs)
  have f: "\<exists>r. failure st code msg md (dr_trace_id req) = Inr r"
    if "st \<in> {FAILED, UNKNOWN}" "code \<noteq> []" "length code \<le> 100" "length msg \<le> 500" for st code msg md
    using failure_Inr [OF _ that(2-4) tid] that(1) by (auto simp: error_statuses_def)
  have local: "\<exists>r. window_failure req = Inr r" "\<exists>r. local_failure req (lit ''META_IMAGE_CAPTION_TOO_LONG'') = Inr r"
    unfolding window_failure_def local_failure_def by (auto intro!: f)
  show ?thesis
  proof (cases "(dr_kind req \<noteq> DK_TEMPLATE \<and> dr_customer_service_window req \<noteq> WINDOW_OPEN)
      \<or> (\<exists>x. build_body req = Inl x)")
    case True
    then have "\<exists>r. meta_send repr post req = ([], Inr r)"
      using local by (auto simp: meta_send_def build_body_def split: delivery_kind.splits if_splits)
    then show ?thesis by auto
  next
    case False
    then obtain body where body: "build_body req = Inr body" by (cases "build_body req") auto
    show ?thesis
    proof (cases "post body")
      case Http_Timeout
      then have "\<exists>r. meta_send repr post req = ([body], Inr r)"
        using False body by (auto simp: meta_send_def intro!: f)
      with Http_Timeout show ?thesis by auto
    next
      case Http_RequestError
      then have "\<exists>r. meta_send repr post req = ([body], Inr r)"
        using False body by (auto simp: meta_send_def intro!: f)
      with Http_RequestError show ?thesis by auto
    next
      case (Http_Response status answer)
      have inv: "\<exists>r. failure UNKNOWN (lit ''META_INVALID_SUCCESS_RESPONSE'')
         (lit ''Meta respondi'' @ [243] @ lit '' sin un identificador de mensaje v'' @ [225] @ lit ''lido.'') []
         (dr_trace_id req) = Inr r"
        by (auto intro!: f)
      show ?thesis
        using False body Http_Response rejected_result_raises [OF tid] inv provider_id_nonempty [of answer] tid
        by (cases "provider_id_of answer")
          (auto simp: meta_send_def construct_def valid_defs error_statuses_def provider_statuses_def
            split: if_splits)
    qed
  qed
qed

definition sample_post :: "nat \<Rightarrow> json \<Rightarrow> http_outcome" where
  "sample_post n body = Http_Response 200 (Some (JObj [(lit ''messaging_product'', JStr (lit ''whatsapp'')),
     (lit ''messages'', JArr [JObj [(lit ''id'', JStr (replicate n 65))]])]))"

definition sample_body :: json where
  "sample_body = JObj (body_base sample_request @ text_body sample_request)"

lemma sample_provider_id:
  "0 < n \<Longrightarrow> provider_id_of (Some (JObj [(lit ''messaging_product'', JStr (lit ''whatsapp'')),
     (lit ''messages'', JArr [JObj [(lit ''id'', JStr (replicate n 65))]])]))
    = Some (lit ''whatsapp'', replicate n 65)"
  by (simp add: provider_id_of_def meta_send_response_def strip_eq_Nil is_space_def)

lemma sample_meta_send:
  "fst (meta_send repr (sample_post n) sample_request) = [sample_body]"
  by (simp add: meta_send_def sample_request_def build_body_def sample_body_def)

theorem meta_send_truthful_witness:
  "\<exists>r. meta_send (\<lambda>j. []) (sample_post 10) sample_request = ([sample_body], Inr r)
    \<and> rs_status r = ACCEPTED \<and> rs_provider_message_id r = Some (replicate 10 65)"
proof -
  have "\<exists>r. snd (meta_send (\<lambda>j. []) (sample_post 10) sample_request) = Inr r"
    by (simp add: meta_send_def sample_request_def build_body_def sample_post_def is_error_def
        sample_provider_id construct_def valid_defs error_statuses_def provider_statuses_def)
  then obtain r where r: "meta_send (\<lambda>j. []) (sample_post 10) sample_request = ([sample_body], Inr r)"
    using sample_meta_send by (metis prod.collapse)
  from meta_send_truthful [OF r] r show ?thesis
    by (auto simp: sample_post_def answered_def is_error_def sample_provider_id)
qed

theorem meta_send_raises_witness:
  "meta_send (\<lambda>j. []) (sample_post 300) sample_request = ([sample_body], Inl ValidationError)"
proof -
  have "sample_post 300 sample_body = Http_Response 200 (Some (JObj [(lit ''messaging_product'', JStr (lit ''whatsapp'')),
     (lit ''messages'', JArr [JObj [(lit ''id'', JStr (replicate 300 65))]])]))"
    by (simp add: sample_post_def)
  with meta_send_raises [OF sample_request_ok(1), of "\<lambda>j. []" "sample_post 300" "[sample_body]" ValidationError]
  show ?thesis by (simp add: sample_meta_send is_error_def sample_provider_id)
qed

end
