(* ===== verification/Conversations.thy ===== *)
theory Conversations
  imports Database "HOL-Library.Product_Lexorder"
begin

text \<open>
  The conversation repository, \<open>src/src/piki/db/conversations.py\<close>. Its methods run inside a session
  of the caller: they take the current contents and return the changed ones. \<open>now\<close> is the database
  clock, \<open>clock\<close> the process clock; new UUIDs are arguments.
\<close>

section \<open>Data\<close>

datatype persist_status = PERSIST_CREATED | PERSIST_DUPLICATE

record persisted_inbound =
  pi_status :: persist_status
  pi_conversation_id :: uuid
  pi_message_id :: "uuid option"

definition valid_persisted_inbound :: "persisted_inbound \<Rightarrow> bool" where
  [valid_defs]: "valid_persisted_inbound p \<longleftrightarrow>
     \<not> ((pi_status p = PERSIST_CREATED) \<noteq> (pi_message_id p \<noteq> None))"

record stored_message =
  sm_id :: uuid
  sm_external_message_id :: "pystr option"
  sm_direction :: direction
  sm_kind :: message_kind
  sm_content_text :: "pystr option"
  sm_trace_id :: pystr
  sm_created_at :: micros

record persisted_outbound =
  po_message_id :: uuid
  po_created :: bool

section \<open>Operations\<close>

definition new_conversation :: "micros \<Rightarrow> uuid \<Rightarrow> pystr \<Rightarrow> inbound_message \<Rightarrow> conversation_row" where
  "new_conversation now cid account msg =
     \<lparr>cv_id = cid, cv_channel = im_channel msg, cv_channel_account_id = account,
      cv_external_conversation_id = im_conversation_id msg, cv_status = CW_PIKI_ACTIVE,
      cv_created_at = now, cv_updated_at = now\<rparr>"

definition upsert_conversation ::
  "micros \<Rightarrow> conversation_row \<Rightarrow> database \<Rightarrow> uuid res \<times> database" where
  "upsert_conversation now row d =
     (let same = (\<lambda>r. uq_conversation_channel_identity r = uq_conversation_channel_identity row)
      in if \<not> (varchar 255 (cv_channel_account_id row) \<and> varchar 255 (cv_external_conversation_id row))
         then (Inl DataError, d)
         else case find same (conversations d) of
           Some r \<Rightarrow> (Inr (cv_id r),
             d\<lparr>conversations := update_where same (\<lambda>r. r\<lparr>cv_updated_at := now\<rparr>) (conversations d)\<rparr>)
         | None \<Rightarrow>
           if conflicts (pk cv_id) (conversations d) row then (Inl IntegrityError, d)
           else (Inr (cv_id row), d\<lparr>conversations := conversations d @ [row]\<rparr>))"

definition message_columns_ok :: "message_row \<Rightarrow> bool" where
  "message_columns_ok r \<longleftrightarrow> opt_varchar 255 (ms_external_message_id r) \<and> opt_text (ms_content_text r)
     \<and> varchar 128 (ms_trace_id r)"

text \<open>
  \<open>INSERT ... ON CONFLICT ON CONSTRAINT uq_messages_external_message_id DO NOTHING RETURNING id\<close>.
\<close>

definition insert_message :: "message_row \<Rightarrow> database \<Rightarrow> uuid option res \<times> database" where
  "insert_message row d =
     (if \<not> message_columns_ok row then (Inl DataError, d)
      else if conflicts uq_messages_external_message_id (messages d) row then (Inr None, d)
      else if conflicts (pk ms_id) (messages d) row
           \<or> ms_conversation_id row \<notin> set (map cv_id (conversations d)) then (Inl IntegrityError, d)
      else (Inr (Some (ms_id row)), d\<lparr>messages := messages d @ [row]\<rparr>))"

definition inbound_row ::
  "micros \<Rightarrow> micros \<Rightarrow> uuid \<Rightarrow> uuid \<Rightarrow> inbound_message \<Rightarrow> pystr \<Rightarrow> bool \<Rightarrow> message_row" where
  "inbound_row now clock mid cid msg tid enqueue =
     \<lparr>ms_id = mid, ms_conversation_id = cid, ms_external_message_id = Some (im_message_id msg),
      ms_direction = INBOUND, ms_kind = im_kind msg, ms_content_text = im_text msg, ms_trace_id = tid,
      ms_processing_status = (if enqueue then Some PS_PENDING else None), ms_processing_attempts = 0,
      ms_processing_available_at = (if enqueue then Some clock else None),
      ms_processing_claimed_at = None, ms_processing_error_code = None, ms_created_at = now\<rparr>"

definition record_inbound ::
  "micros \<Rightarrow> micros \<Rightarrow> uuid \<Rightarrow> uuid \<Rightarrow> pystr \<Rightarrow> inbound_message \<Rightarrow> pystr \<Rightarrow> bool \<Rightarrow> database
    \<Rightarrow> persisted_inbound res \<times> database" where
  "record_inbound now clock cid mid account msg tid enqueue d =
     (case upsert_conversation now (new_conversation now cid account msg) d of
        (Inl e, d1) \<Rightarrow> (Inl e, d1)
      | (Inr conv, d1) \<Rightarrow>
        (case insert_message (inbound_row now clock mid conv msg tid enqueue) d1 of
           (Inl e, d2) \<Rightarrow> (Inl e, d2)
         | (Inr None, d2) \<Rightarrow>
           (construct valid_persisted_inbound
              \<lparr>pi_status = PERSIST_DUPLICATE, pi_conversation_id = conv, pi_message_id = None\<rparr>, d2)
         | (Inr (Some m), d2) \<Rightarrow>
           (construct valid_persisted_inbound
              \<lparr>pi_status = PERSIST_CREATED, pi_conversation_id = conv, pi_message_id = Some m\<rparr>, d2)))"

definition stored :: "message_row \<Rightarrow> stored_message" where
  "stored r = \<lparr>sm_id = ms_id r, sm_external_message_id = ms_external_message_id r,
     sm_direction = ms_direction r, sm_kind = ms_kind r, sm_content_text = ms_content_text r,
     sm_trace_id = ms_trace_id r, sm_created_at = ms_created_at r\<rparr>"

text \<open>\<open>ORDER BY created_at, id\<close>: microseconds, then the UUID as a number.\<close>

definition chronological :: "message_row list \<Rightarrow> message_row list" where
  "chronological rows = sort_key (\<lambda>r. (ms_created_at r, ms_id r)) rows"

definition recent_messages :: "uuid \<Rightarrow> int \<Rightarrow> database \<Rightarrow> stored_message list res" where
  "recent_messages cid limit d =
     (if limit < 1 \<or> limit > 100 then Inl ValueError
      else Inr (map stored (rev (take (nat limit)
        (rev (chronological (filter (\<lambda>r. ms_conversation_id r = cid) (messages d))))))))"

definition find_conversation_id ::
  "channel \<Rightarrow> pystr \<Rightarrow> pystr \<Rightarrow> database \<Rightarrow> uuid option" where
  "find_conversation_id ch account ext d =
     map_option cv_id (find (\<lambda>r. cv_channel r = ch \<and> cv_channel_account_id r = account
       \<and> cv_external_conversation_id r = ext) (conversations d))"

definition outbound_row ::
  "micros \<Rightarrow> uuid \<Rightarrow> uuid \<Rightarrow> pystr \<Rightarrow> pystr \<Rightarrow> pystr \<Rightarrow> message_row" where
  "outbound_row now mid cid text tid ext =
     \<lparr>ms_id = mid, ms_conversation_id = cid, ms_external_message_id = Some ext,
      ms_direction = OUTBOUND, ms_kind = MK_TEXT, ms_content_text = Some text, ms_trace_id = tid,
      ms_processing_status = None, ms_processing_attempts = 0, ms_processing_available_at = None,
      ms_processing_claimed_at = None, ms_processing_error_code = None, ms_created_at = now\<rparr>"

definition record_outbound ::
  "micros \<Rightarrow> uuid \<Rightarrow> uuid \<Rightarrow> pystr \<Rightarrow> pystr \<Rightarrow> pystr \<Rightarrow> database
    \<Rightarrow> persisted_outbound res \<times> database" where
  "record_outbound now mid cid text tid ext d =
     (case insert_message (outbound_row now mid cid text tid ext) d of
        (Inl e, d1) \<Rightarrow> (Inl e, d1)
      | (Inr (Some m), d1) \<Rightarrow> (Inr \<lparr>po_message_id = m, po_created = True\<rparr>, d1)
      | (Inr None, d1) \<Rightarrow>
        (rbind (one (map ms_id (filter (\<lambda>r. ms_external_message_id r = Some ext) (messages d1))))
           (\<lambda>i. Inr \<lparr>po_message_id = i, po_created = False\<rparr>), d1))"

definition find_message :: "pystr \<Rightarrow> database \<Rightarrow> stored_message option res" where
  "find_message ext d =
     rbind (one_or_none (filter (\<lambda>r. ms_external_message_id r = Some ext) (messages d)))
       (\<lambda>x. Inr (map_option stored x))"

section \<open>Constraints\<close>

lemma conversation_identity_eq:
  "uq_conversation_channel_identity r = uq_conversation_channel_identity r' \<longleftrightarrow>
   cv_channel r = cv_channel r' \<and> cv_channel_account_id r = cv_channel_account_id r'
   \<and> cv_external_conversation_id r = cv_external_conversation_id r'"
  by (auto simp: uq_defs)

lemma upsert_conversation_Inr:
  assumes "upsert_conversation now row d = (Inr cid, d')"
  obtains r where "r \<in> set (conversations d)" "cid = cv_id r"
      "uq_conversation_channel_identity r = uq_conversation_channel_identity row"
      "d' = d\<lparr>conversations := update_where
        (\<lambda>r. uq_conversation_channel_identity r = uq_conversation_channel_identity row)
        (\<lambda>r. r\<lparr>cv_updated_at := now\<rparr>) (conversations d)\<rparr>"
    | "\<not> conflicts uq_conversation_channel_identity (conversations d) row" "cid = cv_id row"
      "\<not> conflicts (pk cv_id) (conversations d) row"
      "d' = d\<lparr>conversations := conversations d @ [row]\<rparr>"
proof (cases "find (\<lambda>r. uq_conversation_channel_identity r = uq_conversation_channel_identity row) (conversations d)")
  case None
  then have "\<not> conflicts uq_conversation_channel_identity (conversations d) row"
    by (auto simp: conflicts_def find_None_iff)
  with None assms that(2) show thesis
    by (auto simp: upsert_conversation_def Let_def split: if_splits)
next
  case (Some r)
  with assms that(1) [of r] find_SomeD [OF Some] show thesis
    by (auto simp: upsert_conversation_def Let_def split: if_splits)
qed

lemma db_ok_touch_conversations:
  assumes "db_ok d" and "\<And>r. cv_id (f r) = cv_id r"
    "\<And>r. uq_conversation_channel_identity (f r) = uq_conversation_channel_identity r"
  shows "db_ok (d\<lparr>conversations := update_where q f (conversations d)\<rparr>)"
proof -
  have "unique_on (pk cv_id) (update_where q f (conversations d)) = unique_on (pk cv_id) (conversations d)"
    "unique_on uq_conversation_channel_identity (update_where q f (conversations d))
      = unique_on uq_conversation_channel_identity (conversations d)"
    by (intro unique_on_update_where; simp add: pk_def assms)+
  moreover have "cv_id ` set (update_where q f (conversations d)) = cv_id ` set (conversations d)"
    using assms(2) by (metis list.set_map map_update_where)
  ultimately show ?thesis
    using assms(1) by (simp add: db_ok_def db_unique_def db_foreign_keys_def)
qed

lemma upsert_conversation_db_ok:
  assumes "db_ok d" "upsert_conversation now row d = (Inr cid, d')"
  shows "db_ok d' \<and> cid \<in> set (map cv_id (conversations d'))"
  using assms(2)
proof (cases rule: upsert_conversation_Inr)
  case (1 r)
  have "db_ok d'" unfolding 1(4) by (rule db_ok_touch_conversations [OF assms(1)]) (simp_all add: uq_defs)
  moreover have "map cv_id (conversations d') = map cv_id (conversations d)" unfolding 1(4) by simp
  ultimately show ?thesis using 1(1,2) by simp
next
  case 2
  with assms(1) show ?thesis
    by (auto simp: db_ok_def db_unique_def db_foreign_keys_def unique_on_append1)
qed

lemma insert_message_Some:
  "insert_message row d = (Inr (Some m), d') \<longleftrightarrow>
   message_columns_ok row \<and> \<not> conflicts uq_messages_external_message_id (messages d) row
   \<and> \<not> conflicts (pk ms_id) (messages d) row \<and> ms_conversation_id row \<in> set (map cv_id (conversations d))
   \<and> m = ms_id row \<and> d' = d\<lparr>messages := messages d @ [row]\<rparr>"
  by (auto simp: insert_message_def)

lemma insert_message_None:
  "insert_message row d = (Inr None, d') \<longleftrightarrow>
   message_columns_ok row \<and> conflicts uq_messages_external_message_id (messages d) row \<and> d' = d"
  by (auto simp: insert_message_def)

lemma insert_message_db_ok:
  assumes "db_ok d" "insert_message row d = (Inr x, d')"
  shows "db_ok d'"
  using assms
  by (cases x) (auto simp: insert_message_Some insert_message_None db_ok_def db_unique_def
      db_foreign_keys_def unique_on_append1)

lemma record_inbound_Inr:
  assumes "record_inbound now clock cid mid account msg tid enqueue d = (Inr p, d')"
  obtains conv d1 x where "upsert_conversation now (new_conversation now cid account msg) d = (Inr conv, d1)"
    "insert_message (inbound_row now clock mid conv msg tid enqueue) d1 = (Inr x, d')"
    "p = \<lparr>pi_status = (if x = None then PERSIST_DUPLICATE else PERSIST_CREATED),
      pi_conversation_id = conv, pi_message_id = x\<rparr>"
  using assms
  by (auto simp: record_inbound_def split: prod.splits sum.splits option.splits)

lemma record_inbound_db_ok:
  assumes "db_ok d" "record_inbound now clock cid mid account msg tid enqueue d = (Inr p, d')"
  shows "db_ok d'"
  using assms(2)
  by (rule record_inbound_Inr) (metis assms(1) insert_message_db_ok upsert_conversation_db_ok)

section \<open>Properties\<close>

lemma upserted_found:
  assumes "db_ok d1" and up: "upsert_conversation now (new_conversation now cid account msg) d = (Inr conv, d1)"
  shows "find_conversation_id (im_channel msg) account (im_conversation_id msg) d1 = Some conv"
proof -
  have "\<exists>r \<in> set (conversations d1). cv_id r = conv \<and> uq_conversation_channel_identity r
      = uq_conversation_channel_identity (new_conversation now cid account msg)"
    using up
  proof (cases rule: upsert_conversation_Inr)
    case (1 r)
    let ?same = "\<lambda>r. uq_conversation_channel_identity r
      = uq_conversation_channel_identity (new_conversation now cid account msg)"
    from updated_in [OF 1(1), of ?same "\<lambda>r. r\<lparr>cv_updated_at := now\<rparr>"] 1(2-) show ?thesis
      by (intro bexI [of _ "r\<lparr>cv_updated_at := now\<rparr>"]) (simp_all add: uq_defs)
  next
    case 2
    then show ?thesis by simp
  qed
  then obtain r where r: "r \<in> set (conversations d1)" "cv_id r = conv"
    "uq_conversation_channel_identity r = Some (im_channel msg, account, im_conversation_id msg)"
    by (auto simp: uq_defs new_conversation_def)
  have "unique_on uq_conversation_channel_identity (conversations d1)"
    using assms(1) by (simp add: db_ok_def db_unique_def)
  from filter_unique_key [OF this r(1,3)] have
    "find (\<lambda>r. cv_channel r = im_channel msg \<and> cv_channel_account_id r = account
      \<and> cv_external_conversation_id r = im_conversation_id msg) (conversations d1) = Some r"
    by (simp add: find_filter uq_defs)
  then show ?thesis using r(2) by (simp add: find_conversation_id_def)
qed


lemma sorted_lex_fst:
  fixes f :: "'a \<Rightarrow> 'b::linorder" and g :: "'a \<Rightarrow> 'c::linorder"
  shows "sorted (map (\<lambda>r. (f r, g r)) xs) \<Longrightarrow> sorted (map f xs)"
  by (induction xs) auto

lemma chronological_props:
  "sorted (map (\<lambda>r. (ms_created_at r, ms_id r)) (chronological rows))"
  "set (chronological rows) = set rows" "length (chronological rows) = length rows"
  by (simp_all add: chronological_def)

text \<open>
  C29. The history is the most recent part of the conversation: \<open>recent_messages\<close> returns, in
  chronological order, the last \<open>limit\<close> messages of the conversation and no message of another
  one; what it leaves out is not newer than anything it returns.
\<close>

theorem recent_messages_spec:
  assumes "recent_messages cid limit d = Inr ms"
  shows "\<exists>older newer. chronological (filter (\<lambda>r. ms_conversation_id r = cid) (messages d)) = older @ newer
    \<and> ms = map stored newer
    \<and> length ms = min (nat limit) (length (filter (\<lambda>r. ms_conversation_id r = cid) (messages d)))
    \<and> sorted (map sm_created_at ms)
    \<and> (\<forall>x \<in> set older. \<forall>y \<in> set newer. ms_created_at x \<le> ms_created_at y)"
proof -
  let ?c = "chronological (filter (\<lambda>r. ms_conversation_id r = cid) (messages d))"
  let ?k = "length ?c - nat limit"
  have ms: "ms = map stored (List.drop ?k ?c)"
    using assms by (simp add: recent_messages_def take_rev split: if_splits)
  have s: "sorted (map ms_created_at (take ?k ?c) @ map ms_created_at (List.drop ?k ?c))"
    unfolding map_append [symmetric] append_take_drop_id
    by (rule sorted_lex_fst [OF chronological_props(1)])
  have "map sm_created_at ms = map ms_created_at (List.drop ?k ?c)" by (simp add: ms stored_def)
  with s have "sorted (map sm_created_at ms)" by (simp add: sorted_append)
  moreover from s have "\<forall>x \<in> set (take ?k ?c). \<forall>y \<in> set (List.drop ?k ?c). ms_created_at x \<le> ms_created_at y"
    unfolding sorted_append by simp
  moreover have "length ms = min (nat limit) (length (filter (\<lambda>r. ms_conversation_id r = cid) (messages d)))"
    by (simp add: ms chronological_props)
  ultimately show ?thesis using ms append_take_drop_id by metis
qed

definition sample_inbound :: inbound_message where
  "sample_inbound = \<lparr>im_message_id = lit ''wamid.1'', im_channel = WHATSAPP, im_conversation_id = lit ''54911'',
     im_sender_id = lit ''54911'', im_kind = MK_TEXT, im_text = Some (lit ''hola''),
     im_received_at = Aware 0, im_metadata = []\<rparr>"

lemma sample_record_inbound:
  "record_inbound 10 11 5 2 (lit ''pn1'') sample_inbound (lit ''meta:wamid.1'') True empty_db
    = (Inr \<lparr>pi_status = PERSIST_CREATED, pi_conversation_id = 5, pi_message_id = Some 2\<rparr>,
       empty_db\<lparr>conversations := [new_conversation 10 5 (lit ''pn1'') sample_inbound],
         messages := [inbound_row 10 11 2 5 sample_inbound (lit ''meta:wamid.1'') True]\<rparr>)"
  by (simp add: record_inbound_def upsert_conversation_def insert_message_def Let_def empty_db_def
      new_conversation_def inbound_row_def sample_inbound_def conflicts_def message_columns_ok_def
      opt_varchar_def opt_text_def varchar_def construct_def valid_defs) (simp add: lit_def)


theorem recent_messages_spec_witness:
  "\<exists>ms. recent_messages 5 6 (snd (record_inbound 10 11 5 2 (lit ''pn1'') sample_inbound
      (lit ''meta:wamid.1'') True empty_db)) = Inr ms \<and> length ms = 1"
proof -
  let ?d = "snd (record_inbound 10 11 5 2 (lit ''pn1'') sample_inbound (lit ''meta:wamid.1'') True empty_db)"
  have m: "messages ?d = [inbound_row 10 11 2 5 sample_inbound (lit ''meta:wamid.1'') True]"
    by (simp add: sample_record_inbound)
  obtain ms where ms: "recent_messages 5 6 ?d = Inr ms" by (simp add: recent_messages_def)
  from recent_messages_spec [OF ms] ms m show ?thesis by (auto simp: inbound_row_def)
qed

end
