(* ===== verification/Redis.thy ===== *)
theory Redis
  imports Contracts
begin

text \<open>
  The Redis server, which the state components only call: a record of its commands over a server
  state, the behaviour they are documented to have as a locale, and the server with an in-memory
  keyspace, expiry and connection faults as its instance. A command that raises \<open>RedisError\<close>
  returns \<open>None\<close>; it may or may not have been executed.
\<close>

record 's redis =
  rd_set :: "pystr \<Rightarrow> pystr \<Rightarrow> int \<Rightarrow> bool \<Rightarrow> 's \<Rightarrow> bool option \<times> 's"
  rd_get :: "pystr \<Rightarrow> 's \<Rightarrow> pystr option option \<times> 's"
  rd_getdel :: "pystr \<Rightarrow> 's \<Rightarrow> pystr option option \<times> 's"
  rd_delete :: "pystr \<Rightarrow> 's \<Rightarrow> int option \<times> 's"
  rd_eval :: "('s \<Rightarrow> int \<times> 's) \<Rightarrow> 's \<Rightarrow> int option \<times> 's"
  rd_call_get :: "pystr \<Rightarrow> 's \<Rightarrow> pystr option"
  rd_call_del :: "pystr \<Rightarrow> 's \<Rightarrow> int \<times> 's"

text \<open>
  \<open>view s k\<close> is the live value of key \<open>k\<close>. A command that raised left the view as it was or had its
  effect; a script runs as one command.
\<close>

locale redis_server =
  fixes ops :: "'s redis" and view :: "'s \<Rightarrow> pystr \<Rightarrow> pystr option"
  assumes set_replied: "rd_set ops k v ttl nx s = (Some b, s') \<Longrightarrow> 0 < ttl \<Longrightarrow>
      b = (\<not> nx \<or> view s k = None) \<and> view s' = (if b then (view s)(k := Some v) else view s)"
    and set_failed: "rd_set ops k v ttl nx s = (None, s') \<Longrightarrow> 0 < ttl \<Longrightarrow>
      view s' = view s \<or> ((\<not> nx \<or> view s k = None) \<and> view s' = (view s)(k := Some v))"
    and get_replied: "rd_get ops k s = (Some x, s') \<Longrightarrow> x = view s k \<and> view s' = view s"
    and get_failed: "rd_get ops k s = (None, s') \<Longrightarrow> view s' = view s"
    and getdel_replied: "rd_getdel ops k s = (Some x, s') \<Longrightarrow> x = view s k \<and> view s' = (view s)(k := None)"
    and getdel_failed: "rd_getdel ops k s = (None, s') \<Longrightarrow> view s' = view s \<or> view s' = (view s)(k := None)"
    and delete_replied: "rd_delete ops k s = (Some n, s') \<Longrightarrow> view s' = (view s)(k := None)"
    and delete_failed: "rd_delete ops k s = (None, s') \<Longrightarrow> view s' = view s \<or> view s' = (view s)(k := None)"
    and call_get: "rd_call_get ops k s = view s k"
    and call_del: "rd_call_del ops k s = (n, s') \<Longrightarrow>
      n = (if view s k = None then 0 else 1) \<and> view s' = (view s)(k := None)"
    and eval_replied: "rd_eval ops f s = (Some n, s') \<Longrightarrow> \<exists>s0. view s0 = view s \<and> f s0 = (n, s')"
    and eval_failed: "rd_eval ops f s = (None, s') \<Longrightarrow>
      \<exists>s0. view s0 = view s \<and> (s' = s0 \<or> s' = snd (f s0))"
begin

text \<open>Deleting is never undone and touches no other key, whatever is reported.\<close>

lemma delete_view:
  assumes "rd_delete ops k s = (r, s')"
  shows "view s' = view s \<or> view s' = (view s)(k := None)"
  using assms by (cases r) (auto dest: delete_replied delete_failed)

lemma getdel_view:
  assumes "rd_getdel ops k s = (r, s')"
  shows "view s' = view s \<or> view s' = (view s)(k := None)"
  using assms by (cases r) (auto dest: getdel_replied getdel_failed)

end

section \<open>The server with an in-memory keyspace\<close>

text \<open>
  A connection fault loses the request, which is then not executed, or the reply, after it was; a
  key is live until its expiry.
\<close>

datatype fault = LostRequest | LostReply

record keyspace =
  ks_data :: "pystr \<rightharpoonup> pystr \<times> micros"
  ks_now :: micros
  ks_faults :: "fault option list"

definition ks_view :: "keyspace \<Rightarrow> pystr \<Rightarrow> pystr option" where
  "ks_view s k = (case ks_data s k of Some (v, until) \<Rightarrow> if ks_now s < until then Some v else None | None \<Rightarrow> None)"

definition ks_put :: "pystr \<Rightarrow> pystr \<Rightarrow> int \<Rightarrow> keyspace \<Rightarrow> keyspace" where
  "ks_put k v ttl s = s\<lparr>ks_data := (ks_data s)(k \<mapsto> (v, ks_now s + ttl * 1000000))\<rparr>"

definition ks_drop :: "pystr \<Rightarrow> keyspace \<Rightarrow> keyspace" where
  "ks_drop k s = s\<lparr>ks_data := (ks_data s)(k := None)\<rparr>"

definition ks_command :: "(keyspace \<Rightarrow> 'a \<times> keyspace) \<Rightarrow> keyspace \<Rightarrow> 'a option \<times> keyspace" where
  "ks_command f s =
     (let s0 = s\<lparr>ks_faults := tl (ks_faults s)\<rparr>
      in case (case ks_faults s of [] \<Rightarrow> None | x # _ \<Rightarrow> x) of
           None \<Rightarrow> (let (a, s') = f s0 in (Some a, s'))
         | Some LostRequest \<Rightarrow> (None, s0)
         | Some LostReply \<Rightarrow> (None, snd (f s0)))"

definition ks_set :: "pystr \<Rightarrow> pystr \<Rightarrow> int \<Rightarrow> bool \<Rightarrow> keyspace \<Rightarrow> bool \<times> keyspace" where
  "ks_set k v ttl nx s = (if nx \<and> ks_view s k \<noteq> None then (False, s) else (True, ks_put k v ttl s))"

definition ks_del :: "pystr \<Rightarrow> keyspace \<Rightarrow> int \<times> keyspace" where
  "ks_del k s = (if ks_view s k = None then 0 else 1, ks_drop k s)"

definition memory_redis :: "keyspace redis" where
  "memory_redis = \<lparr>rd_set = \<lambda>k v ttl nx. ks_command (ks_set k v ttl nx),
     rd_get = \<lambda>k. ks_command (\<lambda>s. (ks_view s k, s)),
     rd_getdel = \<lambda>k. ks_command (\<lambda>s. (ks_view s k, ks_drop k s)),
     rd_delete = \<lambda>k. ks_command (ks_del k), rd_eval = ks_command,
     rd_call_get = (\<lambda>k s. ks_view s k), rd_call_del = ks_del\<rparr>"

lemma ks_view_put [simp]: "0 < ttl \<Longrightarrow> ks_view (ks_put k v ttl s) = (ks_view s)(k := Some v)"
  by (rule ext) (simp add: ks_view_def ks_put_def split: option.splits)

lemma ks_view_drop [simp]: "ks_view (ks_drop k s) = (ks_view s)(k := None)"
  by (rule ext) (simp add: ks_view_def ks_drop_def split: option.splits)

lemma ks_view_faults [simp]: "ks_view (s\<lparr>ks_faults := fs\<rparr>) = ks_view s"
  by (rule ext) (simp add: ks_view_def split: option.splits)

lemma ks_command_Some:
  "ks_command f s = (Some a, s') \<Longrightarrow> f (s\<lparr>ks_faults := tl (ks_faults s)\<rparr>) = (a, s')"
  by (auto simp: ks_command_def Let_def split: option.splits fault.splits prod.splits list.splits)

lemma ks_command_None:
  "ks_command f s = (None, s') \<Longrightarrow>
   s' = s\<lparr>ks_faults := tl (ks_faults s)\<rparr> \<or> s' = snd (f (s\<lparr>ks_faults := tl (ks_faults s)\<rparr>))"
  by (auto simp: ks_command_def Let_def split: option.splits fault.splits prod.splits list.splits)

interpretation mem: redis_server memory_redis ks_view
proof unfold_locales
  fix f :: "keyspace \<Rightarrow> int \<times> keyspace" and s s' n
  assume "rd_eval memory_redis f s = (Some n, s')"
  then show "\<exists>s0. ks_view s0 = ks_view s \<and> f s0 = (n, s')"
    by (auto simp: memory_redis_def dest!: ks_command_Some
        intro!: exI [of _ "s\<lparr>ks_faults := tl (ks_faults s)\<rparr>"])
next
  fix f :: "keyspace \<Rightarrow> int \<times> keyspace" and s s'
  assume "rd_eval memory_redis f s = (None, s')"
  then show "\<exists>s0. ks_view s0 = ks_view s \<and> (s' = s0 \<or> s' = snd (f s0))"
    by (auto simp: memory_redis_def dest!: ks_command_None
        intro!: exI [of _ "s\<lparr>ks_faults := tl (ks_faults s)\<rparr>"])
qed (auto simp: memory_redis_def ks_set_def ks_del_def dest!: ks_command_Some ks_command_None
    split: if_splits)

definition fresh_keyspace :: "fault option list \<Rightarrow> keyspace" where
  "fresh_keyspace faults = \<lparr>ks_data = Map.empty, ks_now = 0, ks_faults = faults\<rparr>"

end
