(* ===== verification/Coordination.thy ===== *)
theory Coordination
  imports Redis Interfaces
begin

text \<open>
  Coordination through Redis, \<open>src/src/piki/state/coordination.py\<close>: the conversation lock and the
  message deduplicator, with the conversation scope and its digest from
  \<open>src/src/piki/state/active_pick.py\<close>. \<open>sha\<close> is \<open>hashlib.sha256(s.encode()).hexdigest()\<close>; the
  token of \<open>secrets.token_urlsafe(32)\<close> is an argument.
\<close>

section \<open>Conversation scopes\<close>

record conversation_scope =
  sc_channel :: channel
  sc_channel_account_id :: pystr
  sc_conversation_id :: pystr

definition valid_conversation_scope :: "conversation_scope \<Rightarrow> bool" where
  [valid_defs]: "valid_conversation_scope c \<longleftrightarrow>
     len_between 1 255 (sc_channel_account_id c) \<and> len_between 1 255 (sc_conversation_id c)"

definition scope_identity :: "conversation_scope \<Rightarrow> pystr" where
  "scope_identity c = join [31] [channel_value (sc_channel c), sc_channel_account_id c, sc_conversation_id c]"

definition conversation_scope_digest :: "(pystr \<Rightarrow> pystr) \<Rightarrow> conversation_scope \<Rightarrow> pystr" where
  "conversation_scope_digest sha c = sha (scope_identity c)"

definition key_prefix :: pystr where
  "key_prefix = lit ''piki:v1:conversation''"

lemma scope_identity_inj:
  assumes "31 \<notin> set (sc_channel_account_id a)" and "31 \<notin> set (sc_channel_account_id b)"
    and "scope_identity a = scope_identity b"
  shows "a = b"
proof -
  have sep: "x = x' \<and> y = y'" if "x @ 31 # y = x' @ 31 # y'" "31 \<notin> set x" "31 \<notin> set x'" for x x' y y' :: pystr
  proof -
    have tw: "takeWhile (\<lambda>c. c \<noteq> 31) (z @ 31 # w) = z" if "31 \<notin> set z" for z w :: pystr
      using that by (induction z) auto
    from tw [OF that(2), of y] tw [OF that(3), of y'] that(1) show ?thesis by auto
  qed
  have no_sep: "31 \<notin> set (channel_value ch)" for ch by (cases ch) (simp_all add: lit_def)
  from sep [OF _ no_sep no_sep] assms(3) have ch: "channel_value (sc_channel a) = channel_value (sc_channel b)"
    and rest: "sc_channel_account_id a @ 31 # sc_conversation_id a
      = sc_channel_account_id b @ 31 # sc_conversation_id b"
    by (auto simp: scope_identity_def)
  from sep [OF rest assms(1,2)] have
    "sc_channel_account_id a = sc_channel_account_id b" "sc_conversation_id a = sc_conversation_id b"
    by simp_all
  moreover from ch have "sc_channel a = sc_channel b"
    by (cases "sc_channel a"; cases "sc_channel b") simp_all
  ultimately show ?thesis by simp
qed

section \<open>The conversation lock\<close>

datatype lock_status = LOCK_ACQUIRED | LOCK_BUSY | LOCK_UNAVAILABLE

record lock_lease =
  ll_status :: lock_status
  ll_owner_token :: "pystr option"

definition valid_lock_lease :: "lock_lease \<Rightarrow> bool" where
  [valid_defs]: "valid_lock_lease l \<longleftrightarrow> opt_len 32 128 (ll_owner_token l)
     \<and> \<not> ((ll_status l = LOCK_ACQUIRED) \<noteq> (ll_owner_token l \<noteq> None))"

datatype lock_release_status = RELEASED | NOT_OWNER | RELEASE_UNAVAILABLE

definition positive_ttl :: "int \<Rightarrow> int res" where
  "positive_ttl ttl = (if ttl < 1 then Inl ValueError else Inr ttl)"

definition new_message_deduplicator :: "int \<Rightarrow> int res" where
  "new_message_deduplicator ttl_seconds = (if ttl_seconds < 1 then Inl ValueError else Inr ttl_seconds)"

definition lock_key_for :: "(pystr \<Rightarrow> pystr) \<Rightarrow> conversation_scope \<Rightarrow> pystr" where
  "lock_key_for sha c = key_prefix @ lit '':'' @ conversation_scope_digest sha c @ lit '':lock''"

definition release_lock_script :: "'s redis \<Rightarrow> pystr \<Rightarrow> pystr \<Rightarrow> 's \<Rightarrow> int \<times> 's" where
  "release_lock_script ops key token s =
     (if rd_call_get ops key s = Some token then rd_call_del ops key s else (0, s))"

definition acquire ::
  "'s redis \<Rightarrow> (pystr \<Rightarrow> pystr) \<Rightarrow> int \<Rightarrow> pystr \<Rightarrow> conversation_scope \<Rightarrow> 's \<Rightarrow> lock_lease res \<times> 's" where
  "acquire ops sha ttl token c s =
     (case rd_set ops (lock_key_for sha c) token ttl True s of
        (None, s1) \<Rightarrow> (construct valid_lock_lease \<lparr>ll_status = LOCK_UNAVAILABLE, ll_owner_token = None\<rparr>, s1)
      | (Some acquired, s1) \<Rightarrow>
        if \<not> acquired
        then (construct valid_lock_lease \<lparr>ll_status = LOCK_BUSY, ll_owner_token = None\<rparr>, s1)
        else (construct valid_lock_lease \<lparr>ll_status = LOCK_ACQUIRED, ll_owner_token = Some token\<rparr>, s1))"

definition release ::
  "'s redis \<Rightarrow> (pystr \<Rightarrow> pystr) \<Rightarrow> conversation_scope \<Rightarrow> pystr \<Rightarrow> 's \<Rightarrow> lock_release_status \<times> 's" where
  "release ops sha c token s =
     (case rd_eval ops (release_lock_script ops (lock_key_for sha c) token) s of
        (None, s1) \<Rightarrow> (RELEASE_UNAVAILABLE, s1)
      | (Some released, s1) \<Rightarrow> (if released = 1 then RELEASED else NOT_OWNER, s1))"

section \<open>Message deduplication\<close>

datatype dedup_status = DEDUP_CLAIMED | DEDUP_DUPLICATE | DEDUP_UNAVAILABLE

definition dedup_key_for :: "(pystr \<Rightarrow> pystr) \<Rightarrow> pystr \<Rightarrow> pystr \<Rightarrow> pystr" where
  "dedup_key_for sha channel_account_id message_id =
     lit ''piki:v1:inbound-message:'' @ sha (join [31] [channel_account_id, message_id])"

definition dedup_claim ::
  "'s redis \<Rightarrow> (pystr \<Rightarrow> pystr) \<Rightarrow> int \<Rightarrow> pystr \<Rightarrow> pystr \<Rightarrow> 's \<Rightarrow> dedup_status res \<times> 's" where
  "dedup_claim ops sha ttl channel_account_id message_id s =
     (if strip channel_account_id = [] \<or> strip message_id = [] then (Inl ValueError, s)
      else case rd_set ops (dedup_key_for sha channel_account_id message_id) (lit ''1'') ttl True s of
        (None, s1) \<Rightarrow> (Inr DEDUP_UNAVAILABLE, s1)
      | (Some claimed, s1) \<Rightarrow> (Inr (if claimed then DEDUP_CLAIMED else DEDUP_DUPLICATE), s1))"

section \<open>Redis provides a lease lock and an idempotent store\<close>

definition acquire_granted ::
  "'s redis \<Rightarrow> (pystr \<Rightarrow> pystr) \<Rightarrow> int \<Rightarrow> conversation_scope \<Rightarrow> pystr \<Rightarrow> 's \<Rightarrow> bool \<times> 's" where
  "acquire_granted ops sha ttl c token s =
     (case acquire ops sha ttl token c s of
        (Inr l, s') \<Rightarrow> (ll_status l = LOCK_ACQUIRED, s') | (Inl e, s') \<Rightarrow> (False, s'))"

definition release_done ::
  "'s redis \<Rightarrow> (pystr \<Rightarrow> pystr) \<Rightarrow> conversation_scope \<Rightarrow> pystr \<Rightarrow> 's \<Rightarrow> bool \<times> 's" where
  "release_done ops sha c token s =
     (case release ops sha c token s of (r, s') \<Rightarrow> (r = RELEASED, s'))"

definition dedup_outcome ::
  "'s redis \<Rightarrow> (pystr \<Rightarrow> pystr) \<Rightarrow> int \<Rightarrow> pystr \<times> pystr \<Rightarrow> 's \<Rightarrow> bool option \<times> 's" where
  "dedup_outcome ops sha ttl m s =
     (case dedup_claim ops sha ttl (fst m) (snd m) s of
        (Inl e, s') \<Rightarrow> (None, s') | (Inr r, s') \<Rightarrow> (Some (r = DEDUP_CLAIMED), s'))"

definition dedup_key :: "(pystr \<Rightarrow> pystr) \<Rightarrow> pystr \<times> pystr \<Rightarrow> pystr" where
  "dedup_key sha m = dedup_key_for sha (fst m) (snd m)"

definition live_keys :: "('s \<Rightarrow> pystr \<Rightarrow> pystr option) \<Rightarrow> 's \<Rightarrow> pystr set" where
  "live_keys view s = {k. view s k \<noteq> None}"

text \<open>Other commands, while no key expires or is deleted.\<close>

definition keeps_keys :: "('s \<Rightarrow> pystr \<Rightarrow> pystr option) \<Rightarrow> 's \<Rightarrow> 's \<Rightarrow> bool" where
  "keeps_keys view s s' \<longleftrightarrow> live_keys view s \<subseteq> live_keys view s'"

locale redis_coordination = redis_server ops view
  for ops :: "'s redis" and view +
  fixes sha :: "pystr \<Rightarrow> pystr" and ttl :: int and scope :: conversation_scope
  assumes ttl: "0 < ttl"
begin

lemma release_view:
  assumes "release ops sha c token s = (r, s')"
  shows "view s' = view s \<or> (view s (lock_key_for sha c) = Some token
    \<and> view s' = (view s)(lock_key_for sha c := None))"
proof -
  let ?f = "release_lock_script ops (lock_key_for sha c) token"
  have script: "view (snd (?f s0)) = view s0 \<or> (view s0 (lock_key_for sha c) = Some token
      \<and> view (snd (?f s0)) = (view s0)(lock_key_for sha c := None))" for s0
    by (cases "rd_call_del ops (lock_key_for sha c) s0")
      (auto simp: release_lock_script_def call_get dest: call_del)
  from assms obtain x where "rd_eval ops ?f s = (x, s')"
    by (auto simp: release_def split: prod.splits option.splits)
  then obtain s0 where "view s0 = view s" "s' = s0 \<or> s' = snd (?f s0)"
    by (cases x) (metis eval_failed, metis eval_replied snd_conv)
  with script [of s0] show ?thesis by auto
qed

end

sublocale redis_coordination \<subseteq> lock: lease_lock
  "acquire_granted ops sha ttl scope" "release_done ops sha scope" "\<lambda>s. view s (lock_key_for sha scope)"
proof unfold_locales
  show "view s (lock_key_for sha scope) = None \<and> view s' (lock_key_for sha scope) = Some t"
    if "acquire_granted ops sha ttl scope t s = (True, s')" for t s s'
    using that ttl set_replied
    by (auto simp: acquire_granted_def acquire_def split: prod.splits option.splits sum.splits if_splits)
      (metis fun_upd_same set_replied ttl)+
  show "view s' (lock_key_for sha scope) = view s (lock_key_for sha scope)
      \<or> (view s (lock_key_for sha scope) = None \<and> view s' (lock_key_for sha scope) = Some t)"
    if a: "acquire_granted ops sha ttl scope t s = (False, s')" for t s s'
  proof -
    from a obtain x where "rd_set ops (lock_key_for sha scope) t ttl True s = (x, s')"
      by (auto simp: acquire_granted_def acquire_def split: prod.splits option.splits sum.splits if_splits)
    then show ?thesis using set_replied set_failed ttl by (cases x) (metis fun_upd_same)+
  qed
  show "view s' (lock_key_for sha scope) = view s (lock_key_for sha scope)
      \<or> (view s (lock_key_for sha scope) = Some t \<and> view s' (lock_key_for sha scope) = None)"
    if "release_done ops sha scope t s = (b, s')" for t s b s'
    using that by (auto simp: release_done_def split: prod.splits dest!: release_view)
qed

sublocale redis_coordination \<subseteq> dedup: idempotent_store
  "dedup_outcome ops sha ttl" "dedup_key sha" "live_keys view" "keeps_keys view"
proof unfold_locales
  fix m s s' assume "dedup_outcome ops sha ttl m s = (Some True, s')"
  then have "rd_set ops (dedup_key sha m) (lit ''1'') ttl True s = (Some True, s')"
    by (auto simp: dedup_outcome_def dedup_claim_def dedup_key_def
        split: prod.splits option.splits sum.splits if_splits)
  from set_replied [OF this ttl]
  show "dedup_key sha m \<notin> live_keys view s
      \<and> insert (dedup_key sha m) (live_keys view s) \<subseteq> live_keys view s'"
    by (auto simp: live_keys_def)
next
  fix m b s s' assume "dedup_outcome ops sha ttl m s = (b, s')"
  then have "s' = s \<or> (\<exists>x. rd_set ops (dedup_key sha m) (lit ''1'') ttl True s = (x, s'))"
    by (auto simp: dedup_outcome_def dedup_claim_def dedup_key_def
        split: prod.splits option.splits sum.splits if_splits)
  then show "live_keys view s \<subseteq> live_keys view s'"
  proof
    assume "\<exists>x. rd_set ops (dedup_key sha m) (lit ''1'') ttl True s = (x, s')"
    then obtain x where x: "rd_set ops (dedup_key sha m) (lit ''1'') ttl True s = (x, s')" by blast
    then have "view s' = view s \<or> view s' = (view s)(dedup_key sha m := Some (lit ''1''))"
      by (cases x) (use set_failed ttl in blast, metis set_replied ttl)
    then show ?thesis by (auto simp: live_keys_def)
  qed simp
qed (simp add: keeps_keys_def)

context redis_coordination
begin

lemma one_holder:
  "(lease_step (acquire_granted ops sha ttl scope) (release_done ops sha scope)
      (\<lambda>s. view s (lock_key_for sha scope)))\<^sup>*\<^sup>* (s0, Map.empty) (s, H) \<Longrightarrow>
   (\<forall>a t. H a = Some t \<longrightarrow> view s (lock_key_for sha scope) = Some t)
   \<and> (\<forall>a b. a \<in> dom H \<longrightarrow> b \<in> dom H \<longrightarrow> a = b)"
  using lock.exclusive_run by (fastforce simp: lock.exclusive_def)

lemmas claimed_once = dedup.run_claimed

end

interpretation local_redis: redis_coordination memory_redis ks_view sha "30" scope
  for sha :: "pystr \<Rightarrow> pystr" and scope
  by unfold_locales simp

section \<open>Properties\<close>

text \<open>
  C8. Mutual exclusion. However clients acquire and release the lock of a conversation, with
  leases that expire, late releases of expired leases and lost requests or replies, at most one
  client holds it at any time, and the server's value is that client's token.
\<close>

theorem lock_mutual_exclusion:
  assumes "redis_server ops view" and "0 < ttl"
    and "(lease_step (acquire_granted ops sha ttl c) (release_done ops sha c)
      (\<lambda>s. view s (lock_key_for sha c)))\<^sup>*\<^sup>* (s0, Map.empty) (s, H)"
  shows "(\<forall>a t. H a = Some t \<longrightarrow> view s (lock_key_for sha c) = Some t)
    \<and> (\<forall>a b. a \<in> dom H \<longrightarrow> b \<in> dom H \<longrightarrow> a = b)"
proof -
  have "redis_coordination ops view ttl"
    using assms(1,2) by (simp add: redis_coordination_def redis_coordination_axioms_def)
  from redis_coordination.one_holder [OF this assms(3)] show ?thesis .
qed

definition sample_scope :: conversation_scope where
  "sample_scope = \<lparr>sc_channel = WHATSAPP, sc_channel_account_id = lit ''pn1'',
     sc_conversation_id = lit ''54911''\<rparr>"

definition sample_token :: pystr where
  "sample_token = replicate 43 65"

lemma sample_acquire:
  "acquire_granted memory_redis id 30 sample_scope sample_token (fresh_keyspace [])
    = (True, ks_put (lock_key_for id sample_scope) sample_token 30 (fresh_keyspace []))"
  by (simp add: acquire_granted_def acquire_def memory_redis_def ks_command_def ks_set_def
      fresh_keyspace_def ks_view_def construct_def valid_defs sample_token_def)

theorem lock_mutual_exclusion_witness:
  "\<exists>s H. (lease_step (acquire_granted memory_redis id 30 sample_scope) (release_done memory_redis id sample_scope)
      (\<lambda>s. ks_view s (lock_key_for id sample_scope)))\<^sup>*\<^sup>* (fresh_keyspace [], Map.empty) (s, H)
    \<and> H 1 = Some sample_token \<and> ks_view s (lock_key_for id sample_scope) = Some sample_token"
proof -
  let ?s = "ks_put (lock_key_for id sample_scope) sample_token 30 (fresh_keyspace [])"
  have "(lease_step (acquire_granted memory_redis id 30 sample_scope) (release_done memory_redis id sample_scope)
      (\<lambda>s. ks_view s (lock_key_for id sample_scope)))\<^sup>*\<^sup>* (fresh_keyspace [], Map.empty) (?s, [1 \<mapsto> sample_token])"
    using lease_step.acquire [of "acquire_granted memory_redis id 30 sample_scope" sample_token
        "fresh_keyspace []" True ?s Map.empty 1] sample_acquire by auto
  with lock_mutual_exclusion [OF mem.redis_server_axioms _ this] show ?thesis
    by (intro exI [of _ ?s] exI [of _ "[1 \<mapsto> sample_token]"]) simp
qed

text \<open>
  A message is claimed at most once. While no key expires, however claims of messages
  interleave, with lost requests and replies, no message identity is reported as claimed twice, and
  none that was live at the start.
\<close>

theorem dedup_claimed_once:
  assumes "redis_server ops view" and "0 < ttl"
    and "claims_run (dedup_outcome ops sha ttl) (dedup_key sha) (keeps_keys view) s ks t"
  shows "distinct ks \<and> set ks \<inter> live_keys view s = {}"
proof -
  have "redis_coordination ops view ttl"
    using assms(1,2) by (simp add: redis_coordination_def redis_coordination_axioms_def)
  from redis_coordination.claimed_once [OF this assms(3)] show ?thesis by simp
qed

lemma sample_dedup:
  "dedup_outcome memory_redis id 60 (lit ''pn1'', lit ''wamid.1'') (fresh_keyspace [])
    = (Some True, ks_put (dedup_key id (lit ''pn1'', lit ''wamid.1'')) (lit ''1'') 60 (fresh_keyspace []))"
  by (simp add: dedup_outcome_def dedup_claim_def memory_redis_def ks_command_def ks_set_def
      fresh_keyspace_def ks_view_def strip_eq_Nil dedup_key_def)
    (simp add: lit_def is_space_def)

theorem dedup_claimed_once_witness:
  "\<exists>t. claims_run (dedup_outcome memory_redis id 60) (dedup_key id) (keeps_keys ks_view)
      (fresh_keyspace []) [dedup_key id (lit ''pn1'', lit ''wamid.1'')] t
    \<and> set [dedup_key id (lit ''pn1'', lit ''wamid.1'')] \<inter> live_keys ks_view (fresh_keyspace []) = {}"
proof -
  have "claims_run (dedup_outcome memory_redis id 60) (dedup_key id) (keeps_keys ks_view)
      (fresh_keyspace []) [dedup_key id (lit ''pn1'', lit ''wamid.1'')]
      (ks_put (dedup_key id (lit ''pn1'', lit ''wamid.1'')) (lit ''1'') 60 (fresh_keyspace []))"
    by (rule claims_run.granted [where ?claim_op = "dedup_outcome memory_redis id 60"
          and ?a = "(lit ''pn1'', lit ''wamid.1'')", OF claims_run.start sample_dedup])
  with dedup_claimed_once [OF mem.redis_server_axioms _ this] show ?thesis by auto
qed

end
