(* ===== verification/Meta_Ingress.thy ===== *)
theory Meta_Ingress
  imports Delivery_Order Conversations Coordination
begin

text \<open>
  Ingestion of normalized webhook events, \<open>src/src/piki/integrations/meta/ingress.py\<close>: all messages in
  one transaction, then the deduplication keys, then the status callbacks one by one. \<open>st n\<close> supplies
  the clock readings and UUIDs of the \<open>n\<close>-th message, \<open>cs n\<close> those of the \<open>n\<close>-th callback.
\<close>

section \<open>Definitions\<close>

record webhook_ingest_result =
  wi_accepted_messages :: int
  wi_duplicate_messages :: int
  wi_accepted_statuses :: int
  wi_duplicate_statuses :: int
  wi_ignored_statuses :: int

definition valid_webhook_ingest_result :: "webhook_ingest_result \<Rightarrow> bool" where
  [valid_defs]: "valid_webhook_ingest_result r \<longleftrightarrow> 0 \<le> wi_accepted_messages r \<and> 0 \<le> wi_duplicate_messages r
     \<and> 0 \<le> wi_accepted_statuses r \<and> 0 \<le> wi_duplicate_statuses r \<and> 0 \<le> wi_ignored_statuses r"

type_synonym stamp = "micros \<times> micros \<times> uuid \<times> uuid"

fun ingest_messages ::
  "(nat \<Rightarrow> stamp) \<Rightarrow> nat \<Rightarrow> inbound_message list \<Rightarrow> database
    \<Rightarrow> (persist_status list \<times> (pystr \<times> pystr) list) res \<times> database" where
  "ingest_messages st n [] d = (Inr ([], []), d)"
| "ingest_messages st n (m # ms) d =
     (let phone_number_id = or_empty (map_of (im_metadata m) (lit ''phone_number_id''))
      in if phone_number_id = [] then (Inl MetaIngressRetryableError, d)
         else case st n of (now, clock, cid, mid) \<Rightarrow>
           (case record_inbound now clock cid mid phone_number_id m (lit ''meta:'' @ im_message_id m) True d of
              (Inl e, d1) \<Rightarrow> (Inl e, d1)
            | (Inr persisted, d1) \<Rightarrow>
              (case ingest_messages st (Suc n) ms d1 of
                 (Inl e, d2) \<Rightarrow> (Inl e, d2)
               | (Inr (statuses, durable), d2) \<Rightarrow>
                 (Inr (pi_status persisted # statuses, (phone_number_id, im_message_id m) # durable), d2))))"

fun claim_durable ::
  "'s redis \<Rightarrow> (pystr \<Rightarrow> pystr) \<Rightarrow> int \<Rightarrow> (pystr \<times> pystr) list \<Rightarrow> 's \<Rightarrow> unit res \<times> 's" where
  "claim_durable ops sha ttl [] s = (Inr (), s)"
| "claim_durable ops sha ttl ((phone_number_id, message_id) # xs) s =
     (case dedup_claim ops sha ttl phone_number_id message_id s of
        (Inl e, s1) \<Rightarrow> (Inl e, s1) | (Inr _, s1) \<Rightarrow> claim_durable ops sha ttl xs s1)"

fun ingest_callbacks ::
  "(nat \<Rightarrow> int) \<Rightarrow> (nat \<Rightarrow> micros \<times> uuid) \<Rightarrow> nat \<Rightarrow> status_update list \<Rightarrow> database \<times> event_log
    \<Rightarrow> callback_apply_status list res \<times> database \<times> event_log" where
  "ingest_callbacks el cs n [] s = (Inr [], s)"
| "ingest_callbacks el cs n (cb # cbs) s =
     (case apply_callback el (fst (cs n)) (snd (cs n)) cb s of
        (Inl e, s1) \<Rightarrow> (Inl e, s1)
      | (Inr result, s1) \<Rightarrow>
        if result = MISSING_ATTEMPT then (Inl MetaIngressRetryableError, s1)
        else case ingest_callbacks el cs (Suc n) cbs s1 of
          (Inl e, s2) \<Rightarrow> (Inl e, s2) | (Inr results, s2) \<Rightarrow> (Inr (result # results), s2))"

definition count :: "'a \<Rightarrow> 'a list \<Rightarrow> int" where
  "count x xs = int (length (filter ((=) x) xs))"

record 's ingress_state =
  ig_db :: database
  ig_redis :: 's
  ig_log :: event_log

definition ingest ::
  "'s redis \<Rightarrow> (pystr \<Rightarrow> pystr) \<Rightarrow> int \<Rightarrow> (nat \<Rightarrow> int) \<Rightarrow> (nat \<Rightarrow> stamp) \<Rightarrow> (nat \<Rightarrow> micros \<times> uuid)
    \<Rightarrow> webhook_events \<Rightarrow> 's ingress_state \<Rightarrow> webhook_ingest_result res \<times> 's ingress_state" where
  "ingest ops sha ttl el st cs events s =
     (case session (ingest_messages st 0 (we_messages events)) (ig_db s) of
        (Inl e, d1) \<Rightarrow> (Inl e, s\<lparr>ig_db := d1\<rparr>)
      | (Inr (statuses, durable), d1) \<Rightarrow>
        (case claim_durable ops sha ttl durable (ig_redis s) of
           (Inl e, r1) \<Rightarrow> (Inl e, s\<lparr>ig_db := d1, ig_redis := r1\<rparr>)
         | (Inr _, r1) \<Rightarrow>
           (case ingest_callbacks el cs 0 (we_statuses events) (d1, ig_log s) of
              (Inl e, d2, log2) \<Rightarrow> (Inl e, \<lparr>ig_db = d2, ig_redis = r1, ig_log = log2\<rparr>)
            | (Inr results, d2, log2) \<Rightarrow>
              (construct valid_webhook_ingest_result
                 \<lparr>wi_accepted_messages = count PERSIST_CREATED statuses,
                  wi_duplicate_messages = count PERSIST_DUPLICATE statuses,
                  wi_accepted_statuses = count APPLIED results,
                  wi_duplicate_statuses = count DUPLICATE results,
                  wi_ignored_statuses = count IGNORED_REGRESSION results\<rparr>,
               \<lparr>ig_db = d2, ig_redis = r1, ig_log = log2\<rparr>))))"

section \<open>Messages\<close>

lemma ingest_messages_Cons:
  assumes "ingest_messages st n (m # ms) d = (Inr (sts, dur), d')"
  obtains now clock cid mid account p d1 sts' dur' where
    "record_inbound now clock cid mid account m (lit ''meta:'' @ im_message_id m) True d = (Inr p, d1)"
    "ingest_messages st (Suc n) ms d1 = (Inr (sts', dur'), d')" "sts = pi_status p # sts'"
  using assms
  by (auto simp: Let_def split: if_splits prod.splits sum.splits)

lemma record_inbound_keeps:
  assumes "record_inbound now clock cid mid account msg tid enq d = (Inr p, d')"
  shows "attempts d' = attempts d" "status_events d' = status_events d"
    "Some (im_message_id msg) \<in> ms_external_message_id ` set (messages d')"
    "set (messages d) \<subseteq> set (messages d')"
    "pi_status p = (if Some (im_message_id msg) \<in> ms_external_message_id ` set (messages d)
       then PERSIST_DUPLICATE else PERSIST_CREATED)"
    "Some (im_message_id msg) \<in> ms_external_message_id ` set (messages d) \<Longrightarrow> messages d' = messages d"
proof -
  from assms obtain conv d1 x where
    up: "upsert_conversation now (new_conversation now cid account msg) d = (Inr conv, d1)"
    and ins: "insert_message (inbound_row now clock mid conv msg tid enq) d1 = (Inr x, d')"
    and p: "p = \<lparr>pi_status = (if x = None then PERSIST_DUPLICATE else PERSIST_CREATED),
      pi_conversation_id = conv, pi_message_id = x\<rparr>"
    by (rule record_inbound_Inr)
  have same: "messages d1 = messages d" "attempts d1 = attempts d" "status_events d1 = status_events d"
    using up by (cases rule: upsert_conversation_Inr; simp)+
  have ext: "ms_external_message_id (inbound_row now clock mid conv msg tid enq) = Some (im_message_id msg)"
    by (simp add: inbound_row_def)
  have conf: "conflicts uq_messages_external_message_id (messages d1) (inbound_row now clock mid conv msg tid enq)
      \<longleftrightarrow> Some (im_message_id msg) \<in> ms_external_message_id ` set (messages d)"
    by (auto simp: conflicts_def uq_defs ext same)
  show "attempts d' = attempts d" "status_events d' = status_events d"
    "set (messages d) \<subseteq> set (messages d')"
    "Some (im_message_id msg) \<in> ms_external_message_id ` set (messages d')"
    "pi_status p = (if Some (im_message_id msg) \<in> ms_external_message_id ` set (messages d)
       then PERSIST_DUPLICATE else PERSIST_CREATED)"
    "Some (im_message_id msg) \<in> ms_external_message_id ` set (messages d) \<Longrightarrow> messages d' = messages d"
    using ins conf ext same by (cases x; auto simp: insert_message_Some insert_message_None p)+
qed

lemma ingest_messages_keeps:
  assumes "ingest_messages st n ms d = (Inr (sts, dur), d')"
  shows "length sts = length ms" "attempts d' = attempts d" "status_events d' = status_events d"
    "db_ok d \<Longrightarrow> db_ok d'" "set (messages d) \<subseteq> set (messages d')"
    "\<forall>m \<in> set ms. Some (im_message_id m) \<in> ms_external_message_id ` set (messages d')"
    "\<forall>m \<in> set ms. Some (im_message_id m) \<in> ms_external_message_id ` set (messages d) \<Longrightarrow>
      messages d' = messages d \<and> set sts \<subseteq> {PERSIST_DUPLICATE}"
  using assms
proof (induction ms arbitrary: n d sts dur)
  case Nil
  { case 1 then show ?case using Nil by simp next
    case 2 then show ?case by simp next case 3 then show ?case by simp next
    case 4 then show ?case by simp next case 5 then show ?case by simp next
    case 6 then show ?case by simp next case 7 then show ?case by simp }
next
  case (Cons m ms)
  { case 1
    then show ?case by (elim ingest_messages_Cons) (simp add: Cons.IH(1))
  next
    case 2
    then show ?case by (elim ingest_messages_Cons) (simp add: Cons.IH(2) record_inbound_keeps(1))
  next
    case 3
    then show ?case by (elim ingest_messages_Cons) (simp add: Cons.IH(3) record_inbound_keeps(2))
  next
    case 4
    then show ?case by (elim ingest_messages_Cons) (metis Cons.IH(4) record_inbound_db_ok)
  next
    case 5
    then show ?case by (elim ingest_messages_Cons) (metis Cons.IH(5) record_inbound_keeps(4) subset_trans)
  next
    case 6
    then show ?case
    proof (elim ingest_messages_Cons)
      fix now clock cid mid account p d1 sts' dur'
      assume r: "record_inbound now clock cid mid account m (lit ''meta:'' @ im_message_id m) True d = (Inr p, d1)"
        and i: "ingest_messages st (Suc n) ms d1 = (Inr (sts', dur'), d')"
      from record_inbound_keeps(3) [OF r] Cons.IH(5) [OF i] Cons.IH(6) [OF i] show ?thesis by auto
    qed
  next
    case 7
    from 7(2) show ?case
    proof (elim ingest_messages_Cons)
      fix now clock cid mid account p d1 sts' dur'
      assume r: "record_inbound now clock cid mid account m (lit ''meta:'' @ im_message_id m) True d = (Inr p, d1)"
        and i: "ingest_messages st (Suc n) ms d1 = (Inr (sts', dur'), d')" and sts: "sts = pi_status p # sts'"
      have m: "messages d1 = messages d" using record_inbound_keeps(6) [OF r] 7(1) by simp
      have p: "pi_status p = PERSIST_DUPLICATE" using record_inbound_keeps(5) [OF r] 7(1) by simp
      have "messages d' = messages d1 \<and> set sts' \<subseteq> {PERSIST_DUPLICATE}"
        by (rule Cons.IH(7) [OF _ i]) (use 7(1) m in simp)
      with m p sts show ?thesis by simp
    qed
  }
qed

section \<open>Callbacks\<close>

abbreviation reported :: "database \<Rightarrow> (pystr \<times> delivery_status) option set" where
  "reported d \<equiv> uq_delivery_status_provider_state ` set (status_events d)"

abbreviation report_of :: "status_update \<Rightarrow> (pystr \<times> delivery_status) option" where
  "report_of cb \<equiv> Some (su_provider_message_id cb, su_status cb)"

lemma callback_event_report [simp]:
  "uq_delivery_status_provider_state (callback_event now eid cb a) = report_of cb"
  by (simp add: uq_defs callback_event_def)

lemma callback_reported:
  assumes "session (apply_callback_body now eid cb) d = (Inr (res, tr), d')"
  shows "res \<noteq> MISSING_ATTEMPT \<Longrightarrow> report_of cb \<in> reported d'" and "reported d \<subseteq> reported d'"
    and "messages d' = messages d"
    and "report_of cb \<in> reported d \<Longrightarrow> d' = d \<and> res \<in> {DUPLICATE, MISSING_ATTEMPT}"
proof -
  from assms have b: "apply_callback_body now eid cb d = (Inr (res, tr), d')" by (simp add: session_Inr)
  then have "(res \<noteq> MISSING_ATTEMPT \<longrightarrow> report_of cb \<in> reported d') \<and> reported d \<subseteq> reported d'
      \<and> messages d' = messages d \<and> (report_of cb \<in> reported d \<longrightarrow> d' = d \<and> res \<in> {DUPLICATE, MISSING_ATTEMPT})"
  proof (cases rule: apply_callback_body_Inr)
    case (2 attempt)
    from 2(2) show ?thesis
      by (cases rule: callback_write_Inr) (auto simp: add_status_event_Inr conflicts_def)
  qed simp
  then show "res \<noteq> MISSING_ATTEMPT \<Longrightarrow> report_of cb \<in> reported d'" "reported d \<subseteq> reported d'"
    "messages d' = messages d" "report_of cb \<in> reported d \<Longrightarrow> d' = d \<and> res \<in> {DUPLICATE, MISSING_ATTEMPT}"
    by blast+
qed

lemma apply_callback_session:
  assumes "apply_callback el now eid cb (d, log) = (r, d', log')"
  shows "\<exists>x. session (apply_callback_body now eid cb) d = (x, d') \<and> (\<forall>res. r = Inr res \<longrightarrow> (\<exists>tr. x = Inr (res, tr)))"
proof -
  obtain x d1 where x: "session (apply_callback_body now eid cb) d = (x, d1)" by (metis surj_pair)
  have "d1 = d' \<and> (\<forall>res. r = Inr res \<longrightarrow> (\<exists>tr. x = Inr (res, tr)))"
  proof (cases x)
    case (Inl e)
    with assms x show ?thesis by (auto simp: apply_callback_def)
  next
    case (Inr w)
    obtain res tr where w: "w = (res, tr)" by (cases w)
    show ?thesis
      using assms x Inr w
      by (cases "if res = APPLIED then tr else None"; cases "su_status cb = DELIVERED"; cases "su_status cb = FAILED")
        (simp_all add: apply_callback_def split: sum.splits, blast+)
  qed
  with x show ?thesis by blast
qed

lemma ingest_callbacks_Cons:
  assumes "ingest_callbacks el cs n (cb # cbs) (d, log) = (Inr rs, d', log')"
  obtains res tr d1 log1 rs' where
    "session (apply_callback_body (fst (cs n)) (snd (cs n)) cb) d = (Inr (res, tr), d1)"
    "res \<noteq> MISSING_ATTEMPT" "ingest_callbacks el cs (Suc n) cbs (d1, log1) = (Inr rs', d', log')" "rs = res # rs'"
proof -
  obtain r d1 log1 where a: "apply_callback el (fst (cs n)) (snd (cs n)) cb (d, log) = (r, d1, log1)"
    by (metis prod_cases3)
  with assms obtain res rs' where r: "r = Inr res" "res \<noteq> MISSING_ATTEMPT"
    "ingest_callbacks el cs (Suc n) cbs (d1, log1) = (Inr rs', d', log')" "rs = res # rs'"
    by (auto split: sum.splits if_splits prod.splits)
  from apply_callback_session [OF a] r(1) obtain tr where
    "session (apply_callback_body (fst (cs n)) (snd (cs n)) cb) d = (Inr (res, tr), d1)" by auto
  from that [OF this r(2-4)] show thesis .
qed

lemma ingest_callbacks_keeps:
  assumes "ingest_callbacks el cs n cbs (d, log) = (Inr rs, d', log')"
  shows "length rs = length cbs \<and> MISSING_ATTEMPT \<notin> set rs \<and> messages d' = messages d
      \<and> reported d \<subseteq> reported d' \<and> report_of ` set cbs \<subseteq> reported d'
      \<and> (report_of ` set cbs \<subseteq> reported d \<longrightarrow> d' = d \<and> set rs \<subseteq> {DUPLICATE})
      \<and> (list_all normal_callback cbs \<longrightarrow> delivery_inv d \<longrightarrow> delivery_inv d')"
  using assms
proof (induction cbs arbitrary: n d log rs)
  case (Cons cb cbs)
  then show ?case
  proof (elim ingest_callbacks_Cons)
    fix res tr d1 log1 rs'
    assume s: "session (apply_callback_body (fst (cs n)) (snd (cs n)) cb) d = (Inr (res, tr), d1)"
      and res: "res \<noteq> MISSING_ATTEMPT" and rs: "rs = res # rs'"
      and i: "ingest_callbacks el cs (Suc n) cbs (d1, log1) = (Inr rs', d', log')"
    note IH = Cons.IH [OF i]
    note r = callback_reported [OF s]
    have len: "length rs' = length cbs" "MISSING_ATTEMPT \<notin> set rs'" "messages d' = messages d1"
      and grow: "reported d1 \<subseteq> reported d'" and all: "report_of ` set cbs \<subseteq> reported d'"
      using IH by simp_all
    have again: "d' = d1 \<and> set rs' \<subseteq> {DUPLICATE}" if "report_of ` set cbs \<subseteq> reported d1" using IH that by simp
    have inv: "delivery_inv d'" if "list_all normal_callback cbs" "delivery_inv d1" using IH that by simp
    have here: "report_of cb \<in> reported d'" by (rule subsetD [OF grow r(1) [OF res]])
    have up: "reported d \<subseteq> reported d'" by (rule order_trans [OF r(2) grow])
    have dup: "d' = d \<and> set rs \<subseteq> {DUPLICATE}" if sub: "report_of ` set (cb # cbs) \<subseteq> reported d"
    proof -
      from sub r(4) res have "d1 = d" "res = DUPLICATE" by auto
      with again sub rs show ?thesis by simp
    qed
    have keeps: "delivery_inv d'" if "list_all normal_callback (cb # cbs)" "delivery_inv d"
      using inv callback_inv [OF that(2) _ s] that(1) by simp
    show ?thesis
      by (intro conjI impI) (use len res rs r(3) up here all dup keeps in simp_all)
  qed
qed simp

section \<open>Properties\<close>

lemma ingest_Inr:
  assumes "ingest ops sha ttl el st cs events s = (Inr r, s')"
  obtains sts dur d1 rs where
    "ingest_messages st 0 (we_messages events) (ig_db s) = (Inr (sts, dur), d1)"
    "ingest_callbacks el cs 0 (we_statuses events) (d1, ig_log s) = (Inr rs, ig_db s', ig_log s')"
    "r = \<lparr>wi_accepted_messages = count PERSIST_CREATED sts, wi_duplicate_messages = count PERSIST_DUPLICATE sts,
       wi_accepted_statuses = count APPLIED rs, wi_duplicate_statuses = count DUPLICATE rs,
       wi_ignored_statuses = count IGNORED_REGRESSION rs\<rparr>"
  using assms
  by (auto simp: ingest_def session_def split: prod.splits sum.splits)

lemma count_persist: "count PERSIST_CREATED xs + count PERSIST_DUPLICATE xs = int (length xs)"
proof (induction xs)
  case (Cons x xs)
  then show ?case by (cases x) (auto simp: count_def)
qed (simp add: count_def)

lemma count_callbacks:
  "MISSING_ATTEMPT \<notin> set xs \<Longrightarrow>
   count APPLIED xs + count DUPLICATE xs + count IGNORED_REGRESSION xs = int (length xs)"
proof (induction xs)
  case (Cons x xs)
  then show ?case by (cases x) (auto simp: count_def)
qed (simp add: count_def)

lemma count_all: "set xs \<subseteq> {x} \<Longrightarrow> count x xs = int (length xs)"
  by (induction xs) (auto simp: count_def)

lemma count_zero: "set xs \<subseteq> {x} \<Longrightarrow> y \<noteq> x \<Longrightarrow> count y xs = 0"
  by (induction xs) (auto simp: count_def)

text \<open>
  Every event is accounted for. A successful ingestion stores every message of the events,
  processes every callback, counts each message as accepted or duplicate and each callback as
  accepted, duplicate or ignored, and keeps the delivery invariant.
\<close>

theorem ingest_accounts:
  assumes "ingest ops sha ttl el st cs events s = (Inr r, s')"
    and "delivery_inv (ig_db s)" and "list_all normal_callback (we_statuses events)"
  shows "delivery_inv (ig_db s')
    \<and> wi_accepted_messages r + wi_duplicate_messages r = int (length (we_messages events))
    \<and> wi_accepted_statuses r + wi_duplicate_statuses r + wi_ignored_statuses r = int (length (we_statuses events))
    \<and> (\<forall>m \<in> set (we_messages events). Some (im_message_id m) \<in> set (map ms_external_message_id (messages (ig_db s'))))
    \<and> (\<forall>cb \<in> set (we_statuses events). report_of cb \<in> reported (ig_db s'))"
  using assms(1)
proof (rule ingest_Inr)
  fix sts dur d1 rs
  assume m: "ingest_messages st 0 (we_messages events) (ig_db s) = (Inr (sts, dur), d1)"
    and c: "ingest_callbacks el cs 0 (we_statuses events) (d1, ig_log s) = (Inr rs, ig_db s', ig_log s')"
    and r: "r = \<lparr>wi_accepted_messages = count PERSIST_CREATED sts, wi_duplicate_messages = count PERSIST_DUPLICATE sts,
       wi_accepted_statuses = count APPLIED rs, wi_duplicate_statuses = count DUPLICATE rs,
       wi_ignored_statuses = count IGNORED_REGRESSION rs\<rparr>"
  note mk = ingest_messages_keeps [OF m] and ck = ingest_callbacks_keeps [OF c]
  have "delivery_inv d1"
    using assms(2) mk(2,3,4) by (simp add: delivery_inv_def accepted_event_def)
  with ck assms(3) have "delivery_inv (ig_db s')" by blast
  moreover have "\<forall>m \<in> set (we_messages events).
      Some (im_message_id m) \<in> ms_external_message_id ` set (messages (ig_db s'))"
    using mk(6) ck by simp
  moreover have "\<forall>cb \<in> set (we_statuses events). report_of cb \<in> reported (ig_db s')" using ck by blast
  ultimately show ?thesis
    using mk(1) ck count_persist [of sts] count_callbacks [of rs] by (simp add: r)
qed



section \<open>A concrete ingestion\<close>

definition sample_events :: webhook_events where
  "sample_events = \<lparr>we_messages = [sample_inbound\<lparr>im_metadata := [(lit ''phone_number_id'', lit ''pn1'')]\<rparr>],
     we_statuses = [sample_callback]\<rparr>"

definition sample_ingest_state :: "keyspace ingress_state" where
  "sample_ingest_state = \<lparr>ig_db = sample_sent, ig_redis = fresh_keyspace [], ig_log = []\<rparr>"

abbreviation sample_ingest ::
  "keyspace ingress_state \<Rightarrow> webhook_ingest_result res \<times> keyspace ingress_state" where
  "sample_ingest \<equiv> ingest memory_redis id 60 (\<lambda>n. 0) (\<lambda>n. (30, 31, 40, 41)) (\<lambda>n. (20, 21)) sample_events"

definition sample_ingested_db :: database where
  "sample_ingested_db = snd (ingest_messages (\<lambda>n. (30, 31, 40, 41)) 0 (we_messages sample_events) sample_sent)"

lemma sample_ingest_messages:
  "fst (ingest_messages (\<lambda>n. (30, 31, 40, 41)) 0 (we_messages sample_events) sample_sent)
    = Inr ([PERSIST_CREATED], [(lit ''pn1'', lit ''wamid.1'')])"
  by (simp add: sample_events_def sample_inbound_def Let_def record_inbound_def upsert_conversation_def
      insert_message_def new_conversation_def inbound_row_def sample_sent_eq sample_db_def empty_db_def uq_defs
      conflicts_def pk_def message_columns_ok_def opt_varchar_def opt_text_def varchar_def construct_def
      valid_defs update_where_def) (simp add: lit_def)

lemma sample_ingested:
  "ingest_messages (\<lambda>n. (30, 31, 40, 41)) 0 (we_messages sample_events) sample_sent
    = (Inr ([PERSIST_CREATED], [(lit ''pn1'', lit ''wamid.1'')]), sample_ingested_db)"
  using sample_ingest_messages by (simp add: sample_ingested_db_def prod_eq_iff)

lemma sample_ingested_tables:
  "attempts sample_ingested_db = attempts sample_sent" "status_events sample_ingested_db = status_events sample_sent"
  using ingest_messages_keeps(2,3) [OF sample_ingested] .

lemma sample_dedup_any:
  "fst (dedup_claim memory_redis id 60 (lit ''pn1'') (lit ''wamid.1'') (fresh_keyspace [])) = Inr DEDUP_CLAIMED"
  by (simp add: dedup_claim_def memory_redis_def ks_command_def ks_set_def fresh_keyspace_def ks_view_def
      strip_eq_Nil) (simp add: lit_def is_space_def)

lemma sample_callback_applied:
  "fst (apply_callback (\<lambda>n. 0) 20 21 sample_callback (sample_ingested_db, [])) = Inr APPLIED"
proof -
  have "fst (session (apply_callback_body 20 21 sample_callback) sample_ingested_db)
      = Inr (APPLIED, Some (lit ''t1''))"
    using sample_ingested_tables
    by (simp add: sample_callback_eval) (simp add: lit_def)
  then obtain d where "session (apply_callback_body 20 21 sample_callback) sample_ingested_db
      = (Inr (APPLIED, Some (lit ''t1'')), d)" by (metis prod.collapse)
  then show ?thesis
    by (simp add: apply_callback_def sample_callback_def emit_counts_def construct_def valid_defs opt_nonneg_def)
qed

lemma sample_ingest_ok: "\<exists>r s'. sample_ingest sample_ingest_state = (Inr r, s')"
proof -
  obtain k where k: "dedup_claim memory_redis id 60 (lit ''pn1'') (lit ''wamid.1'') (fresh_keyspace [])
      = (Inr DEDUP_CLAIMED, k)" using sample_dedup_any by (metis prod.collapse)
  obtain d log where "apply_callback (\<lambda>n. 0) 20 21 sample_callback (sample_ingested_db, [])
      = (Inr APPLIED, d, log)" using sample_callback_applied by (metis prod.collapse)
  then show ?thesis
    using sample_ingested k
    by (simp add: ingest_def session_def sample_ingest_state_def sample_events_def count_def construct_def
        valid_webhook_ingest_result_def)
qed

theorem ingest_accounts_witness:
  "\<exists>r s'. sample_ingest sample_ingest_state = (Inr r, s') \<and> delivery_inv (ig_db s')
    \<and> wi_accepted_messages r + wi_duplicate_messages r = 1
    \<and> wi_accepted_statuses r + wi_duplicate_statuses r + wi_ignored_statuses r = 1"
proof -
  obtain r s' where i: "sample_ingest sample_ingest_state = (Inr r, s')" using sample_ingest_ok by blast
  from ingest_accounts [OF i] i show ?thesis
    by (simp add: sample_ingest_state_def sample_sent_inv sample_events_def sample_callback_ok)
qed

definition sample_message_event :: webhook_events where
  "sample_message_event = sample_events\<lparr>we_statuses := []\<rparr>"

abbreviation ingest_message :: "database \<Rightarrow> webhook_ingest_result res \<times> keyspace ingress_state" where
  "ingest_message d \<equiv> ingest memory_redis id 60 (\<lambda>n. 0) (\<lambda>n. (10, 11, 5, 2)) (\<lambda>n. (20, 21)) sample_message_event
     \<lparr>ig_db = d, ig_redis = fresh_keyspace [], ig_log = []\<rparr>"

definition sample_redelivered_db :: database where
  "sample_redelivered_db = snd (ingest_messages (\<lambda>n. (10, 11, 5, 2)) 0 (we_messages sample_message_event) empty_db)"

lemmas message_eval = sample_message_event_def sample_events_def sample_inbound_def Let_def record_inbound_def
  upsert_conversation_def insert_message_def new_conversation_def inbound_row_def empty_db_def uq_defs
  conflicts_def pk_def message_columns_ok_def opt_varchar_def opt_text_def varchar_def construct_def
  update_where_def

lemma sample_redelivery:
  "fst (ingest_messages (\<lambda>n. (10, 11, 5, 2)) 0 (we_messages sample_message_event) empty_db)
    = Inr ([PERSIST_CREATED], [(lit ''pn1'', lit ''wamid.1'')])"
  "fst (ingest_messages (\<lambda>n. (10, 11, 5, 2)) 0 (we_messages sample_message_event) sample_redelivered_db)
    = Inr ([PERSIST_DUPLICATE], [(lit ''pn1'', lit ''wamid.1'')])"
  unfolding sample_redelivered_db_def
  by (simp_all add: message_eval valid_persisted_inbound_def) (simp_all add: lit_def)

lemma ingest_message_ok:
  assumes "fst (ingest_messages (\<lambda>n. (10, 11, 5, 2)) 0 (we_messages sample_message_event) d)
    = Inr (sts, [(lit ''pn1'', lit ''wamid.1'')])"
  shows "\<exists>r s'. ingest_message d = (Inr r, s')
    \<and> ig_db s' = snd (ingest_messages (\<lambda>n. (10, 11, 5, 2)) 0 (we_messages sample_message_event) d)"
proof -
  obtain k where k: "dedup_claim memory_redis id 60 (lit ''pn1'') (lit ''wamid.1'') (fresh_keyspace [])
      = (Inr DEDUP_CLAIMED, k)" using sample_dedup_any by (metis prod.collapse)
  obtain d1 where "ingest_messages (\<lambda>n. (10, 11, 5, 2)) 0 (we_messages sample_message_event) d
      = (Inr (sts, [(lit ''pn1'', lit ''wamid.1'')]), d1)" using assms by (metis prod.collapse)
  moreover have "we_statuses sample_message_event = []" by (simp add: sample_message_event_def)
  ultimately show ?thesis
    using k by (simp add: ingest_def session_def count_def construct_def valid_webhook_ingest_result_def)
qed



end
