(* ===== verification/State_Stores.thy ===== *)
theory State_Stores
  imports Coordination
begin

text \<open>
  Short-lived conversation state in Redis: the active-pick store of
  \<open>src/src/piki/state/active_pick.py\<close> and the pending-action store of
  \<open>src/src/piki/state/pending_actions.py\<close>. The JSON forms are pydantic's: \<open>dump\<close> is
  \<open>model_dump_json\<close> and \<open>parse\<close> is \<open>model_validate_json\<close>, \<open>None\<close> when it raises \<open>ValueError\<close>.
\<close>

section \<open>The active-pick store\<close>

datatype active_pick_source = EXPLICIT_REFERENCE | UNAMBIGUOUS_RESULT

record active_pick_reference =
  ap_schema_version :: pystr
  ap_pick_id :: pystr
  ap_commerce_id :: pystr
  ap_selected_at :: datetime
  ap_source :: active_pick_source

definition valid_active_pick_reference :: "active_pick_reference \<Rightarrow> bool" where
  [valid_defs]: "valid_active_pick_reference r \<longleftrightarrow>
     len_between 1 255 (ap_pick_id r) \<and> len_between 1 255 (ap_commerce_id r) \<and> has_tz (ap_selected_at r)"

datatype state_read_status = STATE_FOUND | STATE_MISSING | STATE_UNAVAILABLE

record active_pick_read =
  ar_status :: state_read_status
  ar_reference :: "active_pick_reference option"

definition valid_active_pick_read :: "active_pick_read \<Rightarrow> bool" where
  [valid_defs]: "valid_active_pick_read r \<longleftrightarrow>
     \<not> ((ar_status r = STATE_FOUND) \<noteq> (ar_reference r \<noteq> None))"

record state_write_result =
  sw_success :: bool
  sw_state_available :: bool

definition valid_state_write_result :: "state_write_result \<Rightarrow> bool" where
  [valid_defs]: "valid_state_write_result w \<longleftrightarrow> \<not> (sw_success w \<and> \<not> sw_state_available w)"

definition active_pick_key_for :: "(pystr \<Rightarrow> pystr) \<Rightarrow> conversation_scope \<Rightarrow> pystr" where
  "active_pick_key_for sha c =
     key_prefix @ lit '':'' @ conversation_scope_digest sha c @ lit '':active-pick''"

definition active_pick_set ::
  "'s redis \<Rightarrow> (pystr \<Rightarrow> pystr) \<Rightarrow> int \<Rightarrow> (active_pick_reference \<Rightarrow> pystr)
    \<Rightarrow> conversation_scope \<Rightarrow> active_pick_reference \<Rightarrow> 's \<Rightarrow> state_write_result res \<times> 's" where
  "active_pick_set ops sha ttl dump c reference s =
     (case rd_set ops (active_pick_key_for sha c) (dump reference) ttl False s of
        (None, s1) \<Rightarrow> (construct valid_state_write_result \<lparr>sw_success = False, sw_state_available = False\<rparr>, s1)
      | (Some stored, s1) \<Rightarrow>
        (construct valid_state_write_result \<lparr>sw_success = stored, sw_state_available = True\<rparr>, s1))"

definition active_pick_clear ::
  "'s redis \<Rightarrow> (pystr \<Rightarrow> pystr) \<Rightarrow> conversation_scope \<Rightarrow> 's \<Rightarrow> state_write_result res \<times> 's" where
  "active_pick_clear ops sha c s =
     (case rd_delete ops (active_pick_key_for sha c) s of
        (None, s1) \<Rightarrow> (construct valid_state_write_result \<lparr>sw_success = False, sw_state_available = False\<rparr>, s1)
      | (Some _, s1) \<Rightarrow>
        (construct valid_state_write_result \<lparr>sw_success = True, sw_state_available = True\<rparr>, s1))"

definition active_pick_get ::
  "'s redis \<Rightarrow> (pystr \<Rightarrow> pystr) \<Rightarrow> (pystr \<Rightarrow> active_pick_reference option)
    \<Rightarrow> conversation_scope \<Rightarrow> 's \<Rightarrow> active_pick_read res \<times> 's" where
  "active_pick_get ops sha parse c s =
     (case rd_get ops (active_pick_key_for sha c) s of
        (None, s1) \<Rightarrow> (construct valid_active_pick_read \<lparr>ar_status = STATE_UNAVAILABLE, ar_reference = None\<rparr>, s1)
      | (Some None, s1) \<Rightarrow>
        (construct valid_active_pick_read \<lparr>ar_status = STATE_MISSING, ar_reference = None\<rparr>, s1)
      | (Some (Some payload), s1) \<Rightarrow>
        (case parse payload of
           None \<Rightarrow>
             (case active_pick_clear ops sha c s1 of
                (Inl e, s2) \<Rightarrow> (Inl e, s2)
              | (Inr _, s2) \<Rightarrow>
                (construct valid_active_pick_read \<lparr>ar_status = STATE_UNAVAILABLE, ar_reference = None\<rparr>, s2))
         | Some reference \<Rightarrow>
             (construct valid_active_pick_read \<lparr>ar_status = STATE_FOUND, ar_reference = Some reference\<rparr>, s1)))"

section \<open>The pending-action store\<close>

datatype pending_action_kind = SELECT_PICK | PROVIDE_ORDER_OWNERSHIP

record pending_action =
  pn_schema_version :: pystr
  pn_action_id :: pystr
  pn_kind :: pending_action_kind
  pn_created_at :: datetime
  pn_subject_id :: "pystr option"
  pn_candidate_pick_ids :: "pystr list"

definition valid_pending_action :: "pending_action \<Rightarrow> bool" where
  [valid_defs]: "valid_pending_action a \<longleftrightarrow>
     len_between 36 36 (pn_action_id a) \<and> opt_len 1 255 (pn_subject_id a)
     \<and> length (pn_candidate_pick_ids a) \<le> 20 \<and> has_tz (pn_created_at a)
     \<and> (case pn_kind a of
          SELECT_PICK \<Rightarrow> \<not> (length (pn_candidate_pick_ids a) < 2 \<or> pn_subject_id a \<noteq> None)
        | PROVIDE_ORDER_OWNERSHIP \<Rightarrow> \<not> (pn_subject_id a = None \<or> pn_candidate_pick_ids a \<noteq> []))
     \<and> \<not> list_ex (\<lambda>p. strip p = []) (pn_candidate_pick_ids a)
     \<and> distinct (pn_candidate_pick_ids a)"

datatype pending_action_status = PENDING_FOUND | PENDING_MISSING | PENDING_UNAVAILABLE

record pending_action_read =
  pr_status :: pending_action_status
  pr_action :: "pending_action option"

definition valid_pending_action_read :: "pending_action_read \<Rightarrow> bool" where
  [valid_defs]: "valid_pending_action_read r \<longleftrightarrow>
     \<not> ((pr_status r = PENDING_FOUND) \<noteq> (pr_action r \<noteq> None))"

record pending_action_write =
  pw_success :: bool
  pw_state_available :: bool

definition valid_pending_action_write :: "pending_action_write \<Rightarrow> bool" where
  [valid_defs]: "valid_pending_action_write w \<longleftrightarrow> \<not> (pw_success w \<and> \<not> pw_state_available w)"

definition pending_key_for :: "(pystr \<Rightarrow> pystr) \<Rightarrow> conversation_scope \<Rightarrow> pystr" where
  "pending_key_for sha c =
     key_prefix @ lit '':'' @ conversation_scope_digest sha c @ lit '':pending-action''"

definition pending_set ::
  "'s redis \<Rightarrow> (pystr \<Rightarrow> pystr) \<Rightarrow> int \<Rightarrow> (pending_action \<Rightarrow> pystr)
    \<Rightarrow> conversation_scope \<Rightarrow> pending_action \<Rightarrow> 's \<Rightarrow> pending_action_write res \<times> 's" where
  "pending_set ops sha ttl dump c action s =
     (case rd_set ops (pending_key_for sha c) (dump action) ttl False s of
        (None, s1) \<Rightarrow> (construct valid_pending_action_write \<lparr>pw_success = False, pw_state_available = False\<rparr>, s1)
      | (Some stored, s1) \<Rightarrow>
        (construct valid_pending_action_write \<lparr>pw_success = stored, pw_state_available = True\<rparr>, s1))"

definition pending_clear ::
  "'s redis \<Rightarrow> (pystr \<Rightarrow> pystr) \<Rightarrow> conversation_scope \<Rightarrow> 's \<Rightarrow> pending_action_write res \<times> 's" where
  "pending_clear ops sha c s =
     (case rd_delete ops (pending_key_for sha c) s of
        (None, s1) \<Rightarrow> (construct valid_pending_action_write \<lparr>pw_success = False, pw_state_available = False\<rparr>, s1)
      | (Some _, s1) \<Rightarrow>
        (construct valid_pending_action_write \<lparr>pw_success = True, pw_state_available = True\<rparr>, s1))"

definition pending_parse ::
  "'s redis \<Rightarrow> (pystr \<Rightarrow> pystr) \<Rightarrow> (pystr \<Rightarrow> pending_action option)
    \<Rightarrow> conversation_scope \<Rightarrow> pystr option \<Rightarrow> bool \<Rightarrow> 's \<Rightarrow> pending_action_read res \<times> 's" where
  "pending_parse ops sha parse c payload consumed s =
     (case payload of
        None \<Rightarrow> (construct valid_pending_action_read \<lparr>pr_status = PENDING_MISSING, pr_action = None\<rparr>, s)
      | Some p \<Rightarrow>
        (case parse p of
           None \<Rightarrow>
             (case (if \<not> consumed then pending_clear ops sha c s
                    else (Inr \<lparr>pw_success = True, pw_state_available = True\<rparr>, s)) of
                (Inl e, s1) \<Rightarrow> (Inl e, s1)
              | (Inr _, s1) \<Rightarrow>
                (construct valid_pending_action_read \<lparr>pr_status = PENDING_UNAVAILABLE, pr_action = None\<rparr>, s1))
         | Some action \<Rightarrow>
             (construct valid_pending_action_read \<lparr>pr_status = PENDING_FOUND, pr_action = Some action\<rparr>, s)))"

definition pending_get ::
  "'s redis \<Rightarrow> (pystr \<Rightarrow> pystr) \<Rightarrow> (pystr \<Rightarrow> pending_action option)
    \<Rightarrow> conversation_scope \<Rightarrow> 's \<Rightarrow> pending_action_read res \<times> 's" where
  "pending_get ops sha parse c s =
     (case rd_get ops (pending_key_for sha c) s of
        (None, s1) \<Rightarrow> (construct valid_pending_action_read \<lparr>pr_status = PENDING_UNAVAILABLE, pr_action = None\<rparr>, s1)
      | (Some payload, s1) \<Rightarrow> pending_parse ops sha parse c payload False s1)"

definition consume ::
  "'s redis \<Rightarrow> (pystr \<Rightarrow> pystr) \<Rightarrow> (pystr \<Rightarrow> pending_action option)
    \<Rightarrow> conversation_scope \<Rightarrow> 's \<Rightarrow> pending_action_read res \<times> 's" where
  "consume ops sha parse c s =
     (case rd_getdel ops (pending_key_for sha c) s of
        (None, s1) \<Rightarrow> (construct valid_pending_action_read \<lparr>pr_status = PENDING_UNAVAILABLE, pr_action = None\<rparr>, s1)
      | (Some payload, s1) \<Rightarrow> pending_parse ops sha parse c payload True s1)"

section \<open>Both are scoped stores\<close>

definition active_put ::
  "'s redis \<Rightarrow> (pystr \<Rightarrow> pystr) \<Rightarrow> int \<Rightarrow> (active_pick_reference \<Rightarrow> pystr)
    \<Rightarrow> conversation_scope \<Rightarrow> active_pick_reference \<Rightarrow> 's \<Rightarrow> bool \<times> 's" where
  "active_put ops sha ttl dump c v s =
     (case active_pick_set ops sha ttl dump c v s of
        (Inr w, s') \<Rightarrow> (sw_success w, s') | (Inl e, s') \<Rightarrow> (False, s'))"

definition active_fetch ::
  "'s redis \<Rightarrow> (pystr \<Rightarrow> pystr) \<Rightarrow> (pystr \<Rightarrow> active_pick_reference option)
    \<Rightarrow> conversation_scope \<Rightarrow> 's \<Rightarrow> active_pick_reference option option \<times> 's" where
  "active_fetch ops sha parse c s =
     (case active_pick_get ops sha parse c s of
        (Inr r, s') \<Rightarrow> (if ar_status r = STATE_UNAVAILABLE then None else Some (ar_reference r), s')
      | (Inl e, s') \<Rightarrow> (None, s'))"

definition pending_put ::
  "'s redis \<Rightarrow> (pystr \<Rightarrow> pystr) \<Rightarrow> int \<Rightarrow> (pending_action \<Rightarrow> pystr)
    \<Rightarrow> conversation_scope \<Rightarrow> pending_action \<Rightarrow> 's \<Rightarrow> bool \<times> 's" where
  "pending_put ops sha ttl dump c v s =
     (case pending_set ops sha ttl dump c v s of
        (Inr w, s') \<Rightarrow> (pw_success w, s') | (Inl e, s') \<Rightarrow> (False, s'))"

definition pending_fetch ::
  "'s redis \<Rightarrow> (pystr \<Rightarrow> pystr) \<Rightarrow> (pystr \<Rightarrow> pending_action option)
    \<Rightarrow> conversation_scope \<Rightarrow> 's \<Rightarrow> pending_action option option \<times> 's" where
  "pending_fetch ops sha parse c s =
     (case pending_get ops sha parse c s of
        (Inr r, s') \<Rightarrow> (if pr_status r = PENDING_UNAVAILABLE then None else Some (pr_action r), s')
      | (Inl e, s') \<Rightarrow> (None, s'))"

text \<open>The value a key holds for a reader of the store.\<close>

definition decoded :: "('s \<Rightarrow> pystr \<Rightarrow> pystr option) \<Rightarrow> ('c \<Rightarrow> pystr) \<Rightarrow> (pystr \<Rightarrow> 'v option) \<Rightarrow> 's \<Rightarrow> 'c \<Rightarrow> 'v option" where
  "decoded view key parse s c = Option.bind (view s (key c)) parse"

lemma decoded_cong: "view s' = view s \<Longrightarrow> decoded view key parse s' = decoded view key parse s"
  by (simp add: decoded_def fun_eq_iff)

lemma decoded_dropped:
  assumes "view s (key c) = Some p" "parse p = None" "view s' = view s \<or> view s' = (view s)(key c := None)"
  shows "decoded view key parse s' = decoded view key parse s"
  using assms by (auto simp: decoded_def fun_eq_iff)

locale redis_state = redis_server ops view for ops :: "'s redis" and view +
  fixes sha :: "pystr \<Rightarrow> pystr" and ttl :: int and C :: "conversation_scope set"
  assumes ttl_positive: "0 < ttl"
    and collision_free: "inj_on (conversation_scope_digest sha) C"
begin

lemma key_eq: "c \<in> C \<Longrightarrow> c' \<in> C \<Longrightarrow>
    a @ conversation_scope_digest sha c @ z = a @ conversation_scope_digest sha c' @ z \<longleftrightarrow> c = c'"
  using collision_free by (auto simp: inj_on_def)

lemma set_view:
  assumes "rd_set ops k v ttl False s = (r, s')"
  shows "view s' = (view s)(k := Some v) \<or> (r = None \<and> view s' = view s)"
  using assms set_replied set_failed ttl_positive by (cases r) (metis, metis)

text \<open>
  A store whose operations are one command each on the key of the scope, with a clear after a
  payload that does not parse, is a scoped store.
\<close>

lemma scoped_storeI:
  fixes put fetch drop key and dump :: "'v \<Rightarrow> pystr" and parse ok
  assumes key: "\<And>c c'. c \<in> C \<Longrightarrow> c' \<in> C \<Longrightarrow> key c = key c' \<longleftrightarrow> c = c'"
    and codec: "\<And>v. ok v \<Longrightarrow> parse (dump v) = Some v"
    and put: "\<And>c v s b s'. put c v s = (b, s') \<Longrightarrow>
      \<exists>r. rd_set ops (key c) (dump v) ttl False s = (r, s') \<and> (b \<longrightarrow> r \<noteq> None)"
    and cleared: "\<And>c s. \<exists>r. rd_delete ops (key c) s = (r, drop c s)"
    and fetch: "\<And>c s r s'. fetch c s = (r, s') \<Longrightarrow>
      (rd_get ops (key c) s = (None, s') \<and> r = None)
      \<or> (rd_get ops (key c) s = (Some None, s') \<and> r = Some None)
      \<or> (\<exists>p v. rd_get ops (key c) s = (Some (Some p), s') \<and> parse p = Some v \<and> r = Some (Some v))
      \<or> (\<exists>p s1 q. rd_get ops (key c) s = (Some (Some p), s1) \<and> parse p = None
           \<and> rd_delete ops (key c) s1 = (q, s') \<and> r = None)"
  shows "scoped_store put fetch drop (decoded view key parse) C ok"
proof -
  have drop: "view (drop c s) = view s \<or> view (drop c s) = (view s)(key c := None)" for c s
    using cleared [of c s] delete_view by blast
  have put_view: "view s' = (view s)(key c := Some (dump v)) \<or> (\<not> b \<and> view s' = view s)"
    if "put c v s = (b, s')" for c v s b s'
    using put [OF that] set_view by blast
  show ?thesis
  proof unfold_locales
    fix c v s s' assume "put c v s = (True, s')" "ok v"
    then show "decoded view key parse s' c = Some v"
      using put_view [of c v s True s'] codec by (auto simp: decoded_def)
  next
    fix c v s b s' assume "put c v s = (b, s')" "ok v"
    then show "decoded view key parse s' c = decoded view key parse s c \<or> decoded view key parse s' c = Some v"
      using put_view [of c v s b s'] codec by (auto simp: decoded_def)
  next
    fix c v s b s' c' assume "put c v s = (b, s')" "c \<in> C" "c' \<in> C" "c' \<noteq> c"
    then show "decoded view key parse s' c' = decoded view key parse s c'"
      using put_view [of c v s b s'] key [of c c'] by (auto simp: decoded_def)
  next
    fix c s x s' assume "fetch c s = (Some x, s')"
    from fetch [OF this] show "x = decoded view key parse s c"
      by (auto simp: decoded_def dest!: get_replied) (metis bind.bind_lunit)
  next
    fix c s r s' assume "fetch c s = (r, s')"
    from fetch [OF this] show "decoded view key parse s' = decoded view key parse s"
    proof (elim disjE exE conjE)
      fix p s1 q assume g: "rd_get ops (key c) s = (Some (Some p), s1)" "parse p = None"
        "rd_delete ops (key c) s1 = (q, s')"
      from get_replied [OF g(1)] delete_view [OF g(3)] g(2) show ?thesis
        by (intro decoded_dropped [of _ _ _ c p]) auto
    qed (auto intro!: decoded_cong dest: get_replied get_failed)
  next
    fix c s
    show "decoded view key parse (drop c s) c = decoded view key parse s c
      \<or> decoded view key parse (drop c s) c = None"
      using drop [of c s] by (auto simp: decoded_def)
  next
    fix c c' s assume "c \<in> C" "c' \<in> C" "c' \<noteq> c"
    then show "decoded view key parse (drop c s) c' = decoded view key parse s c'"
      using drop [of c s] key [of c c'] by (auto simp: decoded_def)
  qed
qed

end

locale active_pick_state = redis_state +
  fixes dump :: "active_pick_reference \<Rightarrow> pystr" and parse :: "pystr \<Rightarrow> active_pick_reference option"
  assumes codec: "valid_active_pick_reference v \<Longrightarrow> parse (dump v) = Some v"

sublocale active_pick_state \<subseteq> active: scoped_store
  "active_put ops sha ttl dump" "active_fetch ops sha parse" "\<lambda>c s. snd (active_pick_clear ops sha c s)"
  "decoded view (active_pick_key_for sha) parse" C valid_active_pick_reference
proof (rule scoped_storeI)
  show "active_pick_key_for sha c = active_pick_key_for sha c' \<longleftrightarrow> c = c'" if "c \<in> C" "c' \<in> C" for c c'
    using key_eq [OF that, of "key_prefix @ lit '':''" "lit '':active-pick''"] by (simp add: active_pick_key_for_def)
qed (auto simp: codec active_put_def active_pick_set_def active_pick_clear_def active_fetch_def
    active_pick_get_def construct_def valid_defs split: prod.splits option.splits sum.splits if_splits)

locale pending_action_state = redis_state +
  fixes dump :: "pending_action \<Rightarrow> pystr" and parse :: "pystr \<Rightarrow> pending_action option"
  assumes codec: "valid_pending_action v \<Longrightarrow> parse (dump v) = Some v"

sublocale pending_action_state \<subseteq> pending: scoped_store
  "pending_put ops sha ttl dump" "pending_fetch ops sha parse" "\<lambda>c s. snd (pending_clear ops sha c s)"
  "decoded view (pending_key_for sha) parse" C valid_pending_action
proof (rule scoped_storeI)
  show "pending_key_for sha c = pending_key_for sha c' \<longleftrightarrow> c = c'" if "c \<in> C" "c' \<in> C" for c c'
    using key_eq [OF that, of "key_prefix @ lit '':''" "lit '':pending-action''"] by (simp add: pending_key_for_def)
qed (auto simp: codec pending_put_def pending_set_def pending_clear_def pending_fetch_def pending_get_def
    pending_parse_def construct_def valid_pending_action_read_def valid_pending_action_write_def
    split: prod.splits option.splits sum.splits if_splits)

section \<open>The stores on the in-memory server\<close>

text \<open>A codec that packs the fields with their lengths stands in for the JSON form.\<close>

definition pack :: "pystr list \<Rightarrow> pystr" where
  "pack xs = concat (map (\<lambda>x. length x # x) xs)"

function unpack :: "pystr \<Rightarrow> pystr list option" where
  "unpack [] = Some []"
| "unpack (n # xs) = (if length xs < n then None
     else map_option (\<lambda>ys. take n xs # ys) (unpack (List.drop n xs)))"
  by pat_completeness auto
termination by (relation "measure length") auto

lemma unpack_pack [simp]: "unpack (pack xs) = Some xs"
  by (induction xs) (simp_all add: pack_def)

definition pack_time :: "datetime \<Rightarrow> pystr" where
  "pack_time t = [if instant t < 0 then 1 else 0, nat \<bar>instant t\<bar>]"

fun unpack_time :: "pystr \<Rightarrow> datetime option" where
  "unpack_time [g, n] = Some (Aware (if g = 1 then - int n else int n))"
| "unpack_time _ = None"

lemma unpack_pack_time [simp]: "has_tz t \<Longrightarrow> unpack_time (pack_time t) = Some t"
  by (cases t) (auto simp: pack_time_def)

definition dump_reference :: "active_pick_reference \<Rightarrow> pystr" where
  "dump_reference r = pack [ap_schema_version r, ap_pick_id r, ap_commerce_id r, pack_time (ap_selected_at r),
     if ap_source r = EXPLICIT_REFERENCE then [] else [1]]"

definition parse_reference :: "pystr \<Rightarrow> active_pick_reference option" where
  "parse_reference p = (case unpack p of
     Some [v, i, c, t, k] \<Rightarrow> map_option (\<lambda>at. \<lparr>ap_schema_version = v, ap_pick_id = i, ap_commerce_id = c,
       ap_selected_at = at, ap_source = (if k = [] then EXPLICIT_REFERENCE else UNAMBIGUOUS_RESULT)\<rparr>) (unpack_time t)
   | _ \<Rightarrow> None)"

definition dump_action :: "pending_action \<Rightarrow> pystr" where
  "dump_action a = pack ([pn_schema_version a, pn_action_id a, if pn_kind a = SELECT_PICK then [] else [1],
     pack_time (pn_created_at a), case pn_subject_id a of None \<Rightarrow> [] | Some x \<Rightarrow> x] @ pn_candidate_pick_ids a)"

definition parse_action :: "pystr \<Rightarrow> pending_action option" where
  "parse_action p = (case unpack p of
     Some (v # i # k # t # x # ids) \<Rightarrow> map_option (\<lambda>at. \<lparr>pn_schema_version = v, pn_action_id = i,
       pn_kind = (if k = [] then SELECT_PICK else PROVIDE_ORDER_OWNERSHIP), pn_created_at = at,
       pn_subject_id = (if x = [] then None else Some x), pn_candidate_pick_ids = ids\<rparr>) (unpack_time t)
   | _ \<Rightarrow> None)"

definition plain_scopes :: "conversation_scope set" where
  "plain_scopes = {c. 31 \<notin> set (sc_channel_account_id c)}"

lemma plain_scopes_inj: "inj_on (conversation_scope_digest id) plain_scopes"
  by (rule inj_onI) (auto simp: plain_scopes_def conversation_scope_digest_def intro: scope_identity_inj)

lemma parse_dump_reference: "valid_active_pick_reference v \<Longrightarrow> parse_reference (dump_reference v) = Some v"
  by (cases "ap_source v") (simp_all add: dump_reference_def parse_reference_def valid_defs)

lemma parse_dump_action: "valid_pending_action v \<Longrightarrow> parse_action (dump_action v) = Some v"
  by (cases "pn_kind v"; cases "pn_subject_id v") (auto simp: dump_action_def parse_action_def valid_pending_action_def)

interpretation local_state: redis_state memory_redis ks_view id "60" plain_scopes
  by unfold_locales (simp_all add: plain_scopes_inj)

interpretation local_active: active_pick_state memory_redis ks_view id "60" plain_scopes dump_reference parse_reference
  by unfold_locales (rule parse_dump_reference)

interpretation local_pending: pending_action_state memory_redis ks_view id "60" plain_scopes dump_action parse_action
  by unfold_locales (rule parse_dump_action)

section \<open>Properties\<close>

context active_pick_state
begin

lemma get_found:
  assumes "active_pick_get ops sha parse c s = (Inr r, s')" "ar_reference r = Some v"
  shows "active_fetch ops sha parse c s = (Some (Some v), s')"
  using assms by (auto simp: active_fetch_def active_pick_get_def construct_def valid_defs
      split: prod.splits option.splits sum.splits if_splits)

lemma get_was_set:
  assumes "store_run (active_put ops sha ttl dump) (active_fetch ops sha parse)
      (\<lambda>c s. snd (active_pick_clear ops sha c s)) (decoded view (active_pick_key_for sha) parse) C
      valid_active_pick_reference s0 h s"
    and "c \<in> C" "active_pick_get ops sha parse c s = (Inr r, s')" "ar_reference r = Some v"
  shows "(c, v) \<in> set h \<or> decoded view (active_pick_key_for sha) parse s0 c = Some v"
  using active.fetched_was_put [OF assms(1,2) get_found [OF assms(3,4)]] .

end

text \<open>
  C26. Active-pick state does not leak between conversations. After any run of writes, reads,
  clears and expiries over the scopes in use, with lost requests and replies, a reference read for a
  scope is one that was written for that very scope (or was there at the start).
\<close>

theorem active_pick_isolated:
  assumes "redis_server ops view" and "0 < ttl"
    and "inj_on (conversation_scope_digest sha) C"
    and "\<And>x. valid_active_pick_reference x \<Longrightarrow> parse (dump x) = Some x"
    and "store_run (active_put ops sha ttl dump) (active_fetch ops sha parse)
      (\<lambda>c s. snd (active_pick_clear ops sha c s)) (decoded view (active_pick_key_for sha) parse) C
      valid_active_pick_reference s0 h s"
    and "c \<in> C" "active_pick_get ops sha parse c s = (Inr r, s')" "ar_reference r = Some v"
  shows "(c, v) \<in> set h \<or> decoded view (active_pick_key_for sha) parse s0 c = Some v"
proof -
  have "active_pick_state ops view sha ttl C dump parse"
    using assms(1-4) by (simp add: active_pick_state_def active_pick_state_axioms_def redis_state_def
        redis_state_axioms_def)
  from active_pick_state.get_was_set [OF this assms(5-8)] show ?thesis .
qed

definition sample_reference :: active_pick_reference where
  "sample_reference = \<lparr>ap_schema_version = lit ''1.0'', ap_pick_id = lit ''p1'', ap_commerce_id = lit ''c1'',
     ap_selected_at = Aware 5, ap_source = EXPLICIT_REFERENCE\<rparr>"

lemma sample_reference_ok: "valid_active_pick_reference sample_reference"
  by (simp add: sample_reference_def valid_defs)

lemma sample_scope_plain: "sample_scope \<in> plain_scopes"
  by (simp add: plain_scopes_def sample_scope_def lit_def)

definition sample_stored :: keyspace where
  "sample_stored = ks_put (active_pick_key_for id sample_scope) (dump_reference sample_reference) 60 (fresh_keyspace [])"

lemma sample_put:
  "active_put memory_redis id 60 dump_reference sample_scope sample_reference (fresh_keyspace [])
    = (True, sample_stored)"
  by (simp add: active_put_def active_pick_set_def memory_redis_def ks_command_def ks_set_def
      fresh_keyspace_def construct_def valid_defs sample_stored_def)

lemma sample_get:
  "active_pick_get memory_redis id parse_reference sample_scope sample_stored
    = (Inr \<lparr>ar_status = STATE_FOUND, ar_reference = Some sample_reference\<rparr>, sample_stored)"
proof -
  have "ks_command (\<lambda>s. (ks_view s (active_pick_key_for id sample_scope), s)) sample_stored
      = (Some (Some (dump_reference sample_reference)), sample_stored)"
    by (simp add: ks_command_def sample_stored_def ks_put_def fresh_keyspace_def ks_view_def)
  then show ?thesis
    by (simp add: active_pick_get_def memory_redis_def parse_dump_reference [OF sample_reference_ok]
        construct_def valid_active_pick_read_def)
qed

theorem active_pick_isolated_witness:
  "\<exists>h. store_run (active_put memory_redis id 60 dump_reference) (active_fetch memory_redis id parse_reference)
      (\<lambda>c s. snd (active_pick_clear memory_redis id c s))
      (decoded ks_view (active_pick_key_for id) parse_reference) plain_scopes valid_active_pick_reference
      (fresh_keyspace []) h sample_stored
    \<and> ((sample_scope, sample_reference) \<in> set h
       \<or> decoded ks_view (active_pick_key_for id) parse_reference (fresh_keyspace []) sample_scope
          = Some sample_reference)"
proof -
  have "store_run (active_put memory_redis id 60 dump_reference) (active_fetch memory_redis id parse_reference)
      (\<lambda>c s. snd (active_pick_clear memory_redis id c s))
      (decoded ks_view (active_pick_key_for id) parse_reference) plain_scopes valid_active_pick_reference
      (fresh_keyspace []) [(sample_scope, sample_reference)] sample_stored"
    by (intro store_run.after_put [where ?s = "fresh_keyspace []" and ?b = True]
        store_run.begun sample_scope_plain sample_reference_ok sample_put)
  with active_pick_isolated [OF mem.redis_server_axioms _ plain_scopes_inj parse_dump_reference this
      sample_scope_plain sample_get] show ?thesis by auto
qed

text \<open>
  C27. A pending action is consumed at most once. After \<open>consume\<close> returned an action, and as long as
  no new action was stored for the conversation, neither \<open>consume\<close> nor \<open>get\<close> returns one again, also
  when the payload was unreadable, expired or the connection fails.
\<close>

theorem pending_consumed_once:
  assumes "redis_server ops view"
    and first: "consume ops sha parse c s = (Inr r, s1)" "pr_status r = PENDING_FOUND"
    and between: "view s2 (pending_key_for sha c) \<in> {None, view s1 (pending_key_for sha c)}"
    and second: "consume ops sha parse c s2 = (Inr r2, s3)" "pending_get ops sha parse c s2 = (Inr r3, s4)"
  shows "pr_status r2 \<noteq> PENDING_FOUND \<and> pr_status r3 \<noteq> PENDING_FOUND"
proof -
  from first obtain p where "rd_getdel ops (pending_key_for sha c) s = (Some p, s1)"
    by (auto simp: consume_def pending_parse_def split: prod.splits option.splits)
  from redis_server.getdel_replied [OF assms(1) this] between
  have gone: "view s2 (pending_key_for sha c) = None" by simp
  have "pr_status r2 \<noteq> PENDING_FOUND"
    using second(1) redis_server.getdel_replied [OF assms(1), of "pending_key_for sha c" s2] gone
    by (fastforce simp: consume_def pending_parse_def split: prod.splits option.splits)
  moreover have "pr_status r3 \<noteq> PENDING_FOUND"
    using second(2) redis_server.get_replied [OF assms(1), of "pending_key_for sha c" s2] gone
    by (fastforce simp: pending_get_def pending_parse_def split: prod.splits option.splits)
  ultimately show ?thesis ..
qed

definition sample_action :: pending_action where
  "sample_action = \<lparr>pn_schema_version = lit ''1.0'', pn_action_id = replicate 36 48, pn_kind = SELECT_PICK,
     pn_created_at = Aware 5, pn_subject_id = None, pn_candidate_pick_ids = [lit ''p1'', lit ''p2'']\<rparr>"

lemma sample_action_ok: "valid_pending_action sample_action"
  by (simp add: sample_action_def valid_defs strip_eq_Nil) (simp add: lit_def is_space_def)

definition sample_pending :: keyspace where
  "sample_pending = \<lparr>ks_data = [pending_key_for id sample_scope \<mapsto> (dump_action sample_action, 60)],
     ks_now = 0, ks_faults = []\<rparr>"

lemma sample_consume:
  "consume memory_redis id parse_action sample_scope sample_pending
    = (Inr \<lparr>pr_status = PENDING_FOUND, pr_action = Some sample_action\<rparr>, fresh_keyspace [])"
  "consume memory_redis id parse_action sample_scope (fresh_keyspace [])
    = (Inr \<lparr>pr_status = PENDING_MISSING, pr_action = None\<rparr>, fresh_keyspace [])"
  "pending_get memory_redis id parse_action sample_scope (fresh_keyspace [])
    = (Inr \<lparr>pr_status = PENDING_MISSING, pr_action = None\<rparr>, fresh_keyspace [])"
  by (simp_all add: consume_def pending_get_def memory_redis_def ks_command_def sample_pending_def ks_view_def
      ks_drop_def pending_parse_def parse_dump_action [OF sample_action_ok] construct_def
      valid_pending_action_read_def fresh_keyspace_def)

theorem pending_consumed_once_witness:
  "pr_action \<lparr>pr_status = PENDING_FOUND, pr_action = Some sample_action\<rparr> \<noteq> None
   \<and> fst (consume memory_redis id parse_action sample_scope sample_pending)
     = Inr \<lparr>pr_status = PENDING_FOUND, pr_action = Some sample_action\<rparr>
   \<and> PENDING_MISSING \<noteq> PENDING_FOUND"
  using pending_consumed_once [OF mem.redis_server_axioms sample_consume(1) _ _ sample_consume(2,3)]
  by (simp add: sample_consume)

end
