(* ===== verification/Handoffs.thy ===== *)
theory Handoffs
  imports Conversations
begin

text \<open>
  Requests for a human, \<open>src/src/piki/db/handoffs.py\<close>: a handoff row and the workflow status of its
  conversation, inside a session of the caller.
\<close>

record handoff_request =
  hr_conversation_id :: uuid
  hr_idempotency_key :: pystr
  hr_reason :: pystr
  hr_trace_id :: pystr

definition valid_handoff_request :: "handoff_request \<Rightarrow> bool" where
  [valid_defs]: "valid_handoff_request r \<longleftrightarrow> len_between 1 255 (hr_idempotency_key r)
     \<and> len_between 1 500 (hr_reason r) \<and> len_between 1 128 (hr_trace_id r)"

record persisted_handoff =
  ph_id :: uuid
  ph_conversation_id :: uuid
  ph_status :: handoff_status
  ph_reason :: pystr
  ph_trace_id :: pystr
  ph_created_at :: micros
  ph_created :: bool

definition new_handoff :: "micros \<Rightarrow> uuid \<Rightarrow> handoff_request \<Rightarrow> handoff_row" where
  "new_handoff now hid r =
     \<lparr>ho_id = hid, ho_conversation_id = hr_conversation_id r, ho_idempotency_key = hr_idempotency_key r,
      ho_status = HO_REQUESTED, ho_reason = hr_reason r, ho_trace_id = hr_trace_id r, ho_created_at = now,
      ho_resolved_at = None\<rparr>"

definition handoff_conflict :: "handoff_row \<Rightarrow> database \<Rightarrow> bool" where
  "handoff_conflict row d \<longleftrightarrow> conflicts (pk ho_id) (handoffs d) row
     \<or> conflicts uq_handoffs_conversation_idempotency (handoffs d) row
     \<or> conflicts uq_handoffs_one_open_per_conversation (handoffs d) row"

definition handoff_matches :: "handoff_request \<Rightarrow> handoff_row \<Rightarrow> bool" where
  "handoff_matches r h \<longleftrightarrow> ho_conversation_id h = hr_conversation_id r
     \<and> (ho_idempotency_key h = hr_idempotency_key r \<or> ho_status h \<in> set [HO_REQUESTED, HO_CLAIMED])"

definition existing_handoff :: "handoff_request \<Rightarrow> database \<Rightarrow> handoff_row res" where
  "existing_handoff r d =
     one (take 1 (sort_key (\<lambda>h. (ho_created_at h, ho_id h)) (filter (handoff_matches r) (handoffs d))))"

definition needs_human :: "micros \<Rightarrow> uuid \<Rightarrow> database \<Rightarrow> database" where
  "needs_human now cid d = d\<lparr>conversations := update_where (\<lambda>c. cv_id c = cid)
     (\<lambda>c. c\<lparr>cv_status := CW_NEEDS_HUMAN, cv_updated_at := now\<rparr>) (conversations d)\<rparr>"

definition persisted_handoff_of :: "bool \<Rightarrow> handoff_row \<Rightarrow> persisted_handoff" where
  "persisted_handoff_of created h =
     \<lparr>ph_id = ho_id h, ph_conversation_id = ho_conversation_id h, ph_status = ho_status h,
      ph_reason = ho_reason h, ph_trace_id = ho_trace_id h, ph_created_at = ho_created_at h,
      ph_created = created\<rparr>"

definition request_handoff ::
  "micros \<Rightarrow> uuid \<Rightarrow> handoff_request \<Rightarrow> database \<Rightarrow> persisted_handoff res \<times> database" where
  "request_handoff now hid r d =
     (let row = new_handoff now hid r
      in if \<not> (varchar 255 (hr_idempotency_key r) \<and> varchar 500 (hr_reason r) \<and> varchar 128 (hr_trace_id r))
         then (Inl DataError, d)
         else if handoff_conflict row d then
           (case existing_handoff r d of
              Inl e \<Rightarrow> (Inl e, d)
            | Inr h \<Rightarrow> (Inr (persisted_handoff_of False h), needs_human now (hr_conversation_id r) d))
         else if hr_conversation_id r \<notin> set (map cv_id (conversations d)) then (Inl IntegrityError, d)
         else (Inr (persisted_handoff_of True row),
               needs_human now (hr_conversation_id r) (d\<lparr>handoffs := handoffs d @ [row]\<rparr>)))"

section \<open>Properties\<close>

lemma needs_human_db_ok: "db_ok d \<Longrightarrow> db_ok (needs_human now cid d)"
  unfolding needs_human_def by (rule db_ok_touch_conversations) (simp_all add: uq_defs)

lemma needs_human_handoffs [simp]: "handoffs (needs_human now cid d) = handoffs d"
  by (simp add: needs_human_def)

lemma needs_human_status:
  assumes "c \<in> set (conversations (needs_human now cid d))" "cv_id c = cid"
  shows "cv_status c = CW_NEEDS_HUMAN"
proof -
  from assms(1) obtain x where "c = (if cv_id x = cid
      then x\<lparr>cv_status := CW_NEEDS_HUMAN, cv_updated_at := now\<rparr> else x)"
    by (auto simp: needs_human_def in_update_where)
  with assms(2) show ?thesis by (cases "cv_id x = cid") simp_all
qed

lemma existing_handoff_Inr: "existing_handoff r d = Inr h \<Longrightarrow> h \<in> set (handoffs d) \<and> handoff_matches r h"
proof -
  assume "existing_handoff r d = Inr h"
  then have "h \<in> set (take 1 (sort_key (\<lambda>h. (ho_created_at h, ho_id h)) (filter (handoff_matches r) (handoffs d))))"
    by (simp add: existing_handoff_def)
  from in_set_takeD [OF this] show ?thesis by simp
qed

lemma existing_handoff_found:
  assumes "h \<in> set (handoffs d)" "handoff_matches r h"
  shows "\<exists>h'. existing_handoff r d = Inr h'"
proof (cases "sort_key (\<lambda>h. (ho_created_at h, ho_id h)) (filter (handoff_matches r) (handoffs d))")
  case Nil
  have "h \<in> set (sort_key (\<lambda>h. (ho_created_at h, ho_id h)) (filter (handoff_matches r) (handoffs d)))"
    using assms by simp
  with Nil show ?thesis by simp
next
  case (Cons x xs)
  then show ?thesis by (simp add: existing_handoff_def)
qed

lemma handoff_conflict_iff:
  assumes "hid \<notin> set (map ho_id (handoffs d))"
  shows "handoff_conflict (new_handoff now hid r) d \<longleftrightarrow> (\<exists>h \<in> set (handoffs d). handoff_matches r h)"
proof -
  let ?row = "new_handoff now hid r"
  have "\<not> conflicts (pk ho_id) (handoffs d) ?row"
    using assms by (auto simp: conflicts_def pk_def new_handoff_def)
  moreover have "conflicts uq_handoffs_conversation_idempotency (handoffs d) ?row \<longleftrightarrow>
      (\<exists>h \<in> set (handoffs d). ho_conversation_id h = hr_conversation_id r
        \<and> ho_idempotency_key h = hr_idempotency_key r)"
    by (simp add: conflicts_def uq_defs new_handoff_def image_iff) metis
  moreover have "conflicts uq_handoffs_one_open_per_conversation (handoffs d) ?row \<longleftrightarrow>
      (\<exists>h \<in> set (handoffs d). ho_conversation_id h = hr_conversation_id r \<and> handoff_open h)"
    by (auto simp: conflicts_def uq_defs new_handoff_def image_iff handoff_open_def) force+
  ultimately show ?thesis by (auto simp: handoff_conflict_def handoff_matches_def handoff_open_def)
qed

text \<open>
  C30. A request for a human always succeeds on an existing conversation and is idempotent: the
  conversation becomes \<open>needs_human\<close>, constraints hold (so a conversation never has two open
  handoffs), the returned handoff belongs to that conversation and answers the request, and either
  one handoff was added or, when one already matched, none.
\<close>

theorem request_handoff_total:
  assumes "db_ok d" "valid_handoff_request r" "hr_conversation_id r \<in> set (map cv_id (conversations d))"
    and "hid \<notin> set (map ho_id (handoffs d))"
    and "0 \<notin> set (hr_idempotency_key r @ hr_reason r @ hr_trace_id r)"
  shows "\<exists>h d'. request_handoff now hid r d = (Inr h, d') \<and> db_ok d'
    \<and> (\<forall>c \<in> set (conversations d'). cv_id c = hr_conversation_id r \<longrightarrow> cv_status c = CW_NEEDS_HUMAN)
    \<and> ph_conversation_id h = hr_conversation_id r
    \<and> (\<exists>row \<in> set (handoffs d'). ho_id row = ph_id h \<and> handoff_matches r row)
    \<and> (if ph_created h then handoffs d' = handoffs d @ [new_handoff now hid r] else handoffs d' = handoffs d)
    \<and> (ph_created h \<longleftrightarrow> \<not> (\<exists>row \<in> set (handoffs d). handoff_matches r row))"
proof -
  let ?row = "new_handoff now hid r"
  have cols: "varchar 255 (hr_idempotency_key r)" "varchar 500 (hr_reason r)" "varchar 128 (hr_trace_id r)"
    using assms(2,5) by (auto simp: varchar_def valid_defs)
  show ?thesis
  proof (cases "handoff_conflict ?row d")
    case True
    from True handoff_conflict_iff [OF assms(4)] obtain h0 where
      h0: "h0 \<in> set (handoffs d)" "handoff_matches r h0" by blast
    from existing_handoff_found [OF h0] obtain h where h: "existing_handoff r d = Inr h" by blast
    note hm = existing_handoff_Inr [OF h]
    have "request_handoff now hid r d
        = (Inr (persisted_handoff_of False h), needs_human now (hr_conversation_id r) d)"
      using True cols h by (simp add: request_handoff_def)
    moreover have "ho_conversation_id h = hr_conversation_id r" using hm by (simp add: handoff_matches_def)
    ultimately show ?thesis using needs_human_db_ok [OF assms(1)] needs_human_status hm
      by (auto simp: persisted_handoff_of_def)
  next
    case False
    let ?d = "d\<lparr>handoffs := handoffs d @ [?row]\<rparr>"
    have "db_ok ?d"
      using assms(1,3) False
      by (simp add: db_ok_def db_unique_def db_foreign_keys_def unique_on_append1 handoff_conflict_def)
        (simp add: new_handoff_def)
    moreover have "request_handoff now hid r d
        = (Inr (persisted_handoff_of True ?row), needs_human now (hr_conversation_id r) ?d)"
      using False cols assms(3) by (simp add: request_handoff_def Let_def)
    moreover have "\<not> (\<exists>row \<in> set (handoffs d). handoff_matches r row)"
      using False handoff_conflict_iff [OF assms(4)] by blast
    moreover have "handoff_matches r ?row" by (simp add: handoff_matches_def new_handoff_def)
    ultimately show ?thesis using needs_human_db_ok needs_human_status
      by (auto simp: persisted_handoff_of_def new_handoff_def)
  qed
qed

definition sample_handoff :: handoff_request where
  "sample_handoff = \<lparr>hr_conversation_id = 5, hr_idempotency_key = lit ''handoff:wamid.1'',
     hr_reason = lit ''customer_requested_human'', hr_trace_id = lit ''t1''\<rparr>"

theorem request_handoff_total_witness:
  "\<exists>h d'. request_handoff 20 9 sample_handoff
      (empty_db\<lparr>conversations := [new_conversation 10 5 (lit ''pn1'') sample_inbound]\<rparr>) = (Inr h, d')
    \<and> ph_created h \<and> length (handoffs d') = 1"
proof -
  let ?d = "empty_db\<lparr>conversations := [new_conversation 10 5 (lit ''pn1'') sample_inbound]\<rparr>"
  have "db_ok ?d"
    by (simp add: db_ok_def db_unique_def db_foreign_keys_def empty_db_def unique_on_def
        List.map_filter_simps pk_def uq_defs)
  from request_handoff_total [OF this, of sample_handoff 9 20] show ?thesis
    by (auto simp: sample_handoff_def valid_defs empty_db_def new_conversation_def lit_def)
qed

end
