(* ===== verification/Processing.thy ===== *)
theory Processing
  imports Conversations Interfaces
begin

text \<open>
  The inbound work queue, \<open>src/src/piki/db/processing.py\<close>: claiming the next due message, completing
  and failing it. \<open>locked\<close> is the set of message rows locked by other transactions, which
  \<open>FOR UPDATE SKIP LOCKED\<close> leaves out; times are the process clock.
\<close>

section \<open>Data\<close>

record claimed_inbound =
  ci_message_record_id :: uuid
  ci_conversation_record_id :: uuid
  ci_channel_account_id :: pystr
  ci_message :: inbound_message
  ci_attempts :: int

definition valid_claimed_inbound :: "claimed_inbound \<Rightarrow> bool" where
  [valid_defs]: "valid_claimed_inbound c \<longleftrightarrow> len_between 1 255 (ci_channel_account_id c) \<and> 1 \<le> ci_attempts c"

section \<open>Operations\<close>

text \<open>SQL comparisons with NULL are not true.\<close>

definition not_after :: "micros option \<Rightarrow> micros \<Rightarrow> bool" where
  "not_after t limit = (case t of None \<Rightarrow> False | Some x \<Rightarrow> x \<le> limit)"

definition claimable :: "micros \<Rightarrow> micros \<Rightarrow> message_row \<Rightarrow> bool" where
  "claimable now stale_before m \<longleftrightarrow> ms_direction m = INBOUND
     \<and> ((ms_processing_status m = Some PS_PENDING \<and> not_after (ms_processing_available_at m) now)
        \<or> (ms_processing_status m = Some PS_PROCESSING \<and> not_after (ms_processing_claimed_at m) stale_before))"

text \<open>\<open>ORDER BY processing_available_at, created_at\<close>; PostgreSQL sorts NULL last.\<close>

definition due_order :: "message_row \<Rightarrow> bool \<times> micros \<times> micros" where
  "due_order m = (case ms_processing_available_at m of
     None \<Rightarrow> (True, 0, ms_created_at m) | Some t \<Rightarrow> (False, t, ms_created_at m))"

definition joined :: "database \<Rightarrow> message_row \<Rightarrow> (message_row \<times> conversation_row) list" where
  "joined d m = map (\<lambda>c. (m, c)) (filter (\<lambda>c. cv_id c = ms_conversation_id m) (conversations d))"

definition claimed_row :: "micros \<Rightarrow> message_row \<Rightarrow> message_row" where
  "claimed_row now m = m\<lparr>ms_processing_status := Some PS_PROCESSING,
     ms_processing_attempts := ms_processing_attempts m + 1, ms_processing_claimed_at := Some now,
     ms_processing_error_code := None\<rparr>"

definition claimed_message :: "message_row \<Rightarrow> conversation_row \<Rightarrow> claimed_inbound res" where
  "claimed_message m c =
     (case ms_external_message_id m of
        None \<Rightarrow> Inl RuntimeError
      | Some ext \<Rightarrow>
        rbind (construct valid_inbound_message
          \<lparr>im_message_id = ext, im_channel = cv_channel c, im_conversation_id = cv_external_conversation_id c,
           im_sender_id = cv_external_conversation_id c, im_kind = ms_kind m, im_text = ms_content_text m,
           im_received_at = Aware (ms_created_at m), im_metadata = []\<rparr>) (\<lambda>msg.
        construct valid_claimed_inbound
          \<lparr>ci_message_record_id = ms_id m, ci_conversation_record_id = cv_id c,
           ci_channel_account_id = cv_channel_account_id c, ci_message = msg,
           ci_attempts = ms_processing_attempts m\<rparr>))"

definition claim_next_body ::
  "uuid set \<Rightarrow> micros \<Rightarrow> int \<Rightarrow> database \<Rightarrow> claimed_inbound option res \<times> database" where
  "claim_next_body locked now timeout_seconds d =
     (let stale_before = now - timeout_seconds * 1000000;
          due = filter (\<lambda>m. claimable now stale_before m \<and> ms_id m \<notin> locked) (messages d);
          rows = concat (map (joined d) (sort_key due_order due))
      in case one_or_none (take 1 rows) of
           Inl e \<Rightarrow> (Inl e, d)
         | Inr None \<Rightarrow> (Inr None, d)
         | Inr (Some (m, c)) \<Rightarrow>
           (rbind (claimed_message (claimed_row now m) c) (\<lambda>job. Inr (Some job)),
            d\<lparr>messages := update_where (\<lambda>r. ms_id r = ms_id m) (claimed_row now) (messages d)\<rparr>))"

definition claim_next ::
  "uuid set \<Rightarrow> micros \<Rightarrow> int \<Rightarrow> database \<Rightarrow> claimed_inbound option res \<times> database" where
  "claim_next locked now timeout_seconds = session (claim_next_body locked now timeout_seconds)"

definition in_progress :: "uuid \<Rightarrow> message_row \<Rightarrow> bool" where
  "in_progress mid m \<longleftrightarrow> ms_id m = mid \<and> ms_processing_status m = Some PS_PROCESSING"

definition transitioned ::
  "processing_status \<Rightarrow> pystr option \<Rightarrow> micros option \<Rightarrow> message_row \<Rightarrow> message_row" where
  "transitioned status error_code available_at m = m\<lparr>ms_processing_status := Some status,
     ms_processing_available_at := available_at, ms_processing_claimed_at := None,
     ms_processing_error_code := error_code\<rparr>"

definition transition_body ::
  "uuid \<Rightarrow> processing_status \<Rightarrow> pystr option \<Rightarrow> micros option \<Rightarrow> database \<Rightarrow> unit res \<times> database" where
  "transition_body mid status error_code available_at d =
     (if \<not> opt_varchar 100 error_code then (Inl DataError, d)
      else case one_or_none (map ms_id (filter (in_progress mid) (messages d))) of
        Inl e \<Rightarrow> (Inl e, d)
      | Inr None \<Rightarrow> (Inl RuntimeError, d)
      | Inr (Some _) \<Rightarrow> (Inr (), d\<lparr>messages :=
          update_where (in_progress mid) (transitioned status error_code available_at) (messages d)\<rparr>))"

definition complete :: "uuid \<Rightarrow> database \<Rightarrow> unit res \<times> database" where
  "complete mid = session (transition_body mid PS_COMPLETED None None)"

definition fail :: "micros \<Rightarrow> uuid \<Rightarrow> pystr \<Rightarrow> bool \<Rightarrow> database \<Rightarrow> unit res \<times> database" where
  "fail now mid error_code retry =
     session (transition_body mid (if retry then PS_PENDING else PS_FAILED) (Some error_code)
       (if retry then Some (now + 1000000) else None))"

section \<open>What the operations do\<close>

lemma claim_next_Some:
  assumes "claim_next locked now timeout d = (Inr (Some job), d')"
  obtains m c where "m \<in> set (messages d)" "claimable now (now - timeout * 1000000) m" "ms_id m \<notin> locked"
    "c \<in> set (conversations d)" "cv_id c = ms_conversation_id m"
    "claimed_message (claimed_row now m) c = Inr job"
    "d' = d\<lparr>messages := update_where (\<lambda>r. ms_id r = ms_id m) (claimed_row now) (messages d)\<rparr>"
proof -
  let ?due = "filter (\<lambda>m. claimable now (now - timeout * 1000000) m \<and> ms_id m \<notin> locked) (messages d)"
  from assms obtain m c where
    t: "take 1 (concat (map (joined d) (sort_key due_order ?due))) = [(m, c)]"
    and rest: "claimed_message (claimed_row now m) c = Inr job"
      "d' = d\<lparr>messages := update_where (\<lambda>r. ms_id r = ms_id m) (claimed_row now) (messages d)\<rparr>"
    by (auto simp: claim_next_def session_Inr claim_next_body_def Let_def rbind_eq_Inr
        split: sum.splits option.splits)
  from t have "(m, c) \<in> set (take 1 (concat (map (joined d) (sort_key due_order ?due))))" by simp
  from in_set_takeD [OF this] show thesis by (auto simp: joined_def intro!: that rest)
qed

lemma claim_next_None:
  assumes "claim_next locked now timeout d = (Inr None, d')"
  shows "d' = d"
  using assms
  by (auto simp: claim_next_def session_Inr claim_next_body_def Let_def rbind_eq_Inr
      split: sum.splits option.splits)

lemma claim_next_raised: "claim_next locked now timeout d = (Inl e, d') \<Longrightarrow> d' = d"
  by (simp add: claim_next_def session_Inl)

lemma transition_Inr:
  "session (transition_body mid st err av) d = (Inr u, d') \<Longrightarrow>
   (\<exists>m \<in> set (messages d). in_progress mid m)
   \<and> d' = d\<lparr>messages := update_where (in_progress mid) (transitioned st err av) (messages d)\<rparr>"
  by (auto simp: session_Inr transition_body_def filter_empty_conv map_eq_Cons_conv
      dest!: filter_eq_singleD split: if_splits sum.splits option.splits)

lemma transition_raised: "session (transition_body mid st err av) d = (Inl e, d') \<Longrightarrow> d' = d"
  by (rule session_Inl)

lemma claimed_row_keeps [simp]:
  "ms_id (claimed_row now m) = ms_id m" "ms_external_message_id (claimed_row now m) = ms_external_message_id m"
  "ms_conversation_id (claimed_row now m) = ms_conversation_id m"
  "ms_direction (claimed_row now m) = ms_direction m"
  "ms_processing_available_at (claimed_row now m) = ms_processing_available_at m"
  by (simp_all add: claimed_row_def)

lemma transitioned_keeps [simp]:
  "ms_id (transitioned st err av m) = ms_id m"
  "ms_external_message_id (transitioned st err av m) = ms_external_message_id m"
  "ms_conversation_id (transitioned st err av m) = ms_conversation_id m"
  "ms_direction (transitioned st err av m) = ms_direction m"
  "ms_processing_attempts (transitioned st err av m) = ms_processing_attempts m"
  by (simp_all add: transitioned_def)

lemma db_ok_update_messages:
  assumes "db_ok d" and "\<And>r. ms_id (f r) = ms_id r"
    "\<And>r. ms_external_message_id (f r) = ms_external_message_id r"
    "\<And>r. ms_conversation_id (f r) = ms_conversation_id r"
  shows "db_ok (d\<lparr>messages := update_where q f (messages d)\<rparr>)"
proof -
  have "unique_on (pk ms_id) (update_where q f (messages d)) = unique_on (pk ms_id) (messages d)"
    "unique_on uq_messages_external_message_id (update_where q f (messages d))
      = unique_on uq_messages_external_message_id (messages d)"
    by (intro unique_on_update_where; simp add: pk_def uq_defs assms)+
  moreover have "ms_conversation_id ` set (update_where q f (messages d)) = ms_conversation_id ` set (messages d)"
    using assms(4) by (metis list.set_map map_update_where)
  then have "(\<forall>r \<in> set (update_where q f (messages d)). ms_conversation_id r \<in> A)
    \<longleftrightarrow> (\<forall>r \<in> set (messages d). ms_conversation_id r \<in> A)" for A
    by (metis (no_types, lifting) image_iff)
  ultimately show ?thesis
    using assms(1) by (simp add: db_ok_def db_unique_def db_foreign_keys_def)
qed

lemma claim_next_db_ok:
  assumes "db_ok d" "claim_next locked now timeout d = (r, d')"
  shows "db_ok d'"
proof (cases r)
  case (Inl e)
  with assms claim_next_raised show ?thesis by metis
next
  case (Inr x)
  show ?thesis
  proof (cases x)
    case None
    with assms Inr claim_next_None show ?thesis by metis
  next
    case (Some job)
    with assms(2) Inr show ?thesis
      by (auto elim!: claim_next_Some intro!: db_ok_update_messages assms(1))
  qed
qed

lemma transition_db_ok:
  assumes "db_ok d" "session (transition_body mid st err av) d = (r, d')"
  shows "db_ok d'"
proof (cases r)
  case (Inl e)
  with assms transition_raised show ?thesis by metis
next
  case (Inr u)
  with transition_Inr [of mid st err av d u d'] assms show ?thesis
    by (auto intro!: db_ok_update_messages)
qed

lemma db_ok_message_id_eq:
  "db_ok d \<Longrightarrow> m \<in> set (messages d) \<Longrightarrow> m' \<in> set (messages d) \<Longrightarrow> ms_id m = ms_id m' \<Longrightarrow> m = m'"
  by (rule unique_on_key_eq [of "pk ms_id" "messages d" m m' "ms_id m"])
    (auto simp: db_ok_def db_unique_def pk_def)

section \<open>Properties\<close>

text \<open>
  C9. A claim is exclusive for the claim timeout. While the row that a worker claimed at time \<open>t1\<close>
  is unchanged, no claim at a time before \<open>t1\<close> plus the timeout returns the same message, whatever
  else happened to the database.
\<close>

theorem claim_next_exclusive:
  assumes "db_ok d" and "claim_next locked t1 timeout d = (Inr (Some job), d1)"
    and "m1 \<in> set (messages d1)" "ms_id m1 = ci_message_record_id job"
    and "db_ok d2" "m1 \<in> set (messages d2)" and "t2 < t1 + timeout * 1000000"
    and "claim_next locked' t2 timeout d2 = (Inr (Some job2), d3)"
  shows "ci_message_record_id job2 \<noteq> ci_message_record_id job"
proof
  assume same: "ci_message_record_id job2 = ci_message_record_id job"
  from assms(2) obtain m c where m: "m \<in> set (messages d)"
    "claimed_message (claimed_row t1 m) c = Inr job"
    "d1 = d\<lparr>messages := update_where (\<lambda>r. ms_id r = ms_id m) (claimed_row t1) (messages d)\<rparr>"
    by (rule claim_next_Some)
  have "ci_message_record_id job = ms_id m"
    using m(2) by (auto simp: claimed_message_def rbind_eq_Inr split: option.splits)
  moreover have "db_ok d1" by (rule claim_next_db_ok [OF assms(1,2)])
  moreover have "claimed_row t1 m \<in> set (messages d1)"
    using updated_in [OF m(1), of "\<lambda>r. ms_id r = ms_id m" "claimed_row t1"] by (simp add: m(3))
  ultimately have m1: "m1 = claimed_row t1 m"
    using assms(3,4) by (metis claimed_row_keeps(1) db_ok_message_id_eq)
  from assms(8) obtain m' c' where m': "m' \<in> set (messages d2)" "claimable t2 (t2 - timeout * 1000000) m'"
    "claimed_message (claimed_row t2 m') c' = Inr job2"
    by (rule claim_next_Some)
  from m'(3) have "ci_message_record_id job2 = ms_id m'"
    by (auto simp: claimed_message_def rbind_eq_Inr split: option.splits)
  with same assms(4-6) m'(1) have "m' = m1" by (metis db_ok_message_id_eq)
  with m'(2) m1 assms(7) show False by (simp add: claimable_def claimed_row_def not_after_def)
qed

text \<open>The queue as a state machine: workers, and the repositories that add messages.\<close>

inductive queue_step :: "database \<Rightarrow> database \<Rightarrow> bool" where
  claimed: "claim_next locked now timeout d = (r, d') \<Longrightarrow> queue_step d d'"
| completed: "complete mid d = (r, d') \<Longrightarrow> queue_step d d'"
| failed: "fail now mid err retry d = (r, d') \<Longrightarrow> queue_step d d'"
| inbound: "record_inbound now clock cid mid account msg tid enqueue d = (Inr p, d') \<Longrightarrow> queue_step d d'"
| outbound: "record_outbound now mid cid text tid ext d = (Inr p, d') \<Longrightarrow> queue_step d d'"

definition settled :: "message_row \<Rightarrow> bool" where
  "settled m \<longleftrightarrow> ms_processing_status m \<in> {None, Some PS_COMPLETED, Some PS_FAILED}"

definition carries_on :: "message_row \<Rightarrow> message_row \<Rightarrow> bool" where
  "carries_on m m' \<longleftrightarrow> ms_id m' = ms_id m \<and> ms_processing_attempts m \<le> ms_processing_attempts m'
     \<and> (settled m \<longrightarrow> m' = m)"

lemma carries_on_refl [simp]: "carries_on m m"
  by (simp add: carries_on_def)

lemma transition_carries_on:
  assumes "session (transition_body mid st err av) d = (r, d')" "m \<in> set (messages d)"
  shows "\<exists>m' \<in> set (messages d'). carries_on m m'"
proof (cases r)
  case (Inl e)
  with assms transition_raised carries_on_refl show ?thesis by metis
next
  case (Inr u)
  with transition_Inr [of mid st err av d u d'] assms(1) have
    d': "messages d' = update_where (in_progress mid) (transitioned st err av) (messages d)" by simp
  from updated_in [OF assms(2), of "in_progress mid" "transitioned st err av"] show ?thesis
    unfolding d' by (rule bexI [rotated]) (simp add: carries_on_def settled_def in_progress_def)
qed

lemma claim_carries_on:
  assumes "db_ok d" "claim_next locked now timeout d = (r, d')" "m \<in> set (messages d)"
  shows "\<exists>m' \<in> set (messages d'). carries_on m m'"
proof (cases "d' = d")
  case False
  then obtain job where "claim_next locked now timeout d = (Inr (Some job), d')"
    using assms(2) by (cases r; cases "projr r") (auto dest: claim_next_raised claim_next_None)
  then obtain m0 where m0: "m0 \<in> set (messages d)" "claimable now (now - timeout * 1000000) m0"
    "d' = d\<lparr>messages := update_where (\<lambda>r. ms_id r = ms_id m0) (claimed_row now) (messages d)\<rparr>"
    by (rule claim_next_Some)
  have "carries_on m (if ms_id m = ms_id m0 then claimed_row now m else m)"
    using db_ok_message_id_eq [OF assms(1,3) m0(1)] m0(2)
    by (auto simp: carries_on_def settled_def claimable_def) (simp_all add: claimed_row_def)
  with updated_in [OF assms(3), of "\<lambda>r. ms_id r = ms_id m0" "claimed_row now"] show ?thesis
    unfolding m0(3) by (intro bexI) simp_all
qed (use assms(3) carries_on_refl in blast)

lemma record_outbound_messages:
  assumes "record_outbound now mid cid text tid ext d = (Inr p, d')"
  shows "set (messages d) \<subseteq> set (messages d')" "db_ok d \<Longrightarrow> db_ok d'"
proof -
  from assms obtain x where ins: "insert_message (outbound_row now mid cid text tid ext) d = (Inr x, d')"
    by (auto simp: record_outbound_def split: prod.splits sum.splits option.splits)
  then show "set (messages d) \<subseteq> set (messages d')"
    by (cases x) (auto simp: insert_message_Some insert_message_None)
  show "db_ok d'" if "db_ok d" using insert_message_db_ok [OF that ins] .
qed

lemma record_inbound_messages:
  assumes "record_inbound now clock cid mid account msg tid enqueue d = (Inr p, d')"
  shows "set (messages d) \<subseteq> set (messages d')"
  using assms
proof (rule record_inbound_Inr)
  fix conv d1 x
  assume up: "upsert_conversation now (new_conversation now cid account msg) d = (Inr conv, d1)"
    and ins: "insert_message (inbound_row now clock mid conv msg tid enqueue) d1 = (Inr x, d')"
  have "messages d1 = messages d" using up by (cases rule: upsert_conversation_Inr) simp_all
  with ins show ?thesis by (cases x) (auto simp: insert_message_Some insert_message_None)
qed

lemma queue_step_carries_on:
  assumes "queue_step d d'" "db_ok d"
  shows "db_ok d' \<and> (\<forall>m \<in> set (messages d). \<exists>m' \<in> set (messages d'). carries_on m m')"
  using assms
proof cases
  case (claimed locked now timeout r)
  then show ?thesis using claim_carries_on claim_next_db_ok assms(2) by metis
next
  case (completed mid r)
  then show ?thesis unfolding complete_def using transition_carries_on transition_db_ok assms(2) by metis
next
  case (failed now mid err retry r)
  then show ?thesis unfolding fail_def using transition_carries_on transition_db_ok assms(2) by metis
next
  case (inbound now clock cid mid account msg tid enqueue p)
  with record_inbound_messages [OF inbound] record_inbound_db_ok [OF assms(2) inbound] show ?thesis
    by (meson carries_on_refl subsetD)
next
  case (outbound now mid cid body tid ext p)
  with record_outbound_messages [OF outbound] assms(2) show ?thesis
    by (meson carries_on_refl subsetD)
qed

text \<open>
  C20. No message is lost and none is processed again once settled: along every interleaving of
  claims, completions, failures and new messages, each row stays, its number of attempts never
  decreases, and a row that is completed, failed or was never queued does not change any more.
\<close>

theorem queue_settles:
  assumes "queue_step\<^sup>*\<^sup>* d d'" and "db_ok d" and "m \<in> set (messages d)"
  shows "\<exists>m' \<in> set (messages d'). ms_id m' = ms_id m
    \<and> ms_processing_attempts m \<le> ms_processing_attempts m'
    \<and> (ms_processing_status m \<in> {None, Some PS_COMPLETED, Some PS_FAILED} \<longrightarrow> m' = m)"
proof -
  from assms(1) have "db_ok d' \<and> (\<exists>m' \<in> set (messages d'). carries_on m m')"
  proof (induction rule: rtranclp_induct)
    case base
    then show ?case using assms(2,3) carries_on_refl by blast
  next
    case (step y z)
    then obtain m1 where m1: "m1 \<in> set (messages y)" "carries_on m m1" and y: "db_ok y" by blast
    from queue_step_carries_on [OF step.hyps(2) y] m1(1) obtain m2 where
      "db_ok z" "m2 \<in> set (messages z)" "carries_on m1 m2" by blast
    moreover from this(3) m1(2) have "carries_on m m2" by (auto simp: carries_on_def)
    ultimately show ?case by blast
  qed
  then show ?thesis by (auto simp: carries_on_def settled_def)
qed

lemma joined_nonempty:
  assumes "db_ok d" "m \<in> set (messages d)"
  shows "\<exists>c cs. joined d m = (m, c) # cs"
proof -
  from assms have "ms_conversation_id m \<in> set (map cv_id (conversations d))"
    by (simp add: db_ok_def db_foreign_keys_def)
  then have "filter (\<lambda>c. cv_id c = ms_conversation_id m) (conversations d) \<noteq> []"
    by (auto simp: filter_empty_conv)
  then show ?thesis by (cases "filter (\<lambda>c. cv_id c = ms_conversation_id m) (conversations d)")
    (simp_all add: joined_def)
qed


section \<open>A concrete queue\<close>

definition sample_queue :: database where
  "sample_queue = empty_db\<lparr>conversations := [new_conversation 10 5 (lit ''pn1'') sample_inbound],
     messages := [inbound_row 10 11 2 5 sample_inbound (lit ''meta:wamid.1'') True]\<rparr>"

lemma sample_queue_ok: "db_ok sample_queue"
  using record_inbound_db_ok [OF db_ok_empty sample_record_inbound] by (simp add: sample_queue_def)

lemmas claim_eval = claim_next_def session_def claim_next_body_def Let_def sample_queue_def empty_db_def
  inbound_row_def new_conversation_def sample_inbound_def claimable_def not_after_def joined_def
  claimed_row_def claimed_message_def construct_def valid_defs strip_eq_Nil

definition sample_job :: claimed_inbound where
  "sample_job = \<lparr>ci_message_record_id = 2, ci_conversation_record_id = 5, ci_channel_account_id = lit ''pn1'',
     ci_message = sample_inbound\<lparr>im_received_at := Aware 10\<rparr>, ci_attempts = 1\<rparr>"

lemma sample_claim_next:
  "claim_next {} 100 300 sample_queue = (Inr (Some sample_job),
     sample_queue\<lparr>messages := [claimed_row 100 (inbound_row 10 11 2 5 sample_inbound (lit ''meta:wamid.1'') True)]\<rparr>)"
  by (simp add: claim_eval update_where_def sample_job_def) (simp add: lit_def is_space_def)

definition sample_other :: message_row where
  "sample_other = inbound_row 20 21 3 5 (sample_inbound\<lparr>im_message_id := lit ''wamid.2''\<rparr>) (lit ''meta:wamid.2'') True"

definition sample_queue2 :: database where
  "sample_queue2 = sample_queue\<lparr>messages := messages sample_queue @ [sample_other]\<rparr>"

lemma sample_queue2_ok: "db_ok sample_queue2"
proof -
  have "insert_message sample_other sample_queue = (Inr (Some 3), sample_queue2)"
    by (simp add: insert_message_Some sample_queue2_def sample_other_def sample_queue_def empty_db_def
        message_columns_ok_def inbound_row_def sample_inbound_def opt_varchar_def opt_text_def varchar_def
        conflicts_def uq_defs pk_def new_conversation_def) (simp add: lit_def)
  from insert_message_db_ok [OF sample_queue_ok this] show ?thesis .
qed

lemma sample_claims2:
  "\<exists>d1. claim_next {} 100 300 sample_queue2 = (Inr (Some sample_job), d1) \<and> messages d1
     = [claimed_row 100 (inbound_row 10 11 2 5 sample_inbound (lit ''meta:wamid.1'') True), sample_other]
     \<and> (\<exists>job2 d3. claim_next {} 100 300 d1 = (Inr (Some job2), d3))"
  by (simp add: sample_queue2_def sample_other_def claim_eval due_order_def update_where_def sample_job_def)
    (simp add: lit_def is_space_def)

theorem claim_next_exclusive_witness:
  "\<exists>d1 job2 d3. claim_next {} 100 300 sample_queue2 = (Inr (Some sample_job), d1)
     \<and> claim_next {} 100 300 d1 = (Inr (Some job2), d3) \<and> ci_message_record_id job2 \<noteq> 2"
proof -
  let ?m = "claimed_row 100 (inbound_row 10 11 2 5 sample_inbound (lit ''meta:wamid.1'') True)"
  obtain d1 job2 d3 where d1: "claim_next {} 100 300 sample_queue2 = (Inr (Some sample_job), d1)"
    "messages d1 = [?m, sample_other]" "claim_next {} 100 300 d1 = (Inr (Some job2), d3)"
    using sample_claims2 by blast
  have "db_ok d1" by (rule claim_next_db_ok [OF sample_queue2_ok d1(1)])
  from claim_next_exclusive [OF sample_queue2_ok d1(1) _ _ this _ _ d1(3), of ?m] d1 show ?thesis
    by (auto simp: sample_job_def inbound_row_def)
qed

theorem queue_settles_witness:
  "\<exists>d'. queue_step\<^sup>*\<^sup>* sample_queue d' \<and> (\<exists>m' \<in> set (messages d'). ms_id m' = 2 \<and> 0 \<le> ms_processing_attempts m')"
proof -
  have "queue_step\<^sup>*\<^sup>* sample_queue (snd (claim_next {} 100 300 sample_queue))"
    using queue_step.claimed [OF sample_claim_next] by (simp add: sample_claim_next)
  from queue_settles [OF this sample_queue_ok, of "inbound_row 10 11 2 5 sample_inbound (lit ''meta:wamid.1'') True"]
    this show ?thesis by (force simp: sample_queue_def inbound_row_def)
qed


end
