(* ===== verification/BuenPick_Models.thy ===== *)
theory BuenPick_Models
  imports Json
begin

text \<open>
  The data of the BuenPick internal API, \<open>src/src/piki/integrations/buenpick/models.py\<close>, and the
  formatting of amounts. URLs are their string form; \<open>opening_hours\<close> is the JSON value it is. A
  field that the source restricts to one literal is not stored.
\<close>

section \<open>Models\<close>

record commerce_summary =
  cs_id :: pystr
  cs_name :: pystr

record pick_summary =
  ps_id :: pystr
  ps_title :: pystr
  ps_description :: pystr
  ps_price :: int
  ps_original_price :: int
  ps_available_quantity :: int
  ps_image_url :: "pystr option"
  ps_commerce :: commerce_summary

definition valid_pick_summary :: "pick_summary \<Rightarrow> bool" where
  [valid_defs]: "valid_pick_summary p \<longleftrightarrow> 0 \<le> ps_price p \<and> 0 \<le> ps_original_price p \<and> 0 \<le> ps_available_quantity p"

record pick_search_response =
  sr_items :: "pick_summary list"
  sr_total :: int

definition valid_pick_search_response :: "pick_search_response \<Rightarrow> bool" where
  [valid_defs]: "valid_pick_search_response r \<longleftrightarrow> list_all valid_pick_summary (sr_items r) \<and> 0 \<le> sr_total r"

record pickup_window =
  pkw_starts_at :: datetime
  pkw_ends_at :: datetime

definition opt_nat :: "int option \<Rightarrow> bool" where
  "opt_nat x = (case x of None \<Rightarrow> True | Some n \<Rightarrow> 0 \<le> n)"

record fulfillment =
  fu_pickup :: bool
  fu_delivery_enabled :: bool
  fu_delivery_eta_min_minutes :: "int option"
  fu_delivery_eta_max_minutes :: "int option"

definition valid_fulfillment :: "fulfillment \<Rightarrow> bool" where
  [valid_defs]: "valid_fulfillment f \<longleftrightarrow> opt_nat (fu_delivery_eta_min_minutes f) \<and> opt_nat (fu_delivery_eta_max_minutes f)"

record pick_conditions =
  pc_quantity_available :: int
  pc_approx_weight_grams :: "int option"
  pc_fulfillment :: fulfillment

definition valid_pick_conditions :: "pick_conditions \<Rightarrow> bool" where
  [valid_defs]: "valid_pick_conditions c \<longleftrightarrow> 0 \<le> pc_quantity_available c \<and> opt_nat (pc_approx_weight_grams c)
     \<and> valid_fulfillment (pc_fulfillment c)"

record pick_commerce =
  pcm_id :: pystr
  pcm_name :: pystr
  pcm_description :: pystr
  pcm_address :: pystr
  pcm_city :: pystr
  pcm_zone :: pystr
  pcm_opening_hours :: json

record available_pick =
  av_id :: pystr
  av_title :: pystr
  av_description :: pystr
  av_price :: int
  av_original_price :: int
  av_available_quantity :: int
  av_image_url :: "pystr option"
  av_images :: "pystr list"
  av_category :: pystr
  av_pickup :: pickup_window
  av_conditions :: pick_conditions
  av_commerce :: pick_commerce
  av_public_url :: pystr

definition valid_available_pick :: "available_pick \<Rightarrow> bool" where
  [valid_defs]: "valid_available_pick p \<longleftrightarrow> 0 \<le> av_price p \<and> 0 \<le> av_original_price p \<and> 0 \<le> av_available_quantity p
     \<and> valid_pick_conditions (av_conditions p)"

record commerce_delivery =
  cd_enabled :: bool
  cd_fee_cents :: "int option"
  cd_eta_min_minutes :: "int option"
  cd_eta_max_minutes :: "int option"

record commerce =
  cm_id :: pystr
  cm_name :: pystr
  cm_slug :: pystr
  cm_description :: pystr
  cm_address :: pystr
  cm_city :: pystr
  cm_zone :: pystr
  cm_phone :: pystr
  cm_opening_hours :: json
  cm_pickup_instructions :: "pystr option"
  cm_delivery :: commerce_delivery
  cm_accepts_cash_on_pickup :: bool
  cm_logo_url :: "pystr option"
  cm_cover_url :: "pystr option"

definition valid_commerce :: "commerce \<Rightarrow> bool" where
  [valid_defs]: "valid_commerce c \<longleftrightarrow> opt_nat (cd_fee_cents (cm_delivery c))
     \<and> opt_nat (cd_eta_min_minutes (cm_delivery c)) \<and> opt_nat (cd_eta_max_minutes (cm_delivery c))"

record order_commerce =
  oc_id :: pystr
  oc_name :: pystr
  oc_address :: pystr
  oc_opening_hours :: json

record order_pick =
  op_pick_id :: pystr
  op_title :: pystr
  op_quantity :: int
  op_unit_price :: int
  op_line_total :: int
  op_image_url :: "pystr option"

definition valid_order_pick :: "order_pick \<Rightarrow> bool" where
  [valid_defs]: "valid_order_pick p \<longleftrightarrow> 0 < op_quantity p \<and> 0 \<le> op_unit_price p \<and> 0 \<le> op_line_total p"

datatype fulfillment_type = FT_PICKUP | FT_DELIVERY

record order_fulfillment =
  of_type :: fulfillment_type
  of_delivery_address :: "pystr option"
  of_delivery_notes :: "pystr option"
  of_pickup_code :: "pystr option"

record order_pickup =
  ou_instructions :: "pystr option"
  ou_store_address :: pystr

record order_dates =
  od_created_at :: datetime
  od_expires_at :: "datetime option"
  od_confirmed_at :: "datetime option"
  od_paid_at :: "datetime option"
  od_preparing_at :: "datetime option"
  od_ready_at :: "datetime option"
  od_out_for_delivery_at :: "datetime option"
  od_delivered_at :: "datetime option"
  od_picked_up_at :: "datetime option"

record customer_order =
  or_id :: pystr
  or_status :: pystr
  or_commerce :: order_commerce
  or_picks :: "order_pick list"
  or_total :: int
  or_fulfillment :: order_fulfillment
  or_pickup :: order_pickup
  or_dates :: order_dates

definition valid_customer_order :: "customer_order \<Rightarrow> bool" where
  [valid_defs]: "valid_customer_order r \<longleftrightarrow> list_all valid_order_pick (or_picks r) \<and> 0 \<le> or_total r"

section \<open>Amounts\<close>

text \<open>
  \<open>Decimal(cents) / Decimal(100)\<close> in the default context keeps 28 significant digits and rounds half
  to even; \<open>to_context\<close> is the amount in cents after that division.
\<close>

definition half_even :: "nat \<Rightarrow> nat \<Rightarrow> nat" where
  "half_even n q = (let d = n div q; r = 2 * (n mod q)
     in if r < q \<or> (r = q \<and> even d) then d else d + 1)"

definition to_context :: "nat \<Rightarrow> nat" where
  "to_context cents = (let n = length (dec_digits cents)
     in if n \<le> 28 then cents else half_even cents (10 ^ (n - 28)) * 10 ^ (n - 28))"

fun group_rev :: "nat \<Rightarrow> pystr \<Rightarrow> pystr" where
  "group_rev sep (a # b # c # d # rest) = a # b # c # sep # group_rev sep (d # rest)"
| "group_rev sep xs = xs"

definition two_digits :: "nat \<Rightarrow> pystr" where
  "two_digits n = [48 + n div 10, 48 + n mod 10]"

definition format_ars_cents :: "int \<Rightarrow> pystr res" where
  "format_ars_cents cents =
     (if cents < 0 then Inl ValueError
      else let amount = to_context (nat cents);
               localized_whole = rev (group_rev 46 (rev (dec_digits (amount div 100))))
           in Inr ([36] @ localized_whole @ [44] @ two_digits (amount mod 100)))"

lemma group_rev_digits: "sep \<notin> set xs \<Longrightarrow> filter (\<lambda>c. c \<noteq> sep) (group_rev sep xs) = xs"
  by (induction sep xs rule: group_rev.induct) auto

lemma group_rev_set: "set (group_rev sep xs) \<subseteq> insert sep (set xs)"
  by (induction sep xs rule: group_rev.induct) auto

lemma dec_digits_length: "n < 10 ^ k \<Longrightarrow> 0 < k \<Longrightarrow> length (dec_digits n) \<le> k"
proof (induction n arbitrary: k rule: dec_digits.induct)
  case (1 n)
  show ?case
  proof (cases "n < 10")
    case True
    with 1(3) show ?thesis by (simp add: dec_digits.simps [of n])
  next
    case False
    with 1(2) have "1 < k" by (cases k; cases "k - 1") auto
    then have "n div 10 < 10 ^ (k - 1)"
      using 1(2) by (simp add: less_mult_imp_div_less power_eq_if split: if_splits)
    with 1(1) [OF False this] \<open>1 < k\<close> show ?thesis using False by (simp add: dec_digits.simps [of n])
  qed
qed

lemma dec_value_append_digits: "dec_value (s @ t) = dec_value s * 10 ^ length t + dec_value t"
proof (induction t rule: rev_induct)
  case (snoc c t)
  have "s @ t @ [c] = (s @ t) @ [c]" by simp
  then show ?case using snoc by (simp only: dec_value_snoc) (simp add: algebra_simps)
qed (simp add: dec_value_def)

lemma dec_value_two_digits: "n < 100 \<Longrightarrow> dec_value (two_digits n) = n"
  by (simp add: two_digits_def dec_value_def)

definition is_digit :: "nat \<Rightarrow> bool" where
  "is_digit c \<longleftrightarrow> 48 \<le> c \<and> c \<le> 57"

text \<open>
  C34. Amounts are printed exactly: for every amount of fewer than 29 digits of cents the result is
  a dollar sign, the whole part, a comma and two decimals, and the number that its digits write is
  the number of cents. Hence two different prices never print alike.
\<close>

theorem format_ars_cents_exact:
  assumes "0 \<le> cents" and "cents < 10 ^ 28"
  shows "\<exists>whole decimals. format_ars_cents cents = Inr ([36] @ whole @ [44] @ decimals)
    \<and> length decimals = 2 \<and> set whole \<subseteq> {c. is_digit c} \<union> {46}
    \<and> dec_value (filter is_digit ([36] @ whole @ [44] @ decimals)) = nat cents"
proof -
  let ?n = "nat cents" and ?w = "dec_digits (nat cents div 100)"
  let ?g = "rev (group_rev 46 (rev ?w))"
  have "?n < 10 ^ 28" by (rule of_nat_less_imp_less [where 'a = int]) (use assms in simp)
  then have ctx: "to_context ?n = ?n" using dec_digits_length [of ?n 28] by (simp add: to_context_def)
  have digits: "is_digit c" if "c \<in> set ?w" for c
    using dec_digits_range [OF that] by (simp add: is_digit_def)
  from digits [of 46] have no: "46 \<notin> set (rev ?w)" by (auto simp: is_digit_def)
  have gset: "set ?g \<subseteq> {c. is_digit c} \<union> {46}"
    using group_rev_set [of 46 "rev ?w"] digits by auto
  have "filter is_digit ?g = filter (\<lambda>c. c \<noteq> 46) ?g"
    using gset by (intro filter_cong refl) (auto simp: is_digit_def)
  also have "\<dots> = ?w" using group_rev_digits [OF no] by (simp add: rev_filter [symmetric])
  finally have g: "filter is_digit ?g = ?w" .
  have two: "filter is_digit (two_digits (?n mod 100)) = two_digits (?n mod 100)"
    by (auto simp: two_digits_def is_digit_def)
  have "filter is_digit ([36] @ ?g @ [44] @ two_digits (?n mod 100)) = ?w @ two_digits (?n mod 100)"
    by (simp add: g two is_digit_def [of 36] is_digit_def [of 44])
  moreover have "dec_value (?w @ two_digits (?n mod 100)) = ?n div 100 * 10 ^ 2 + ?n mod 100"
    unfolding dec_value_append_digits dec_value_digits
    by (subst dec_value_two_digits) (simp_all add: two_digits_def)
  ultimately have val: "dec_value (filter is_digit ([36] @ ?g @ [44] @ two_digits (?n mod 100))) = ?n"
    by simp
  have len: "length (two_digits m) = 2" for m by (simp add: two_digits_def)
  have "\<not> cents < 0" using assms(1) by simp
  then have "format_ars_cents cents = Inr ([36] @ ?g @ [44] @ two_digits (?n mod 100))"
    unfolding format_ars_cents_def Let_def ctx by (simp only: if_False)
  then show ?thesis using gset val len by blast
qed

theorem format_ars_cents_exact_witness:
  "format_ars_cents 123456789 = Inr (lit ''$1.234.567,89'')
   \<and> dec_value (filter is_digit (lit ''$1.234.567,89'')) = 123456789"
proof -
  have f: "format_ars_cents 123456789 = Inr (lit ''$1.234.567,89'')"
    by (simp add: format_ars_cents_def Let_def to_context_def dec_digits.simps two_digits_def lit_def)
  from format_ars_cents_exact [of 123456789] f show ?thesis by auto
qed

end
