(* ===== verification/BuenPick_Client.thy ===== *)
theory BuenPick_Client
  imports BuenPick_Models Interfaces Events
begin

text \<open>
  The BuenPick client, \<open>src/src/piki/integrations/buenpick/client.py\<close>, and the read-only tools on top
  of it, \<open>src/src/piki/tools/buenpick.py\<close>. \<open>net path params n\<close> is what the network does with the
  \<open>n\<close>-th attempt of a request, \<open>quote\<close> is \<open>urllib.parse.quote(s, safe='')\<close>, and the \<open>validate\<close>
  arguments are the \<open>model_validate\<close> of the response models.
\<close>

section \<open>The client\<close>

type_synonym params = "(pystr \<times> pystr) list"
type_synonym network = "pystr \<Rightarrow> params \<Rightarrow> nat \<Rightarrow> http_outcome"

definition new_client :: "pystr option \<Rightarrow> pystr \<Rightarrow> int \<Rightarrow> bool \<Rightarrow> nat res" where
  "new_client host token max_attempts allow_production =
     (if host = Some (lit ''api.buenpick.com.ar'') \<and> \<not> allow_production then Inl BuenPickConfigurationError
      else if strip token = [] then Inl BuenPickConfigurationError
      else if max_attempts < 1 then Inl BuenPickConfigurationError
      else Inr (nat max_attempts))"

definition map_http_error :: "int \<Rightarrow> exn" where
  "map_http_error status =
     (if status = 400 then BuenPickClientError BAD_REQUEST
        (lit ''La consulta enviada a BuenPick no es valida.'') (Some status)
      else if status = 401 then BuenPickClientError UNAUTHORIZED
        (lit ''No pude validar el acceso o la pertenencia del recurso.'') (Some status)
      else if status = 404 then BuenPickClientError NOT_FOUND
        (lit ''No pude confirmar que el recurso siga disponible.'') (Some status)
      else if status = 429 then BuenPickClientError RATE_LIMITED
        (lit ''BuenPick esta recibiendo muchas consultas. Intenta nuevamente en breve.'') (Some status)
      else BuenPickClientError UPSTREAM_UNAVAILABLE
        (lit ''BuenPick no esta disponible en este momento.'') (Some status))"

definition parse_model :: "(json \<Rightarrow> 'm option) \<Rightarrow> json option \<Rightarrow> 'm res" where
  "parse_model validate body =
     (case Option.bind body validate of
        None \<Rightarrow> Inl (BuenPickClientError INTERNAL_ERROR
          (lit ''BuenPick devolvio una respuesta que no pude validar.'') None)
      | Some model \<Rightarrow> Inr model)"

text \<open>The attempts \<open>n\<close> to \<open>mx\<close>; the list holds the attempts that were followed by a pause.\<close>

function request_loop ::
  "(json \<Rightarrow> 'm option) \<Rightarrow> nat \<Rightarrow> (nat \<Rightarrow> http_outcome) \<Rightarrow> nat \<Rightarrow> 'm res \<times> nat list" where
  "request_loop validate mx net n =
     (if n > mx then (Inl AssertionError, [])
      else case net n of
        Http_Timeout \<Rightarrow>
          if n < mx then (let (r, pauses) = request_loop validate mx net (Suc n) in (r, n # pauses))
          else (Inl (BuenPickClientError TIMEOUT
            (lit ''No pude confirmar la informacion con BuenPick a tiempo.'') None), [])
      | Http_RequestError \<Rightarrow> (Inl (BuenPickClientError UPSTREAM_UNAVAILABLE
            (lit ''BuenPick no esta disponible en este momento.'') None), [])
      | Http_Response status body \<Rightarrow>
          if status \<in> set [429, 500, 503] \<and> n < mx
          then (let (r, pauses) = request_loop validate mx net (Suc n) in (r, n # pauses))
          else if is_error status then (Inl (map_http_error status), [])
          else (parse_model validate body, []))"
  by pat_completeness auto
termination by (relation "measure (\<lambda>(validate, mx, net, n). Suc mx - n)") auto

declare request_loop.simps [simp del]

definition request ::
  "nat \<Rightarrow> network \<Rightarrow> pystr \<Rightarrow> (json \<Rightarrow> 'm option) \<Rightarrow> params \<Rightarrow> 'm res" where
  "request mx net path validate params = fst (request_loop validate mx (net path params) 1)"

text \<open>The pause after attempt \<open>n\<close>, in tenths of a second.\<close>

definition pause_tenths :: "nat \<Rightarrow> nat" where
  "pause_tenths n = 2 ^ (n - 1)"

definition search_available_picks ::
  "nat \<Rightarrow> network \<Rightarrow> (json \<Rightarrow> pick_search_response option) \<Rightarrow> pystr option \<Rightarrow> pystr option
    \<Rightarrow> pick_search_response res" where
  "search_available_picks mx net validate query commerce_id =
     request mx net (lit ''picks/search'') validate
       ((if truthy query \<and> strip (or_empty query) \<noteq> [] then [(lit ''q'', strip (or_empty query))] else [])
        @ (if truthy commerce_id \<and> strip (or_empty commerce_id) \<noteq> []
           then [(lit ''commerce_id'', strip (or_empty commerce_id))] else []))"

definition get_available_pick ::
  "nat \<Rightarrow> network \<Rightarrow> (pystr \<Rightarrow> pystr) \<Rightarrow> (json \<Rightarrow> available_pick option) \<Rightarrow> pystr \<Rightarrow> available_pick res" where
  "get_available_pick mx net quote validate pick_id = request mx net (lit ''picks/'' @ quote pick_id) validate []"

definition get_commerce ::
  "nat \<Rightarrow> network \<Rightarrow> (pystr \<Rightarrow> pystr) \<Rightarrow> (json \<Rightarrow> commerce option) \<Rightarrow> pystr \<Rightarrow> commerce res" where
  "get_commerce mx net quote validate commerce_id =
     request mx net (lit ''commerces/'' @ quote commerce_id) validate []"

definition provided :: "pystr option \<Rightarrow> bool" where
  "provided x \<longleftrightarrow> truthy x \<and> strip (or_empty x) \<noteq> []"

definition order_params :: "pystr option \<Rightarrow> pystr option \<Rightarrow> params res" where
  "order_params customer_phone customer_reference =
     (if provided customer_phone = provided customer_reference
      then Inl (BuenPickClientError BAD_REQUEST (lit ''La orden requiere una unica prueba de pertenencia.'') None)
      else if truthy customer_phone then Inr [(lit ''customer_phone'', strip (or_empty customer_phone))]
      else Inr [(lit ''customer_reference'', strip (or_empty customer_reference))])"

definition get_customer_order ::
  "nat \<Rightarrow> network \<Rightarrow> (pystr \<Rightarrow> pystr) \<Rightarrow> (json \<Rightarrow> customer_order option)
    \<Rightarrow> pystr \<Rightarrow> pystr option \<Rightarrow> pystr option \<Rightarrow> customer_order res" where
  "get_customer_order mx net quote validate order_id customer_phone customer_reference =
     rbind (order_params customer_phone customer_reference) (\<lambda>params.
       request mx net (lit ''orders/'' @ quote order_id) validate params)"

definition create_checkout_session :: "unit res" where
  "create_checkout_session = Inl CheckoutDisabledError"

section \<open>The request loop\<close>

definition transient :: "http_outcome \<Rightarrow> bool" where
  "transient r = (case r of Http_Timeout \<Rightarrow> True | Http_RequestError \<Rightarrow> False
     | Http_Response status body \<Rightarrow> status \<in> set [429, 500, 503])"

definition finish :: "(json \<Rightarrow> 'm option) \<Rightarrow> http_outcome \<Rightarrow> 'm res" where
  "finish validate r = (case r of
     Http_Timeout \<Rightarrow> Inl (BuenPickClientError TIMEOUT
       (lit ''No pude confirmar la informacion con BuenPick a tiempo.'') None)
   | Http_RequestError \<Rightarrow> Inl (BuenPickClientError UPSTREAM_UNAVAILABLE
       (lit ''BuenPick no esta disponible en este momento.'') None)
   | Http_Response status body \<Rightarrow>
       if is_error status then Inl (map_http_error status) else parse_model validate body)"

interpretation buenpick: bounded_retry "request_loop validate" transient "finish validate" for validate
proof unfold_locales
  fix n mx :: nat and net :: "nat \<Rightarrow> http_outcome"
  assume "n < mx" "transient (net n)"
  then show "request_loop validate mx net n
      = (fst (request_loop validate mx net (Suc n)), n # snd (request_loop validate mx net (Suc n)))"
    by (subst request_loop.simps) (auto simp: transient_def split: http_outcome.splits prod.splits)
next
  fix n mx :: nat and net :: "nat \<Rightarrow> http_outcome"
  assume "n \<le> mx" "n = mx \<or> \<not> transient (net n)"
  then show "request_loop validate mx net n = (finish validate (net n), [])"
    by (subst request_loop.simps) (auto simp: transient_def finish_def is_error_def split: http_outcome.splits)
qed

lemma finish_classified:
  "(\<exists>m. finish validate r = Inr m) \<or> (\<exists>code msg st. finish validate r = Inl (BuenPickClientError code msg st))"
  by (auto simp: finish_def parse_model_def map_http_error_def split: http_outcome.splits option.splits)



text \<open>
  An order is asked for with one proof of ownership. When \<open>get_customer_order\<close> sends a request,
  it carries exactly one parameter, which is the stripped non-blank phone or reference that was
  given alone, with one exception: a phone that consists of white space, given with a reference,
  passes the check and is sent as an empty \<open>customer_phone\<close> in place of the reference.
\<close>

theorem order_params_proof:
  assumes "order_params customer_phone customer_reference = Inr params"
  shows "if truthy customer_phone \<and> strip (or_empty customer_phone) = []
    then provided customer_reference \<and> params = [(lit ''customer_phone'', [])]
    else if provided customer_phone
    then params = [(lit ''customer_phone'', strip (or_empty customer_phone))]
      \<and> strip (or_empty customer_phone) \<noteq> [] \<and> \<not> provided customer_reference
    else params = [(lit ''customer_reference'', strip (or_empty customer_reference))]
      \<and> strip (or_empty customer_reference) \<noteq> []"
  using assms
  by (cases "truthy customer_phone"; cases "strip (or_empty customer_phone) = []"; cases "truthy customer_reference";
      cases "strip (or_empty customer_reference) = []")
    (simp_all add: order_params_def provided_def)

theorem order_params_proof_witness:
  "order_params (Some (lit ''  '')) (Some (lit ''ref1'')) = Inr [(lit ''customer_phone'', [])]
   \<and> order_params None (Some (lit '' ref1'')) = Inr [(lit ''customer_reference'', lit ''ref1'')]
   \<and> provided (Some (lit ''ref1''))"
proof -
  have blank: "strip (lit ''  '') = []" "strip (lit ''ref1'') = lit ''ref1''" "strip (lit '' ref1'') = lit ''ref1''"
    by (simp_all add: strip_def rstrip_by_def lit_def is_space_def)
  have "order_params (Some (lit ''  '')) (Some (lit ''ref1'')) = Inr [(lit ''customer_phone'', [])]"
    "order_params None (Some (lit '' ref1'')) = Inr [(lit ''customer_reference'', lit ''ref1'')]"
    by (simp_all add: order_params_def provided_def blank)
  with order_params_proof [OF this(1)] blank show ?thesis by simp
qed

section \<open>The tools\<close>

record pick_image_evidence =
  ie_pick_id :: pystr
  ie_title :: pystr
  ie_image_url :: pystr

text \<open>
  \<open>_run\<close>: \<open>operation\<close> is the outcome of the client call, \<open>latency\<close> the measured milliseconds. Only
  \<open>BuenPickClientError\<close> becomes a tool result; the success event is emitted inside the \<open>try\<close>.
\<close>

definition run_tool ::
  "(nat \<Rightarrow> int) \<Rightarrow> int \<Rightarrow> pystr \<Rightarrow> pystr \<Rightarrow> 'd res \<Rightarrow> event_log \<Rightarrow> 'd tool_result res \<times> event_log" where
  "run_tool el latency tid tool_name operation log =
     (case emit el TOOL_STARTED tid tool_name EV_STARTED False None log of
        Inl e \<Rightarrow> (Inl e, log)
      | Inr log1 \<Rightarrow>
        (case operation of
           Inr data \<Rightarrow>
             (case emit el TOOL_FINISHED tid tool_name EV_SUCCEEDED True None log1 of
                Inl e \<Rightarrow> (Inl e, log1)
              | Inr log2 \<Rightarrow> (construct valid_tool_result
                  \<lparr>tr_success = True, tr_data = Some data, tr_error_code = None, tr_user_safe_message = None,
                   tr_latency_ms = latency, tr_trace_id = tid\<rparr>, log2))
         | Inl (BuenPickClientError code msg status) \<Rightarrow>
             (case emit el TOOL_FINISHED tid tool_name EV_FAILED True (Some (tool_error_value code)) log1 of
                Inl e \<Rightarrow> (Inl e, log1)
              | Inr log2 \<Rightarrow> (construct valid_tool_result
                  \<lparr>tr_success = False, tr_data = None, tr_error_code = Some code, tr_user_safe_message = Some msg,
                   tr_latency_ms = latency, tr_trace_id = tid\<rparr>, log2))
         | Inl e \<Rightarrow> (Inl e, log1)))"

definition collect_image :: "available_pick res \<Rightarrow> pick_image_evidence res" where
  "collect_image answer = rbind answer (\<lambda>pick.
     case (case av_images pick of u # _ \<Rightarrow> Some u | [] \<Rightarrow> av_image_url pick) of
       None \<Rightarrow> Inl (BuenPickClientError NOT_FOUND
         (lit ''BuenPick no tiene una imagen disponible para este pick.'') None)
     | Some url \<Rightarrow> Inr \<lparr>ie_pick_id = av_id pick, ie_title = av_title pick, ie_image_url = url\<rparr>)"

definition tool_search ::
  "(nat \<Rightarrow> int) \<Rightarrow> int \<Rightarrow> pystr \<Rightarrow> (pystr option \<Rightarrow> pystr option \<Rightarrow> pick_search_response res)
    \<Rightarrow> pystr option \<Rightarrow> pystr option \<Rightarrow> event_log \<Rightarrow> pick_search_response tool_result res \<times> event_log" where
  "tool_search el latency tid client query commerce_id =
     run_tool el latency tid (lit ''search_available_picks'') (client query commerce_id)"

definition tool_get_pick ::
  "(nat \<Rightarrow> int) \<Rightarrow> int \<Rightarrow> pystr \<Rightarrow> (pystr \<Rightarrow> available_pick res) \<Rightarrow> pystr \<Rightarrow> event_log
    \<Rightarrow> available_pick tool_result res \<times> event_log" where
  "tool_get_pick el latency tid client pick_id =
     run_tool el latency tid (lit ''get_available_pick'') (client pick_id)"

definition tool_get_commerce ::
  "(nat \<Rightarrow> int) \<Rightarrow> int \<Rightarrow> pystr \<Rightarrow> (pystr \<Rightarrow> commerce res) \<Rightarrow> pystr \<Rightarrow> event_log
    \<Rightarrow> commerce tool_result res \<times> event_log" where
  "tool_get_commerce el latency tid client commerce_id =
     run_tool el latency tid (lit ''get_commerce'') (client commerce_id)"

definition tool_get_order ::
  "(nat \<Rightarrow> int) \<Rightarrow> int \<Rightarrow> pystr \<Rightarrow> (pystr \<Rightarrow> pystr option \<Rightarrow> pystr option \<Rightarrow> customer_order res)
    \<Rightarrow> pystr \<Rightarrow> pystr option \<Rightarrow> pystr option \<Rightarrow> event_log \<Rightarrow> customer_order tool_result res \<times> event_log" where
  "tool_get_order el latency tid client order_id customer_phone customer_reference =
     run_tool el latency tid (lit ''get_customer_order'') (client order_id customer_phone customer_reference)"

definition tool_get_image ::
  "(nat \<Rightarrow> int) \<Rightarrow> int \<Rightarrow> pystr \<Rightarrow> (pystr \<Rightarrow> available_pick res) \<Rightarrow> pystr \<Rightarrow> event_log
    \<Rightarrow> pick_image_evidence tool_result res \<times> event_log" where
  "tool_get_image el latency tid client pick_id =
     run_tool el latency tid (lit ''get_pick_image'') (collect_image (client pick_id))"

text \<open>
  A tool never turns a failure into data. For a valid trace and tool name and an operation that
  ends as the client does, a tool returns a valid result that succeeds exactly when the client
  returned data (which it carries) and otherwise carries the client's error code and message and no
  data; it logs exactly a start and a finish with the matching outcome.
\<close>

theorem run_tool_faithful:
  assumes "len_between 1 128 tid" "len_between 1 100 tool_name" "0 \<le> latency"
    and "operation = Inr data \<or> (operation = Inl (BuenPickClientError code msg st) \<and> len_between 1 500 msg)"
  shows "\<exists>r l1 l2. run_tool el latency tid tool_name operation log = (Inr r, log @ [l1, l2])
    \<and> valid_tool_result r \<and> lr_event l1 = TOOL_STARTED \<and> lr_event l2 = TOOL_FINISHED
    \<and> (case operation of
         Inr x \<Rightarrow> tr_success r \<and> tr_data r = Some x \<and> lr_outcome l2 = EV_SUCCEEDED
       | Inl e \<Rightarrow> \<not> tr_success r \<and> tr_data r = None \<and> tr_error_code r = Some code
           \<and> tr_user_safe_message r = Some msg \<and> lr_outcome l2 = EV_FAILED)"
proof -
  have value_len: "length (tool_error_value c) \<le> 100" for c by (cases c) simp_all
  from assms(4) show ?thesis
  proof
    assume "operation = Inr data"
    with assms(1-3) show ?thesis
      by (simp add: run_tool_def emit_counts_def construct_def valid_defs opt_nonneg_def)
  next
    assume "operation = Inl (BuenPickClientError code msg st) \<and> len_between 1 500 msg"
    with assms(1-3) value_len [of code] show ?thesis
      by (cases msg) (auto simp: run_tool_def emit_counts_def construct_def valid_defs opt_nonneg_def)
  qed
qed

theorem run_tool_faithful_witness:
  "\<exists>r l1 l2. run_tool (\<lambda>n. 0) 5 (lit ''t1'') (lit ''get_commerce'')
      (Inl (BuenPickClientError TIMEOUT (lit ''tarde'') None) :: commerce res) [] = (Inr r, [l1, l2])
    \<and> \<not> tr_success r \<and> tr_error_code r = Some TIMEOUT"
  using run_tool_faithful [of "lit ''t1''" "lit ''get_commerce''" 5
      "Inl (BuenPickClientError TIMEOUT (lit ''tarde'') None) :: commerce res" undefined TIMEOUT "lit ''tarde''" None "\<lambda>n. 0" "[]"]
  by auto

end
