(* ===== verification/Evidence.thy ===== *)
theory Evidence
  imports BuenPick_Client
begin

text \<open>
  Evidence for composition, \<open>src/src/piki/evidence/buenpick.py\<close>: tool results become labelled
  evidence items. Building an item validates it, so a title of more than 2000 characters raises
  \<open>ValidationError\<close>.
\<close>

record tool_evidence_bundle =
  eb_confirmed_data :: "evidence_item list"
  eb_unavailable_data :: "pystr list"
  eb_actions_performed :: "performed_action list"

definition performed :: "string \<Rightarrow> action_outcome \<Rightarrow> performed_action" where
  "performed name outcome = \<lparr>pa_name = lit name, pa_outcome = outcome, pa_reference = None\<rparr>"

definition api_item :: "pystr \<Rightarrow> pystr \<Rightarrow> pystr option \<Rightarrow> evidence_item res" where
  "api_item label v reference = construct valid_evidence_item
     \<lparr>ei_label = label, ei_value = v, ei_source = BUENPICK_INTERNAL_API, ei_source_reference = reference\<rparr>"

definition failed_bundle :: "string \<Rightarrow> pystr option \<Rightarrow> pystr \<Rightarrow> tool_evidence_bundle" where
  "failed_bundle name message dflt =
     \<lparr>eb_confirmed_data = [], eb_unavailable_data = [if truthy message then or_empty message else dflt],
      eb_actions_performed = [performed name OUT_FAILED]\<rparr>"

section \<open>Search results\<close>

definition pick_evidence :: "nat \<times> pick_summary \<Rightarrow> evidence_item res" where
  "pick_evidence ip = (case ip of (i, pick) \<Rightarrow>
     rbind (format_ars_cents (ps_price pick)) (\<lambda>price.
       api_item (lit ''available_pick_'' @ dec_digits i)
         (lit ''Title: '' @ ps_title pick @ lit ''; Commerce: '' @ cs_name (ps_commerce pick)
          @ lit ''; Price ARS: '' @ price @ lit ''; Available quantity: '' @ str_int (ps_available_quantity pick)
          @ lit ''; Status: available'')
         (Some (ps_id pick))))"

definition surprise_notice :: pystr where
  "surprise_notice = lit ''El contenido exacto de una bolsa sorpresa no est'' @ [225]
     @ lit '' confirmado por BuenPick.''"

definition search_result_evidence ::
  "ucd \<Rightarrow> pick_search_response tool_result \<Rightarrow> tool_evidence_bundle res" where
  "search_result_evidence u result =
     (case (tr_success result, tr_data result) of
        (True, Some data) \<Rightarrow>
          if sr_items data = [] then
            rbind (api_item (lit ''search_availability'')
              (lit ''BuenPick returned no available picks for this search.'') None) (\<lambda>item.
              Inr \<lparr>eb_confirmed_data = [item], eb_unavailable_data = [],
                   eb_actions_performed = [performed ''search_available_picks'' OUT_SUCCEEDED]\<rparr>)
          else
            rbind (map_res pick_evidence (enumerate 1 (sr_items data))) (\<lambda>evidence.
              Inr \<lparr>eb_confirmed_data = evidence,
                   eb_unavailable_data =
                     (if list_ex (\<lambda>pick. occurs_in (lit ''sorpresa'') (casefold u (ps_title pick))) (sr_items data)
                      then [surprise_notice] else []),
                   eb_actions_performed = [performed ''search_available_picks'' OUT_SUCCEEDED]\<rparr>)
      | _ \<Rightarrow> Inr (failed_bundle ''search_available_picks'' (tr_user_safe_message result)
          (lit ''No se pudo confirmar la b'' @ [250] @ lit ''squeda en BuenPick.'')))"

section \<open>Orders\<close>

fun fulfillment_value :: "fulfillment_type \<Rightarrow> pystr" where
  "fulfillment_value FT_PICKUP = lit ''pickup''"
| "fulfillment_value FT_DELIVERY = lit ''delivery''"

definition order_pick_evidence :: "customer_order \<Rightarrow> nat \<times> order_pick \<Rightarrow> evidence_item res" where
  "order_pick_evidence order ip = (case ip of (i, pick) \<Rightarrow>
     rbind (format_ars_cents (op_line_total pick)) (\<lambda>total.
       api_item (lit ''order_pick_'' @ dec_digits i)
         (lit ''Title: '' @ op_title pick @ lit ''; Quantity: '' @ str_int (op_quantity pick)
          @ lit ''; Line total ARS: '' @ total)
         (Some (or_id order))))"

definition optional_item :: "string \<Rightarrow> pystr option \<Rightarrow> customer_order \<Rightarrow> evidence_item list res" where
  "optional_item label v order =
     (if truthy v then rbind (api_item (lit label) (or_empty v) (Some (or_id order))) (\<lambda>item. Inr [item])
      else Inr [])"

definition order_result_evidence :: "customer_order tool_result \<Rightarrow> tool_evidence_bundle res" where
  "order_result_evidence result =
     (case (tr_success result, tr_data result) of
        (True, Some order) \<Rightarrow>
          rbind (api_item (lit ''order_status'') (or_status order) (Some (or_id order))) (\<lambda>status.
          rbind (api_item (lit ''order_commerce'') (oc_name (or_commerce order)) (Some (or_id order))) (\<lambda>shop.
          rbind (format_ars_cents (or_total order)) (\<lambda>amount.
          rbind (api_item (lit ''order_total_ars'') amount (Some (or_id order))) (\<lambda>total.
          rbind (api_item (lit ''fulfillment_type'') (fulfillment_value (of_type (or_fulfillment order)))
            (Some (or_id order))) (\<lambda>ftype.
          rbind (map_res (order_pick_evidence order) (enumerate 1 (or_picks order))) (\<lambda>picks.
          rbind (optional_item ''pickup_code'' (of_pickup_code (or_fulfillment order)) order) (\<lambda>code.
          rbind (optional_item ''pickup_instructions'' (ou_instructions (or_pickup order)) order) (\<lambda>instructions.
          rbind (api_item (lit ''pickup_store_address'') (ou_store_address (or_pickup order)) (Some (or_id order)))
            (\<lambda>address.
            Inr \<lparr>eb_confirmed_data = [status, shop, total, ftype] @ picks @ code @ instructions @ [address],
                 eb_unavailable_data = [],
                 eb_actions_performed = [performed ''get_customer_order'' OUT_SUCCEEDED]\<rparr>)))))))))
      | _ \<Rightarrow> Inr (failed_bundle ''get_customer_order'' (tr_user_safe_message result)
          (lit ''No se pudo confirmar una orden perteneciente a esta persona.'')))"

section \<open>Properties\<close>

lemma api_item_Inr [simp]:
  "api_item label v reference = Inr e \<longleftrightarrow> valid_evidence_item e
    \<and> e = \<lparr>ei_label = label, ei_value = v, ei_source = BUENPICK_INTERNAL_API, ei_source_reference = reference\<rparr>"
  by (auto simp: api_item_def)

text \<open>What an evidence item says about a pick: its own title, price and quantity.\<close>

definition describes :: "pick_summary \<Rightarrow> evidence_item \<Rightarrow> bool" where
  "describes pick e \<longleftrightarrow> valid_evidence_item e \<and> ei_source e = BUENPICK_INTERNAL_API
     \<and> ei_source_reference e = Some (ps_id pick) \<and> occurs_in (ps_title pick) (ei_value e)
     \<and> (\<exists>price. format_ars_cents (ps_price pick) = Inr price \<and> occurs_in (lit ''Price ARS: '' @ price) (ei_value e))
     \<and> occurs_in (lit ''Available quantity: '' @ str_int (ps_available_quantity pick)) (ei_value e)"

lemma occurs_in_at: "s = a @ p @ b \<Longrightarrow> occurs_in p s"
  by simp

lemma pick_evidence_describes:
  assumes "pick_evidence (i, pick) = Inr e"
  shows "describes pick e"
proof -
  from assms obtain price where p: "format_ars_cents (ps_price pick) = Inr price"
    and e: "valid_evidence_item e" "ei_source e = BUENPICK_INTERNAL_API" "ei_source_reference e = Some (ps_id pick)"
    and v: "ei_value e = lit ''Title: '' @ ps_title pick @ lit ''; Commerce: '' @ cs_name (ps_commerce pick)
          @ lit ''; Price ARS: '' @ price @ lit ''; Available quantity: '' @ str_int (ps_available_quantity pick)
          @ lit ''; Status: available''"
    by (auto simp: pick_evidence_def rbind_eq_Inr)
  have sep: "lit ''; Price ARS: '' = lit ''; '' @ lit ''Price ARS: ''"
    "lit ''; Available quantity: '' = lit ''; '' @ lit ''Available quantity: ''" by (simp_all add: lit_def)
  have "occurs_in (ps_title pick) (ei_value e)"
    by (rule occurs_in_at [of _ "lit ''Title: ''"]) (simp add: v)
  moreover have "occurs_in (lit ''Price ARS: '' @ price) (ei_value e)"
    by (rule occurs_in_at [of _ "lit ''Title: '' @ ps_title pick @ lit ''; Commerce: ''
      @ cs_name (ps_commerce pick) @ lit ''; ''"]) (simp add: v sep)
  moreover have "occurs_in (lit ''Available quantity: '' @ str_int (ps_available_quantity pick)) (ei_value e)"
    by (rule occurs_in_at [of _ "lit ''Title: '' @ ps_title pick @ lit ''; Commerce: ''
      @ cs_name (ps_commerce pick) @ lit ''; Price ARS: '' @ price @ lit ''; ''"]) (simp add: v sep)
  ultimately show ?thesis using p e by (auto simp: describes_def)
qed

text \<open>
  Search evidence says what BuenPick returned and nothing else. With data, there is one item per
  pick in BuenPick's order, each with the reference, title, formatted price and quantity of its own
  pick, and a single item that says so when there are none; without data there is no confirmed item
  and exactly one statement of what is unavailable. A pick titled as a surprise always comes with
  the notice that its content is not confirmed.
\<close>

theorem search_evidence_faithful:
  assumes "search_result_evidence u result = Inr b"
  shows "case (tr_success result, tr_data result) of
      (True, Some data) \<Rightarrow>
        (if sr_items data = []
         then map ei_value (eb_confirmed_data b) = [lit ''BuenPick returned no available picks for this search.'']
         else list_all2 describes (sr_items data) (eb_confirmed_data b))
        \<and> ((\<exists>pick \<in> set (sr_items data). occurs_in (lit ''sorpresa'') (casefold u (ps_title pick)))
            \<longleftrightarrow> surprise_notice \<in> set (eb_unavailable_data b))
        \<and> map pa_outcome (eb_actions_performed b) = [OUT_SUCCEEDED]
    | _ \<Rightarrow> eb_confirmed_data b = [] \<and> length (eb_unavailable_data b) = 1
        \<and> map pa_outcome (eb_actions_performed b) = [OUT_FAILED]"
proof (cases "tr_data result")
  case (Some data)
  show ?thesis
  proof (cases "tr_success result \<and> sr_items data \<noteq> []")
    case True
    with assms Some have all: "map_res pick_evidence (enumerate 1 (sr_items data)) = Inr (eb_confirmed_data b)"
      and un: "eb_unavailable_data b = (if list_ex (\<lambda>pick. occurs_in (lit ''sorpresa'') (casefold u (ps_title pick)))
          (sr_items data) then [surprise_notice] else [])"
      and act: "eb_actions_performed b = [performed ''search_available_picks'' OUT_SUCCEEDED]"
      by (auto simp: search_result_evidence_def rbind_eq_Inr)
    from all have "list_all2 (\<lambda>ip e. describes (snd ip) e) (enumerate 1 (sr_items data)) (eb_confirmed_data b)"
      unfolding map_res_eq_Inr by (rule list_all2_mono) (metis pick_evidence_describes prod.collapse)
    then have "list_all2 describes (map snd (enumerate 1 (sr_items data))) (eb_confirmed_data b)"
      unfolding list_all2_map1 .
    with True Some un act show ?thesis by (auto simp: list_ex_iff performed_def)
  next
    case False
    with assms Some show ?thesis
      by (cases "tr_success result") (auto simp: search_result_evidence_def failed_bundle_def performed_def rbind_eq_Inr)
  qed
next
  case None
  with assms show ?thesis
    by (cases "tr_success result") (auto simp: search_result_evidence_def failed_bundle_def performed_def)
qed

lemma search_evidence_source:
  assumes "search_result_evidence u result = Inr b"
  shows "list_all (\<lambda>e. ei_source e = BUENPICK_INTERNAL_API) (eb_confirmed_data b)"
proof -
  have all: "list_all (\<lambda>e. ei_source e = BUENPICK_INTERNAL_API) es"
    if "map_res pick_evidence xs = Inr es" for xs es
  proof -
    from that have "list_all2 (\<lambda>x e. ei_source e = BUENPICK_INTERNAL_API) xs es"
      unfolding map_res_eq_Inr by (rule list_all2_mono) (auto simp: pick_evidence_def rbind_eq_Inr)
    then show ?thesis by (auto simp: list_all2_conv_all_nth list_all_length)
  qed
  show ?thesis using assms
    by (cases "tr_success result"; cases "tr_data result")
      (auto simp: search_result_evidence_def failed_bundle_def rbind_eq_Inr all split: if_splits)
qed

lemma search_evidence_none:
  assumes "search_result_evidence u result = Inr b" "eb_confirmed_data b = []"
  shows "eb_unavailable_data b \<noteq> []"
proof -
  have "enumerate n xs = [] \<longleftrightarrow> xs = []" for n and xs :: "pick_summary list" by (cases xs) auto
  with assms show ?thesis
    by (cases "tr_success result"; cases "tr_data result")
      (auto simp: search_result_evidence_def failed_bundle_def rbind_eq_Inr map_res_eq_Inr split: if_splits)
qed

definition sample_search :: "pick_search_response tool_result" where
  "sample_search = \<lparr>tr_success = True, tr_data = Some \<lparr>sr_items =
       [\<lparr>ps_id = lit ''p1'', ps_title = lit ''Bolsa sorpresa'', ps_description = [], ps_price = 150000,
         ps_original_price = 300000, ps_available_quantity = 2, ps_image_url = None,
         ps_commerce = \<lparr>cs_id = lit ''c1'', cs_name = lit ''Pan''\<rparr>\<rparr>], sr_total = 1\<rparr>,
     tr_error_code = None, tr_user_safe_message = None, tr_latency_ms = 5, tr_trace_id = lit ''t1''\<rparr>"

lemma sample_search_evidence:
  "search_result_evidence latin1 sample_search = Inr \<lparr>eb_confirmed_data =
       [\<lparr>ei_label = lit ''available_pick_1'',
         ei_value = lit ''Title: Bolsa sorpresa; Commerce: Pan; Price ARS: $1.500,00; Available quantity: 2; Status: available'',
         ei_source = BUENPICK_INTERNAL_API, ei_source_reference = Some (lit ''p1'')\<rparr>],
     eb_unavailable_data = [surprise_notice],
     eb_actions_performed = [performed ''search_available_picks'' OUT_SUCCEEDED]\<rparr>"
proof -
  have price: "format_ars_cents 150000 = Inr (lit ''$1.500,00'')"
    by (simp add: format_ars_cents_def Let_def to_context_def dec_digits.simps two_digits_def lit_def)
  have one: "dec_digits (Suc 0) = lit ''1''" "str_int 2 = lit ''2''"
    by (simp_all add: str_int_def dec_digits.simps lit_def)
  have fold: "occurs_in (lit ''sorpresa'') (casefold latin1 (lit ''Bolsa sorpresa''))"
    by (simp add: lit_def latin1_fold_def latin1_lower_def)
  show ?thesis
    by (simp add: search_result_evidence_def sample_search_def pick_evidence_def price one fold api_item_def
        construct_def valid_evidence_item_def flip: lit_append)
qed

theorem search_evidence_faithful_witness:
  "\<exists>b. search_result_evidence latin1 sample_search = Inr b
    \<and> list_all2 describes (sr_items (the (tr_data sample_search))) (eb_confirmed_data b)"
proof -
  obtain b where b: "search_result_evidence latin1 sample_search = Inr b" using sample_search_evidence by blast
  from search_evidence_faithful [OF b] b show ?thesis by (simp add: sample_search_def)
qed

end
