(* ===== verification/Active_Pick.thy ===== *)
theory Active_Pick
  imports State_Stores Evidence
begin

text \<open>
  The active pick of a conversation: \<open>ActivePickService\<close> of \<open>src/src/piki/state/active_pick.py\<close> over
  the store of \<open>State_Stores\<close>, and the image use case \<open>src/src/piki/use_cases/pick_image.py\<close> that
  relies on it. \<open>client\<close> is \<open>get_available_pick\<close>, \<open>now\<close> the clock reading of the call.
\<close>

section \<open>Resolving the active pick\<close>

datatype active_pick_resolution_status = RESOLVED_CONFIRMED | RESOLVED_MISSING | RESOLVED_STALE
  | RESOLVED_STATE_UNAVAILABLE | RESOLVED_UPSTREAM_UNAVAILABLE

record active_pick_resolution =
  ax_status :: active_pick_resolution_status
  ax_pick :: "available_pick option"
  ax_source :: "active_pick_source option"
  ax_context_persisted :: bool
  ax_error_code :: "tool_error_code option"

definition valid_active_pick_resolution :: "active_pick_resolution \<Rightarrow> bool" where
  [valid_defs]: "valid_active_pick_resolution r \<longleftrightarrow>
     \<not> ((ax_status r = RESOLVED_CONFIRMED) \<noteq> (ax_pick r \<noteq> None \<and> ax_source r \<noteq> None))
     \<and> \<not> (ax_status r = RESOLVED_CONFIRMED \<and> ax_error_code r \<noteq> None)"

definition unresolved :: "active_pick_resolution_status \<Rightarrow> tool_error_code option \<Rightarrow> active_pick_resolution res" where
  "unresolved status err = construct valid_active_pick_resolution
     \<lparr>ax_status = status, ax_pick = None, ax_source = None, ax_context_persisted = False, ax_error_code = err\<rparr>"

definition remember ::
  "'s redis \<Rightarrow> (pystr \<Rightarrow> pystr) \<Rightarrow> int \<Rightarrow> (active_pick_reference \<Rightarrow> pystr) \<Rightarrow> micros
    \<Rightarrow> conversation_scope \<Rightarrow> available_pick \<Rightarrow> active_pick_source \<Rightarrow> 's \<Rightarrow> state_write_result res \<times> 's" where
  "remember ops sha ttl dump now c pick source s =
     (case construct valid_active_pick_reference
        \<lparr>ap_schema_version = lit ''1.0'', ap_pick_id = av_id pick, ap_commerce_id = pcm_id (av_commerce pick),
         ap_selected_at = Aware now, ap_source = source\<rparr> of
        Inl e \<Rightarrow> (Inl e, s)
      | Inr reference \<Rightarrow> active_pick_set ops sha ttl dump c reference s)"

text \<open>
  The second half of \<open>resolve\<close>, from the client call on; \<open>from_store\<close> tells whether the identifier
  came from the stored reference.
\<close>

definition resolve_confirm ::
  "'s redis \<Rightarrow> (pystr \<Rightarrow> pystr) \<Rightarrow> int \<Rightarrow> (active_pick_reference \<Rightarrow> pystr) \<Rightarrow> micros
    \<Rightarrow> (pystr \<Rightarrow> available_pick res) \<Rightarrow> conversation_scope \<Rightarrow> bool \<Rightarrow> pystr \<Rightarrow> active_pick_source
    \<Rightarrow> 's \<Rightarrow> active_pick_resolution res \<times> 's" where
  "resolve_confirm ops sha ttl dump now client c from_store pick_id source s =
     (case client pick_id of
        Inl (BuenPickClientError code msg st) \<Rightarrow>
          if code = NOT_FOUND then
            (case (if from_store then active_pick_clear ops sha c s
                   else (Inr \<lparr>sw_success = True, sw_state_available = True\<rparr>, s)) of
               (Inl e, s1) \<Rightarrow> (Inl e, s1)
             | (Inr _, s1) \<Rightarrow> (unresolved RESOLVED_STALE (Some code), s1))
          else (unresolved RESOLVED_UPSTREAM_UNAVAILABLE (Some code), s)
      | Inl e \<Rightarrow> (Inl e, s)
      | Inr pick \<Rightarrow>
          (case (if from_store then (Inr \<lparr>sw_success = True, sw_state_available = True\<rparr>, s)
                 else remember ops sha ttl dump now c pick source s) of
             (Inl e, s1) \<Rightarrow> (Inl e, s1)
           | (Inr write, s1) \<Rightarrow> (construct valid_active_pick_resolution
               \<lparr>ax_status = RESOLVED_CONFIRMED, ax_pick = Some pick, ax_source = Some source,
                ax_context_persisted = sw_success write, ax_error_code = None\<rparr>, s1)))"

definition resolve ::
  "'s redis \<Rightarrow> (pystr \<Rightarrow> pystr) \<Rightarrow> int \<Rightarrow> (active_pick_reference \<Rightarrow> pystr)
    \<Rightarrow> (pystr \<Rightarrow> active_pick_reference option) \<Rightarrow> micros \<Rightarrow> (pystr \<Rightarrow> available_pick res)
    \<Rightarrow> conversation_scope \<Rightarrow> pystr option \<Rightarrow> 's \<Rightarrow> active_pick_resolution res \<times> 's" where
  "resolve ops sha ttl dump parse now client c explicit_pick_id s =
     (case explicit_pick_id of
        None \<Rightarrow>
          (case active_pick_get ops sha parse c s of
             (Inl e, s1) \<Rightarrow> (Inl e, s1)
           | (Inr active, s1) \<Rightarrow>
             (case ar_status active of
                STATE_UNAVAILABLE \<Rightarrow> (unresolved RESOLVED_STATE_UNAVAILABLE None, s1)
              | STATE_MISSING \<Rightarrow> (unresolved RESOLVED_MISSING None, s1)
              | STATE_FOUND \<Rightarrow>
                (case ar_reference active of
                   None \<Rightarrow> (Inl AssertionError, s1)
                 | Some reference \<Rightarrow>
                   resolve_confirm ops sha ttl dump now client c True (ap_pick_id reference) (ap_source reference) s1)))
      | Some x \<Rightarrow>
          if strip x = [] then (unresolved RESOLVED_MISSING None, s)
          else resolve_confirm ops sha ttl dump now client c False (strip x) EXPLICIT_REFERENCE s)"

text \<open>The identifier that \<open>resolve\<close> asks BuenPick about.\<close>

definition asked_pick :: "active_pick_reference option \<Rightarrow> pystr option \<Rightarrow> pystr option" where
  "asked_pick stored explicit_pick_id =
     (case explicit_pick_id of None \<Rightarrow> map_option ap_pick_id stored
      | Some x \<Rightarrow> if strip x = [] then None else Some (strip x))"

lemmas resolve_defs = resolve_confirm_def unresolved_def remember_def construct_def valid_active_pick_resolution_def

context active_pick_state
begin

abbreviation stored where "stored \<equiv> decoded view (active_pick_key_for sha) parse"

lemma get_cases:
  assumes "active_pick_get ops sha parse c s = (Inr r, s')"
  shows "stored s' = stored s
    \<and> (ar_status r = STATE_FOUND \<longrightarrow> ar_reference r = stored s c \<and> stored s c \<noteq> None)"
proof -
  have "active_fetch ops sha parse c s
      = (if ar_status r = STATE_UNAVAILABLE then None else Some (ar_reference r), s')"
    using assms by (simp add: active_fetch_def)
  note fetched = active.fetch_keeps [OF this] active.fetch_reported [of c s "ar_reference r" s'] this
  have "ar_status r = STATE_FOUND \<Longrightarrow> ar_reference r \<noteq> None"
    using assms by (auto simp: active_pick_get_def construct_def valid_active_pick_read_def
        split: prod.splits option.splits sum.splits if_splits)
  with fetched show ?thesis by (cases "ar_status r") auto
qed

lemma clear_cases:
  assumes "active_pick_clear ops sha c s = (r, s')"
  shows "(\<exists>w. r = Inr w) \<and> (stored s' c = stored s c \<or> stored s' c = None)"
  using active.drop_here [of c s] assms
  by (auto simp: active_pick_clear_def construct_def valid_state_write_result_def split: prod.splits option.splits)

lemma set_cases:
  assumes "active_pick_set ops sha ttl dump c v s = (r, s')" "valid_active_pick_reference v"
  shows "\<exists>w. r = Inr w \<and> (sw_success w \<longrightarrow> stored s' c = Some v)"
proof -
  obtain w where w: "r = Inr w"
    using assms(1) by (auto simp: active_pick_set_def construct_def valid_state_write_result_def
        split: prod.splits option.splits)
  then have "active_put ops sha ttl dump c v s = (sw_success w, s')" using assms(1) by (simp add: active_put_def)
  with active.put_reported [of c v s s'] assms(2) w show ?thesis by (cases "sw_success w") auto
qed

text \<open>What \<open>resolve_confirm\<close> does with each answer of the client.\<close>

lemma resolve_confirm_cases:
  assumes "resolve_confirm ops sha ttl dump now client c from_store pid src s = (Inr r, s')"
  shows "(\<exists>p. client pid = Inr p \<and> ax_status r = RESOLVED_CONFIRMED \<and> ax_pick r = Some p \<and> ax_source r = Some src
      \<and> (if from_store then s' = s \<and> ax_context_persisted r
         else ax_context_persisted r \<longrightarrow> (\<exists>v. stored s' c = Some v \<and> ap_pick_id v = av_id p
           \<and> ap_commerce_id v = pcm_id (av_commerce p) \<and> ap_source v = src)))
    \<or> (\<exists>msg st. client pid = Inl (BuenPickClientError NOT_FOUND msg st) \<and> ax_status r = RESOLVED_STALE
      \<and> ax_error_code r = Some NOT_FOUND
      \<and> (if from_store then stored s' c = stored s c \<or> stored s' c = None else s' = s))
    \<or> (\<exists>code msg st. client pid = Inl (BuenPickClientError code msg st) \<and> code \<noteq> NOT_FOUND
      \<and> ax_status r = RESOLVED_UPSTREAM_UNAVAILABLE \<and> ax_error_code r = Some code \<and> s' = s)"
proof (cases "client pid")
  case (Inl e)
  obtain code msg st where e: "e = BuenPickClientError code msg st"
    using assms Inl by (cases e) (simp_all add: resolve_confirm_def)
  show ?thesis
  proof (cases "code = NOT_FOUND")
    case True
    obtain q s1 where q: "active_pick_clear ops sha c s = (q, s1)" by fastforce
    from clear_cases [OF q] True q e Inl assms show ?thesis
      by (auto simp: resolve_confirm_def unresolved_def split: if_splits)
  next
    case False
    with e Inl assms show ?thesis by (auto simp: resolve_confirm_def unresolved_def)
  qed
next
  case (Inr p)
  show ?thesis
  proof (cases from_store)
    case True
    with Inr assms show ?thesis by (auto simp: resolve_confirm_def)
  next
    case False
    let ?v = "\<lparr>ap_schema_version = lit ''1.0'', ap_pick_id = av_id p, ap_commerce_id = pcm_id (av_commerce p),
         ap_selected_at = Aware now, ap_source = src\<rparr>"
    obtain q s1 where q: "remember ops sha ttl dump now c p src s = (q, s1)" by fastforce
    with False Inr assms obtain w where w: "q = Inr w" by (cases q) (auto simp: resolve_confirm_def)
    with q have v: "valid_active_pick_reference ?v" and "active_pick_set ops sha ttl dump c ?v s = (q, s1)"
      by (simp_all add: remember_def construct_def split: if_splits)
    from set_cases [OF this(2) v] w have st: "sw_success w \<longrightarrow> stored s1 c = Some ?v" by simp
    have "r = \<lparr>ax_status = RESOLVED_CONFIRMED, ax_pick = Some p, ax_source = Some src,
        ax_context_persisted = sw_success w, ax_error_code = None\<rparr>" "s' = s1"
      using False Inr assms q w by (simp_all add: resolve_confirm_def)
    then show ?thesis using Inr False st by simp
  qed
qed

text \<open>The contract of \<open>resolve\<close> over the stored references.\<close>

lemma resolve_contract:
  assumes "resolve ops sha ttl dump parse now client c explicit s = (Inr r, s')"
  shows "(ax_status r = RESOLVED_CONFIRMED \<longrightarrow>
      (\<exists>pid p. asked_pick (stored s c) explicit = Some pid \<and> client pid = Inr p \<and> ax_pick r = Some p
        \<and> (explicit \<noteq> None \<and> ax_context_persisted r \<longrightarrow>
            (\<exists>v. stored s' c = Some v \<and> ap_pick_id v = av_id p \<and> ap_source v = EXPLICIT_REFERENCE))))
    \<and> (ax_status r = RESOLVED_STALE \<longrightarrow>
      (\<exists>pid msg st. asked_pick (stored s c) explicit = Some pid
        \<and> client pid = Inl (BuenPickClientError NOT_FOUND msg st)))
    \<and> (stored s' c = stored s c \<or> (explicit = None \<and> ax_status r = RESOLVED_STALE \<and> stored s' c = None)
       \<or> (explicit \<noteq> None \<and> ax_status r = RESOLVED_CONFIRMED))"
proof (cases explicit)
  case None
  obtain g s1 where g: "active_pick_get ops sha parse c s = (g, s1)" by fastforce
  with None assms obtain a where a: "g = Inr a" by (cases g) (simp_all add: resolve_def)
  note get = get_cases [OF g [unfolded a]]
  show ?thesis
  proof (cases "ar_status a")
    case STATE_FOUND
    with get obtain v where v: "ar_reference a = Some v" "stored s c = Some v" by auto
    have "resolve_confirm ops sha ttl dump now client c True (ap_pick_id v) (ap_source v) s1 = (Inr r, s')"
      using None assms g a STATE_FOUND v by (simp add: resolve_def)
    from resolve_confirm_cases [OF this] get v None show ?thesis by (auto simp: asked_pick_def)
  next
    case STATE_MISSING
    with None assms g a get show ?thesis by (auto simp: resolve_def unresolved_def)
  next
    case STATE_UNAVAILABLE
    with None assms g a get show ?thesis by (auto simp: resolve_def unresolved_def)
  qed
next
  case (Some x)
  show ?thesis
  proof (cases "strip x = []")
    case True
    with Some assms show ?thesis by (auto simp: resolve_def unresolved_def)
  next
    case False
    then have "resolve_confirm ops sha ttl dump now client c False (strip x) EXPLICIT_REFERENCE s = (Inr r, s')"
      using Some assms by (simp add: resolve_def)
    from resolve_confirm_cases [OF this] Some False show ?thesis by (auto simp: asked_pick_def)
  qed
qed

end

text \<open>
  C39. The active pick is always reconfirmed. When \<open>resolve\<close> reports a confirmed pick, BuenPick
  returned exactly that pick in this call, for the identifier given explicitly or else stored for the
  conversation; an explicit choice reported as persisted is what the store then holds. A stale pick
  is one that BuenPick reported as not found, and the stored reference of the conversation changes
  only by dropping a stale one or by remembering an explicit choice.
\<close>

theorem resolve_reconfirms:
  assumes "redis_server ops view" and "0 < ttl"
    and "\<And>x. valid_active_pick_reference x \<Longrightarrow> parse (dump x) = Some x"
    and "resolve ops sha ttl dump parse now client c explicit s = (Inr r, s')"
  defines "st \<equiv> decoded view (active_pick_key_for sha) parse"
  shows "(ax_status r = RESOLVED_CONFIRMED \<longrightarrow>
      (\<exists>pid p. asked_pick (st s c) explicit = Some pid \<and> client pid = Inr p \<and> ax_pick r = Some p
        \<and> (explicit \<noteq> None \<and> ax_context_persisted r \<longrightarrow>
            (\<exists>v. st s' c = Some v \<and> ap_pick_id v = av_id p \<and> ap_source v = EXPLICIT_REFERENCE))))
    \<and> (ax_status r = RESOLVED_STALE \<longrightarrow>
      (\<exists>pid msg code. asked_pick (st s c) explicit = Some pid
        \<and> client pid = Inl (BuenPickClientError NOT_FOUND msg code)))
    \<and> (st s' c = st s c \<or> (explicit = None \<and> ax_status r = RESOLVED_STALE \<and> st s' c = None)
       \<or> (explicit \<noteq> None \<and> ax_status r = RESOLVED_CONFIRMED))"
proof -
  have "active_pick_state ops view sha ttl {c} dump parse"
    using assms(1-3) by (simp add: active_pick_state_def active_pick_state_axioms_def redis_state_def
        redis_state_axioms_def)
  from active_pick_state.resolve_contract [OF this assms(4)] show ?thesis unfolding st_def .
qed

definition sample_pick :: available_pick where
  "sample_pick = \<lparr>av_id = lit ''p1'', av_title = lit ''Bolsa sorpresa'', av_description = [], av_price = 150000,
     av_original_price = 300000, av_available_quantity = 2, av_image_url = None,
     av_images = [lit ''https://img/1.jpg''], av_category = lit ''bakery'',
     av_pickup = \<lparr>pkw_starts_at = Aware 0, pkw_ends_at = Aware 5\<rparr>,
     av_conditions = \<lparr>pc_quantity_available = 2, pc_approx_weight_grams = None,
       pc_fulfillment = \<lparr>fu_pickup = True, fu_delivery_enabled = False, fu_delivery_eta_min_minutes = None,
         fu_delivery_eta_max_minutes = None\<rparr>\<rparr>,
     av_commerce = \<lparr>pcm_id = lit ''c1'', pcm_name = lit ''Pan'', pcm_description = [], pcm_address = [],
       pcm_city = [], pcm_zone = [], pcm_opening_hours = JObj []\<rparr>,
     av_public_url = lit ''https://buenpick.example/p1''\<rparr>"

definition sample_client :: "pystr \<Rightarrow> available_pick res" where
  "sample_client pid = (if pid = lit ''p1'' then Inr sample_pick
     else Inl (BuenPickClientError NOT_FOUND (lit ''No pude confirmar que el recurso siga disponible.'') (Some 404)))"

definition sample_confirmed :: active_pick_resolution where
  "sample_confirmed = \<lparr>ax_status = RESOLVED_CONFIRMED, ax_pick = Some sample_pick,
     ax_source = Some EXPLICIT_REFERENCE, ax_context_persisted = True, ax_error_code = None\<rparr>"

lemma sample_resolve:
  "resolve memory_redis id 60 dump_reference parse_reference now sample_client sample_scope None sample_stored
    = (Inr sample_confirmed, sample_stored)"
  by (simp add: resolve_def sample_get resolve_confirm_def sample_client_def sample_reference_def
      construct_def valid_active_pick_resolution_def sample_confirmed_def)

theorem resolve_reconfirms_witness:
  "\<exists>pid p. asked_pick (decoded ks_view (active_pick_key_for id) parse_reference sample_stored sample_scope) None = Some pid
    \<and> sample_client pid = Inr p \<and> ax_pick sample_confirmed = Some p"
  using resolve_reconfirms [OF mem.redis_server_axioms _ parse_dump_reference sample_resolve]
  by (auto simp: sample_confirmed_def)

section \<open>Preparing the image of the active pick\<close>

record pick_image_preparation =
  pp_success :: bool
  pp_active_pick_id :: "pystr option"
  pp_media_url :: "pystr option"
  pp_confirmed_data :: "evidence_item list"
  pp_actions_performed :: "performed_action list"
  pp_error_code :: "tool_error_code option"
  pp_user_safe_message :: "pystr option"
  pp_trace_id :: pystr

definition valid_pick_image_preparation :: "pick_image_preparation \<Rightarrow> bool" where
  [valid_defs]: "valid_pick_image_preparation p \<longleftrightarrow>
     (if pp_success p
      then \<not> (pp_active_pick_id p = None \<or> pp_media_url p = None \<or> pp_confirmed_data p = []
        \<or> pp_error_code p \<noteq> None \<or> pp_user_safe_message p \<noteq> None)
      else \<not> (pp_error_code p = None \<or> \<not> truthy (pp_user_safe_message p)))"

definition failed_preparation ::
  "tool_error_code \<Rightarrow> pystr \<Rightarrow> string \<Rightarrow> pystr \<Rightarrow> pick_image_preparation res" where
  "failed_preparation code msg action tid = construct valid_pick_image_preparation
     \<lparr>pp_success = False, pp_active_pick_id = None, pp_media_url = None, pp_confirmed_data = [],
      pp_actions_performed = [performed action OUT_FAILED], pp_error_code = Some code,
      pp_user_safe_message = Some msg, pp_trace_id = tid\<rparr>"

definition resolution_failure :: "active_pick_resolution \<Rightarrow> pystr \<Rightarrow> pick_image_preparation res" where
  "resolution_failure r tid =
     (case ax_status r of
        RESOLVED_MISSING \<Rightarrow> failed_preparation BAD_REQUEST
          (lit ''Eleg'' @ [237] @ lit '' un pick disponible antes de pedirme la foto.'') ''get_available_pick'' tid
      | RESOLVED_STALE \<Rightarrow> failed_preparation NOT_FOUND
          (lit ''Ese pick ya no est'' @ [225] @ lit '' disponible. Busquemos otra opci'' @ [243]
           @ lit ''n para rescatar.'') ''get_available_pick'' tid
      | RESOLVED_STATE_UNAVAILABLE \<Rightarrow> failed_preparation UPSTREAM_UNAVAILABLE
          (lit ''No pude recuperar el pick de esta conversaci'' @ [243] @ lit ''n. Decime cu'' @ [225]
           @ lit ''l quer'' @ [237] @ lit ''as ver.'') ''get_available_pick'' tid
      | RESOLVED_UPSTREAM_UNAVAILABLE \<Rightarrow> failed_preparation
          (case ax_error_code r of None \<Rightarrow> UPSTREAM_UNAVAILABLE | Some code \<Rightarrow> code)
          (lit ''No pude confirmar la disponibilidad ni la imagen en este momento.'') ''get_available_pick'' tid
      | RESOLVED_CONFIRMED \<Rightarrow> Inl KeyError)"

definition image_evidence :: "string \<Rightarrow> pystr \<Rightarrow> pick_image_evidence \<Rightarrow> evidence_item res" where
  "image_evidence label v img = construct valid_evidence_item
     \<lparr>ei_label = lit label, ei_value = v, ei_source = BUENPICK_INTERNAL_API,
      ei_source_reference = Some (ie_pick_id img)\<rparr>"

definition prepared_image :: "pystr \<Rightarrow> pick_image_evidence tool_result \<Rightarrow> pick_image_preparation res" where
  "prepared_image tid result =
     (case (tr_success result, tr_data result) of
        (True, Some img) \<Rightarrow>
          rbind (image_evidence ''pick_title'' (ie_title img) img) (\<lambda>title.
          rbind (image_evidence ''pick_image_url'' (ie_image_url img) img) (\<lambda>url.
            construct valid_pick_image_preparation
              \<lparr>pp_success = True, pp_active_pick_id = Some (ie_pick_id img), pp_media_url = Some (ie_image_url img),
               pp_confirmed_data = [title, url],
               pp_actions_performed = [performed ''get_available_pick'' OUT_SUCCEEDED,
                 performed ''get_pick_image'' OUT_SUCCEEDED],
               pp_error_code = None, pp_user_safe_message = None, pp_trace_id = tid\<rparr>))
      | _ \<Rightarrow> failed_preparation
          (case tr_error_code result of None \<Rightarrow> INTERNAL_ERROR | Some code \<Rightarrow> code)
          (if truthy (tr_user_safe_message result) then or_empty (tr_user_safe_message result)
           else lit ''No pude confirmar una imagen para ese pick.'') ''get_pick_image'' tid)"

definition prepare ::
  "(conversation_scope \<Rightarrow> 's \<Rightarrow> active_pick_resolution res \<times> 's)
    \<Rightarrow> (pystr \<Rightarrow> event_log \<Rightarrow> pick_image_evidence tool_result res \<times> event_log)
    \<Rightarrow> pystr \<Rightarrow> conversation_scope \<Rightarrow> 's \<Rightarrow> event_log \<Rightarrow> pick_image_preparation res \<times> 's \<times> event_log" where
  "prepare resolver image_tool tid c s log =
     (case resolver c s of
        (Inl e, s1) \<Rightarrow> (Inl e, s1, log)
      | (Inr resolution, s1) \<Rightarrow>
        if ax_status resolution \<noteq> RESOLVED_CONFIRMED then (resolution_failure resolution tid, s1, log)
        else (case ax_pick resolution of
                None \<Rightarrow> (Inl AssertionError, s1, log)
              | Some pick \<Rightarrow>
                (case image_tool (av_id pick) log of
                   (Inl e, log1) \<Rightarrow> (Inl e, s1, log1)
                 | (Inr result, log1) \<Rightarrow> (prepared_image tid result, s1, log1))))"

text \<open>What the use case relies on: a resolver that confirms picks.\<close>

locale pick_resolver =
  fixes resolver :: "conversation_scope \<Rightarrow> 's \<Rightarrow> active_pick_resolution res \<times> 's"
    and confirmed :: "conversation_scope \<Rightarrow> 's \<Rightarrow> available_pick \<Rightarrow> bool"
  assumes resolver_confirms: "resolver c s = (Inr r, s') \<Longrightarrow> ax_status r = RESOLVED_CONFIRMED
    \<Longrightarrow> \<exists>p. ax_pick r = Some p \<and> confirmed c s p"
begin

lemma prepare_success:
  assumes "prepare resolver image_tool tid c s log = (Inr p, s', log')" "pp_success p"
  shows "\<exists>pick log1 result img. confirmed c s pick \<and> image_tool (av_id pick) log = (Inr result, log1)
    \<and> tr_success result \<and> tr_data result = Some img \<and> pp_active_pick_id p = Some (ie_pick_id img)
    \<and> pp_media_url p = Some (ie_image_url img)
    \<and> list_all (\<lambda>e. ei_source e = BUENPICK_INTERNAL_API \<and> ei_source_reference e = Some (ie_pick_id img))
        (pp_confirmed_data p)"
proof -
  obtain q s1 where q: "resolver c s = (q, s1)" by fastforce
  with assms obtain r where r: "q = Inr r" "ax_status r = RESOLVED_CONFIRMED"
    by (cases q) (auto simp: prepare_def resolution_failure_def failed_preparation_def
        split: if_splits active_pick_resolution_status.splits)
  from resolver_confirms [OF q [unfolded r(1)] r(2)] obtain pick where
    pick: "ax_pick r = Some pick" "confirmed c s pick" by blast
  obtain t log1 where t: "image_tool (av_id pick) log = (t, log1)" by fastforce
  with assms q r pick obtain result where result: "t = Inr result" "prepared_image tid result = Inr p"
    by (cases t) (auto simp: prepare_def)
  from result(2) assms(2) obtain img where img: "tr_success result" "tr_data result = Some img"
    by (cases "tr_success result"; cases "tr_data result")
      (auto simp: prepared_image_def failed_preparation_def)
  with result(2) have "pp_active_pick_id p = Some (ie_pick_id img)" "pp_media_url p = Some (ie_image_url img)"
    "list_all (\<lambda>e. ei_source e = BUENPICK_INTERNAL_API \<and> ei_source_reference e = Some (ie_pick_id img))
        (pp_confirmed_data p)"
    by (auto simp: prepared_image_def rbind_eq_Inr image_evidence_def)
  with pick t result img show ?thesis by blast
qed

end

definition reconfirmed ::
  "('s \<Rightarrow> conversation_scope \<Rightarrow> active_pick_reference option) \<Rightarrow> (pystr \<Rightarrow> available_pick res)
    \<Rightarrow> conversation_scope \<Rightarrow> 's \<Rightarrow> available_pick \<Rightarrow> bool" where
  "reconfirmed stored client c s p \<longleftrightarrow> (\<exists>v. stored s c = Some v \<and> client (ap_pick_id v) = Inr p)"

sublocale active_pick_state \<subseteq> resolves: pick_resolver
  "\<lambda>c. resolve ops sha ttl dump parse now client c None"
  "reconfirmed (decoded view (active_pick_key_for sha) parse) client" for now client
  by unfold_locales (use resolve_contract in \<open>fastforce simp: asked_pick_def reconfirmed_def\<close>)

context active_pick_state
begin

lemmas image_prepared = resolves.prepare_success

end

interpretation local_resolver: pick_resolver
  "\<lambda>c. resolve memory_redis id 60 dump_reference parse_reference now client c None"
  "reconfirmed (decoded ks_view (active_pick_key_for id) parse_reference) client" for now client
  by (rule local_active.resolves.pick_resolver_axioms)

lemma prepare_valid:
  assumes "prepare resolver image_tool tid c s log = (Inr p, s', log')"
  shows "valid_pick_image_preparation p \<and> (\<not> pp_success p \<longrightarrow> pp_media_url p = None \<and> pp_confirmed_data p = [])"
proof -
  have f: "failed_preparation code msg a t = Inr p \<Longrightarrow> valid_pick_image_preparation p
      \<and> pp_media_url p = None \<and> pp_confirmed_data p = []" for code msg a t p
    by (auto simp: failed_preparation_def)
  from assms consider r where "resolution_failure r tid = Inr p" | result where "prepared_image tid result = Inr p"
    by (auto simp: prepare_def split: prod.splits sum.splits if_splits option.splits)
  then show ?thesis
  proof cases
    case 1
    with f show ?thesis by (cases "ax_status r") (auto simp: resolution_failure_def)
  next
    case 2
    with f show ?thesis
      by (cases "tr_success result"; cases "tr_data result") (auto simp: prepared_image_def rbind_eq_Inr)
  qed
qed

lemma tool_get_image_success:
  assumes "tool_get_image el latency tid client pid log = (Inr result, log1)" "tr_data result = Some img"
  shows "\<exists>again. client pid = Inr again \<and> collect_image (Inr again) = Inr img"
proof -
  have "collect_image (client pid) = Inr img"
    using assms by (cases "collect_image (client pid)")
      (auto simp: tool_get_image_def run_tool_def split: sum.splits exn.splits)
  then show ?thesis by (auto simp: collect_image_def rbind_eq_Inr)
qed

text \<open>
  An image is sent only for the pick that was just reconfirmed. When the preparation succeeds,
  the conversation had a stored pick, BuenPick returned it now, and the media URL is an image that
  BuenPick returned for it in a second call; the evidence comes from that answer only. Otherwise the
  preparation carries no media and no evidence, but an error code and a message for the person.
\<close>

theorem prepare_truthful:
  assumes "redis_server ops view" and "0 < ttl"
    and "\<And>x. valid_active_pick_reference x \<Longrightarrow> parse (dump x) = Some x"
    and "prepare (\<lambda>c. resolve ops sha ttl dump parse now client c None) (tool_get_image el latency tid client)
      tid c s log = (Inr p, s', log')"
  shows "valid_pick_image_preparation p
    \<and> (if pp_success p
       then \<exists>v pick again img. decoded view (active_pick_key_for sha) parse s c = Some v
         \<and> client (ap_pick_id v) = Inr pick \<and> client (av_id pick) = Inr again \<and> collect_image (Inr again) = Inr img
         \<and> pp_active_pick_id p = Some (av_id again) \<and> pp_media_url p = Some (ie_image_url img)
         \<and> list_all (\<lambda>e. ei_source e = BUENPICK_INTERNAL_API) (pp_confirmed_data p)
       else pp_media_url p = None \<and> pp_confirmed_data p = [] \<and> pp_error_code p \<noteq> None
         \<and> truthy (pp_user_safe_message p))"
proof (cases "pp_success p")
  case True
  have "active_pick_state ops view sha ttl {c} dump parse"
    using assms(1-3) by (simp add: active_pick_state_def active_pick_state_axioms_def redis_state_def
        redis_state_axioms_def)
  from active_pick_state.image_prepared [OF this assms(4) True]
  obtain pick log1 result img where prepared:
    "reconfirmed (decoded view (active_pick_key_for sha) parse) client c s pick"
    "tool_get_image el latency tid client (av_id pick) log = (Inr result, log1)" "tr_data result = Some img"
    "pp_active_pick_id p = Some (ie_pick_id img)" "pp_media_url p = Some (ie_image_url img)"
    "list_all (\<lambda>e. ei_source e = BUENPICK_INTERNAL_API \<and> ei_source_reference e = Some (ie_pick_id img))
      (pp_confirmed_data p)" by blast
  from tool_get_image_success [OF prepared(2,3)] obtain again where
    again: "client (av_id pick) = Inr again" "collect_image (Inr again) = Inr img" by blast
  then have "ie_pick_id img = av_id again" by (auto simp: collect_image_def split: list.splits option.splits)
  moreover have "list_all (\<lambda>e. ei_source e = BUENPICK_INTERNAL_API) (pp_confirmed_data p)"
    using prepared(6) by (auto simp: list_all_iff)
  ultimately show ?thesis using True again prepared(1,4,5) prepare_valid [OF assms(4)]
    by (auto simp: reconfirmed_def)
qed (use prepare_valid [OF assms(4)] in \<open>auto simp: valid_pick_image_preparation_def\<close>)

definition sample_image :: pick_image_evidence where
  "sample_image = \<lparr>ie_pick_id = lit ''p1'', ie_title = lit ''Bolsa sorpresa'', ie_image_url = lit ''https://img/1.jpg''\<rparr>"

lemma sample_image_tool:
  "fst (tool_get_image (\<lambda>n. 0) 5 (lit ''t1'') sample_client (lit ''p1'') [])
    = Inr \<lparr>tr_success = True, tr_data = Some sample_image, tr_error_code = None, tr_user_safe_message = None,
       tr_latency_ms = 5, tr_trace_id = lit ''t1''\<rparr>"
  by (simp add: tool_get_image_def run_tool_def emit_counts_def construct_def valid_defs opt_nonneg_def
      collect_image_def sample_client_def sample_pick_def sample_image_def)

lemma sample_prepare:
  "\<exists>p log'. prepare (\<lambda>c. resolve memory_redis id 60 dump_reference parse_reference 0 sample_client c None)
      (tool_get_image (\<lambda>n. 0) 5 (lit ''t1'') sample_client) (lit ''t1'') sample_scope sample_stored []
    = (Inr p, sample_stored, log') \<and> pp_success p"
proof -
  obtain log' where "tool_get_image (\<lambda>n. 0) 5 (lit ''t1'') sample_client (lit ''p1'') []
      = (Inr \<lparr>tr_success = True, tr_data = Some sample_image, tr_error_code = None, tr_user_safe_message = None,
       tr_latency_ms = 5, tr_trace_id = lit ''t1''\<rparr>, log')"
    using sample_image_tool by (metis prod.collapse)
  moreover have "av_id sample_pick = lit ''p1''" by (simp add: sample_pick_def)
  ultimately show ?thesis
    by (simp add: prepare_def sample_resolve sample_confirmed_def prepared_image_def image_evidence_def
        construct_def valid_defs sample_image_def)
qed

theorem prepare_truthful_witness:
  "\<exists>p. pp_success p \<and> pp_media_url p = Some (lit ''https://img/1.jpg'') \<and> valid_pick_image_preparation p"
proof -
  from sample_prepare obtain p log' where p: "pp_success p"
    "prepare (\<lambda>c. resolve memory_redis id 60 dump_reference parse_reference 0 sample_client c None)
      (tool_get_image (\<lambda>n. 0) 5 (lit ''t1'') sample_client) (lit ''t1'') sample_scope sample_stored []
    = (Inr p, sample_stored, log')" by blast
  from prepare_truthful [OF mem.redis_server_axioms _ parse_dump_reference p(2)] p(1)
  obtain v :: active_pick_reference and pick again img where
    "sample_client (ap_pick_id v) = Inr pick" "sample_client (av_id pick) = Inr again"
    "collect_image (Inr again) = Inr img" "pp_media_url p = Some (ie_image_url img)"
    "valid_pick_image_preparation p" by (simp split: if_splits) blast
  moreover from this(2) have "again = sample_pick" by (auto simp: sample_client_def split: if_splits)
  ultimately show ?thesis using p(1) by (auto simp: collect_image_def sample_pick_def)
qed

end
