(* ===== verification/Queue_Refinement.thy ===== *)
theory Queue_Refinement
  imports Processing
begin

text \<open>
  An abstract queue that the message table implements: a finite map from message to job, with the
  number of attempts of each job and when it may run or was taken. The operations of
  \<open>src/src/piki/db/processing.py\<close> and the repositories that add messages are simulated by its steps.
\<close>

section \<open>The abstract queue\<close>

datatype job =
    Queued "micros option" int
  | Running "micros option" int
  | Done int
  | Dead int

type_synonym job_queue = "uuid \<rightharpoonup> job"

inductive job_step :: "job_queue \<Rightarrow> job_queue \<Rightarrow> bool" where
  enqueue: "q mid = None \<Longrightarrow> job_step q (q(mid \<mapsto> Queued (Some due) 0))"
| take: "q mid = Some (Queued (Some due) n) \<Longrightarrow> due \<le> now \<Longrightarrow> job_step q (q(mid \<mapsto> Running (Some now) (n + 1)))"
| retake: "q mid = Some (Running (Some taken) n) \<Longrightarrow> taken \<le> now - timeout * 1000000 \<Longrightarrow>
    job_step q (q(mid \<mapsto> Running (Some now) (n + 1)))"
| finish: "q mid = Some (Running taken n) \<Longrightarrow> job_step q (q(mid \<mapsto> Done n))"
| retry: "q mid = Some (Running taken n) \<Longrightarrow> job_step q (q(mid \<mapsto> Queued (Some (now + 1000000)) n))"
| give_up: "q mid = Some (Running taken n) \<Longrightarrow> job_step q (q(mid \<mapsto> Dead n))"

text \<open>Settling a job, as a function: only a running job can be settled.\<close>

definition settle :: "(int \<Rightarrow> job) \<Rightarrow> uuid \<Rightarrow> job_queue \<Rightarrow> unit res \<times> job_queue" where
  "settle f mid q = (case q mid of Some (Running taken n) \<Rightarrow> (Inr (), q(mid \<mapsto> f n)) | _ \<Rightarrow> (Inl RuntimeError, q))"

section \<open>Abstraction\<close>

definition job_of :: "message_row \<Rightarrow> job option" where
  "job_of m = (case ms_processing_status m of
     None \<Rightarrow> None
   | Some PS_PENDING \<Rightarrow> Some (Queued (ms_processing_available_at m) (ms_processing_attempts m))
   | Some PS_PROCESSING \<Rightarrow> Some (Running (ms_processing_claimed_at m) (ms_processing_attempts m))
   | Some PS_COMPLETED \<Rightarrow> Some (Done (ms_processing_attempts m))
   | Some PS_FAILED \<Rightarrow> Some (Dead (ms_processing_attempts m)))"

definition abs_queue :: "database \<Rightarrow> job_queue" where
  "abs_queue d mid = Option.bind (find (\<lambda>m. ms_id m = mid) (messages d)) job_of"

lemma find_update_where:
  assumes "\<And>r. ms_id (f r) = ms_id r"
  shows "find (\<lambda>m. ms_id m = mid) (update_where p f rows)
    = map_option (\<lambda>r. if p r then f r else r) (find (\<lambda>m. ms_id m = mid) rows)"
  by (induction rows) (simp_all add: update_where_def assms)

lemma abs_queue_row:
  assumes "db_ok d" "m \<in> set (messages d)"
  shows "abs_queue d (ms_id m) = job_of m"
proof -
  from assms(2) obtain m' where "find (\<lambda>r. ms_id r = ms_id m) (messages d) = Some m'"
    by (cases "find (\<lambda>r. ms_id r = ms_id m) (messages d)") (auto simp: find_None_iff)
  moreover from this have "m' \<in> set (messages d)" "ms_id m' = ms_id m"
    by (auto simp: find_Some_iff)
  ultimately show ?thesis using db_ok_message_id_eq [OF assms(1) _ assms(2)] by (auto simp: abs_queue_def)
qed

lemma abs_queue_absent: "mid \<notin> set (map ms_id (messages d)) \<Longrightarrow> abs_queue d mid = None"
  by (auto simp: abs_queue_def find_None_iff bind_eq_None_conv)

lemma abs_queue_update:
  assumes "db_ok d" "m \<in> set (messages d)" "\<And>r. ms_id (f r) = ms_id r"
    and "\<And>r. r \<in> set (messages d) \<Longrightarrow> p r \<longleftrightarrow> r = m"
  shows "abs_queue (d\<lparr>messages := update_where p f (messages d)\<rparr>) = (abs_queue d)(ms_id m := job_of (f m))"
proof
  fix mid
  show "abs_queue (d\<lparr>messages := update_where p f (messages d)\<rparr>) mid = ((abs_queue d)(ms_id m := job_of (f m))) mid"
  proof (cases "find (\<lambda>r. ms_id r = mid) (messages d)")
    case None
    then have "ms_id m \<noteq> mid" using assms(2) by (auto simp: find_None_iff)
    with None show ?thesis by (simp add: abs_queue_def find_update_where [OF assms(3)])
  next
    case (Some r)
    then have r: "r \<in> set (messages d)" "ms_id r = mid" by (auto simp: find_Some_iff)
    with db_ok_message_id_eq [OF assms(1,2) r(1)] have "mid = ms_id m \<longleftrightarrow> r = m" by metis
    with Some assms(4) [OF r(1)] show ?thesis by (simp add: abs_queue_def find_update_where [OF assms(3)])
  qed
qed

lemma abs_queue_insert:
  assumes "insert_message row d = (Inr x, d')"
  shows "abs_queue d' = (case x of None \<Rightarrow> abs_queue d | Some m \<Rightarrow> (abs_queue d)(ms_id row := job_of row))"
    and "x = Some m \<Longrightarrow> abs_queue d (ms_id row) = None"
proof -
  have fresh: "ms_id row \<notin> set (map ms_id (messages d))" and d': "d' = d\<lparr>messages := messages d @ [row]\<rparr>" if "x = Some m" for m
    using assms that by (auto simp: insert_message_Some conflicts_def pk_def)
  then show "x = Some m \<Longrightarrow> abs_queue d (ms_id row) = None" using abs_queue_absent by blast
  have app: "find q (xs @ ys) = (case find q xs of None \<Rightarrow> find q ys | Some r \<Rightarrow> Some r)" for q xs and ys :: "message_row list"
    by (induction xs) auto
  show "abs_queue d' = (case x of None \<Rightarrow> abs_queue d | Some m \<Rightarrow> (abs_queue d)(ms_id row := job_of row))"
  proof (cases x)
    case None
    with assms show ?thesis by (simp add: insert_message_None)
  next
    case (Some m)
    from fresh [OF this] have "find (\<lambda>r. ms_id r = ms_id row) (messages d) = None"
      unfolding find_None_iff by (metis image_eqI list.set_map)
    with d' [OF Some] Some show ?thesis by (auto simp: abs_queue_def fun_eq_iff app split: option.splits)
  qed
qed

section \<open>Refinement\<close>

lemma transition_refines:
  assumes "db_ok d" "opt_varchar 100 err"
    and f: "\<And>m n. ms_processing_attempts m = n \<Longrightarrow> job_of (transitioned st err av m) = Some (f n)"
    and "session (transition_body mid st err av) d = (r, d')"
  shows "(r, abs_queue d') = settle f mid (abs_queue d)"
proof (cases "\<exists>m \<in> set (messages d). in_progress mid m")
  case True
  then obtain m where m: "m \<in> set (messages d)" "in_progress mid m" by blast
  then have id: "ms_id m = mid" and st: "ms_processing_status m = Some PS_PROCESSING" by (simp_all add: in_progress_def)
  have only: "r \<in> set (messages d) \<Longrightarrow> in_progress mid r \<longleftrightarrow> r = m" for r
    using m db_ok_message_id_eq [OF assms(1) _ m(1), of r] by (auto simp: in_progress_def)
  have "unique_on (pk ms_id) (messages d)" using assms(1) by (simp add: db_ok_def db_unique_def)
  from filter_unique_key [OF this m(1), of "ms_id m"] have "filter (\<lambda>r. ms_id r = ms_id m) (messages d) = [m]"
    by (simp add: pk_def)
  moreover have "filter (in_progress mid) (messages d) = filter (\<lambda>r. ms_id r = ms_id m) (messages d)"
    using only db_ok_message_id_eq [OF assms(1) _ m(1)] by (intro filter_cong) auto
  ultimately have "filter (in_progress mid) (messages d) = [m]" by simp
  then have "r = Inr ()" "d' = d\<lparr>messages := update_where (in_progress mid) (transitioned st err av) (messages d)\<rparr>"
    using assms(2,4) by (simp_all add: session_def transition_body_def)
  moreover have "job_of m = Some (Running (ms_processing_claimed_at m) (ms_processing_attempts m))"
    by (simp add: job_of_def st)
  ultimately show ?thesis
    using abs_queue_update [OF assms(1) m(1) _ only, of "transitioned st err av"] abs_queue_row [OF assms(1) m(1)] f [of m]
    by (simp add: settle_def id)
next
  case False
  then have "filter (in_progress mid) (messages d) = []" by (auto simp: filter_empty_conv)
  then have "r = Inl RuntimeError" "d' = d" using assms(2,4) by (simp_all add: session_def transition_body_def)
  moreover have "abs_queue d mid \<noteq> Some (Running taken n)" for taken n
  proof (cases "find (\<lambda>m. ms_id m = mid) (messages d)")
    case (Some m)
    then have "m \<in> set (messages d)" "ms_id m = mid" by (auto simp: find_Some_iff)
    with False Some show ?thesis
      by (auto simp: abs_queue_def job_of_def in_progress_def split: option.splits processing_status.splits)
  qed (simp add: abs_queue_def)
  ultimately show ?thesis by (auto simp: settle_def split: option.splits job.splits)
qed

lemma complete_refines:
  assumes "db_ok d"
  shows "(fst (complete mid d), abs_queue (snd (complete mid d))) = settle Done mid (abs_queue d)"
  unfolding complete_def
  by (rule transition_refines [OF assms _ _ prod.collapse [symmetric]])
    (simp_all add: opt_varchar_def job_of_def transitioned_def)

lemma fail_refines:
  assumes "db_ok d" "varchar 100 err"
  shows "(fst (fail now mid err retry d), abs_queue (snd (fail now mid err retry d)))
    = settle (if retry then Queued (Some (now + 1000000)) else Dead) mid (abs_queue d)"
  unfolding fail_def
  by (rule transition_refines [OF assms(1) _ _ prod.collapse [symmetric]])
    (simp_all add: opt_varchar_def assms(2) job_of_def transitioned_def)

lemma claim_refines:
  assumes "db_ok d" "claim_next locked now timeout d = (Inr (Some job), d')"
  shows "job_step (abs_queue d) (abs_queue d')"
proof -
  from assms(2) obtain m where m: "m \<in> set (messages d)" "claimable now (now - timeout * 1000000) m"
    "d' = d\<lparr>messages := update_where (\<lambda>r. ms_id r = ms_id m) (claimed_row now) (messages d)\<rparr>"
    by (rule claim_next_Some)
  have only: "r \<in> set (messages d) \<Longrightarrow> ms_id r = ms_id m \<longleftrightarrow> r = m" for r
    using db_ok_message_id_eq [OF assms(1) _ m(1)] by auto
  have "job_of (claimed_row now m) = Some (Running (Some now) (ms_processing_attempts m + 1))"
    by (simp add: job_of_def claimed_row_def)
  with abs_queue_update [OF assms(1) m(1) _ only, of "claimed_row now"]
  have d': "abs_queue d' = (abs_queue d)(ms_id m \<mapsto> Running (Some now) (ms_processing_attempts m + 1))"
    by (simp add: m(3))
  show ?thesis
    using m(2) abs_queue_row [OF assms(1) m(1)] unfolding d' claimable_def not_after_def
    by (auto simp: job_of_def intro: job_step.take job_step.retake split: option.splits)
qed

lemma settle_step:
  assumes "settle f mid q = (r, q')" "\<And>taken n. q mid = Some (Running taken n) \<Longrightarrow> job_step q (q(mid \<mapsto> f n))"
  shows "job_step\<^sup>=\<^sup>= q q'"
  using assms by (auto simp: settle_def split: option.splits job.splits)

lemma upsert_abs: "upsert_conversation now c d = (Inr conv, d1) \<Longrightarrow> abs_queue d1 = abs_queue d"
  by (erule upsert_conversation_Inr) (auto simp: abs_queue_def fun_eq_iff)

lemma inbound_refines:
  assumes "record_inbound now clock cid mid account msg tid enqueue d = (Inr p, d')"
  shows "job_step\<^sup>=\<^sup>= (abs_queue d) (abs_queue d')"
  using assms
proof (rule record_inbound_Inr)
  fix conv d1 x
  assume u: "upsert_conversation now (new_conversation now cid account msg) d = (Inr conv, d1)"
    and i: "insert_message (inbound_row now clock mid conv msg tid enqueue) d1 = (Inr x, d')"
  have row: "ms_id (inbound_row now clock mid conv msg tid enqueue) = mid"
    "job_of (inbound_row now clock mid conv msg tid enqueue) = (if enqueue then Some (Queued (Some clock) 0) else None)"
    by (simp_all add: inbound_row_def job_of_def)
  show ?thesis
    using abs_queue_insert [OF i] upsert_abs [OF u] job_step.enqueue [of "abs_queue d" mid clock]
    by (cases x) (auto simp: row split: if_splits)
qed

lemma queue_step_refines:
  assumes "queue_step d d'" "db_ok d"
  shows "job_step\<^sup>=\<^sup>= (abs_queue d) (abs_queue d')"
  using assms(1)
proof cases
  case (claimed locked now timeout r)
  consider e where "r = Inl e" | "r = Inr None" | job where "r = Inr (Some job)"
    by (cases r; cases "projr r") auto
  then show ?thesis
  proof cases
    case (3 job)
    from claim_refines [OF assms(2) claimed [unfolded 3]] show ?thesis by simp
  qed (use claimed claim_next_raised claim_next_None in blast)+
next
  case (completed mid r)
  then have "settle Done mid (abs_queue d) = (r, abs_queue d')" using complete_refines [OF assms(2), of mid] by simp
  then show ?thesis by (rule settle_step) (rule job_step.finish)
next
  case (failed now mid err retry r)
  show ?thesis
  proof (cases "varchar 100 err")
    case True
    with failed have "settle (if retry then Queued (Some (now + 1000000)) else Dead) mid (abs_queue d) = (r, abs_queue d')"
      using fail_refines [OF assms(2) True, of now mid retry] by simp
    then show ?thesis by (rule settle_step) (auto intro: job_step.retry job_step.give_up)
  next
    case False
    with failed have "d' = d" by (simp add: fail_def session_def transition_body_def opt_varchar_def)
    then show ?thesis by simp
  qed
next
  case (inbound now clock cid mid account msg tid enqueue p)
  from inbound_refines [OF inbound] show ?thesis .
next
  case (outbound now mid cid body tid ext p)
  then obtain x where i: "insert_message (outbound_row now mid cid body tid ext) d = (Inr x, d')"
    by (auto simp: record_outbound_def split: prod.splits sum.splits option.splits)
  have "job_of (outbound_row now mid cid body tid ext) = None" by (simp add: job_of_def outbound_row_def)
  with abs_queue_insert [OF i] show ?thesis by (cases x) auto
qed



end
