(* ===== verification/Regex.thy ===== *)
theory Regex
  imports Prelude
begin

text \<open>
  The part of Python's \<open>re\<close> that the grounding rules use: backtracking matching with greedy and lazy
  repetition, word boundaries, lookahead and end of text. \<open>ends r s i\<close> lists the positions where a
  match of \<open>r\<close> that starts at \<open>i\<close> may end, in the order in which the matcher tries them, so the match
  that \<open>re\<close> reports is the first. A repetition takes at most one round per remaining character,
  which is enough because a round that consumes nothing is not repeated.
\<close>

datatype rx =
    Rx_Char "nat \<Rightarrow> bool"
  | Rx_Eps
  | Rx_Seq rx rx
  | Rx_Alt rx rx
  | Rx_Star bool rx
  | Rx_UpTo nat rx
  | Rx_Boundary "nat \<Rightarrow> bool"
  | Rx_Ahead rx
  | Rx_End

fun rounds :: "bool \<Rightarrow> (nat \<Rightarrow> nat list) \<Rightarrow> nat \<Rightarrow> nat \<Rightarrow> nat list" where
  "rounds greedy f 0 i = [i]"
| "rounds greedy f (Suc n) i =
     (let more = concat (map (rounds greedy f n) (filter (\<lambda>j. i < j) (f i)))
      in if greedy then more @ [i] else i # more)"

definition at_boundary :: "(nat \<Rightarrow> bool) \<Rightarrow> pystr \<Rightarrow> nat \<Rightarrow> bool" where
  "at_boundary w s i \<longleftrightarrow> (0 < i \<and> i \<le> length s \<and> w (s ! (i - 1))) \<noteq> (i < length s \<and> w (s ! i))"

primrec ends :: "rx \<Rightarrow> pystr \<Rightarrow> nat \<Rightarrow> nat list" where
  "ends (Rx_Char p) s i = (if i < length s \<and> p (s ! i) then [Suc i] else [])"
| "ends Rx_Eps s i = [i]"
| "ends (Rx_Seq r t) s i = concat (map (ends t s) (ends r s i))"
| "ends (Rx_Alt r t) s i = ends r s i @ ends t s i"
| "ends (Rx_Star greedy r) s i = rounds greedy (ends r s) (length s - i) i"
| "ends (Rx_UpTo n r) s i = rounds True (ends r s) n i"
| "ends (Rx_Boundary w) s i = (if at_boundary w s i then [i] else [])"
| "ends (Rx_Ahead r) s i = (if ends r s i \<noteq> [] then [i] else [])"
| "ends Rx_End s i = (if i = length s \<or> (Suc i = length s \<and> s ! i = 10) then [i] else [])"

text \<open>\<open>finditer\<close> from position \<open>i\<close>, as the spans of the matches, and \<open>search\<close>.\<close>

function finditer :: "rx \<Rightarrow> pystr \<Rightarrow> nat \<Rightarrow> (nat \<times> nat) list" where
  "finditer r s i =
     (if length s < i then []
      else case ends r s i of
        [] \<Rightarrow> finditer r s (Suc i)
      | j # _ \<Rightarrow> (i, j) # finditer r s (if i < j then j else Suc i))"
  by pat_completeness auto
termination by (relation "measure (\<lambda>(r, s, i). Suc (length s) - i)") auto

declare finditer.simps [simp del]

definition search :: "rx \<Rightarrow> pystr \<Rightarrow> bool" where
  "search r s \<longleftrightarrow> list_ex (\<lambda>i. ends r s i \<noteq> []) [0..<Suc (length s)]"

definition span :: "pystr \<Rightarrow> nat \<times> nat \<Rightarrow> pystr" where
  "span s m = take (snd m - fst m) (drop (fst m) s)"

text \<open>Abbreviations of the pattern language.\<close>

definition rx_plus :: "rx \<Rightarrow> rx" where
  "rx_plus r = Rx_Seq r (Rx_Star True r)"

definition rx_seq :: "rx list \<Rightarrow> rx" where
  "rx_seq rs = foldr Rx_Seq rs Rx_Eps"

fun rx_alt :: "rx list \<Rightarrow> rx" where
  "rx_alt [] = Rx_Char (\<lambda>c. False)"
| "rx_alt [r] = r"
| "rx_alt (r # rs) = Rx_Alt r (rx_alt rs)"

definition rx_text :: "(nat \<Rightarrow> nat \<Rightarrow> bool) \<Rightarrow> pystr \<Rightarrow> rx" where
  "rx_text eq cs = rx_seq (map (\<lambda>c. Rx_Char (eq c)) cs)"

definition rx_class :: "(nat \<Rightarrow> nat \<Rightarrow> bool) \<Rightarrow> pystr \<Rightarrow> rx" where
  "rx_class eq cs = Rx_Char (\<lambda>c. list_ex (\<lambda>p. eq p c) cs)"

section \<open>Where matches end\<close>

lemma rounds_refl: "i \<in> set (rounds greedy f n i)"
  by (cases n) (simp_all add: Let_def)

lemma rounds_step:
  "j \<in> set (f i) \<Longrightarrow> i < j \<Longrightarrow> k \<in> set (rounds greedy f n j) \<Longrightarrow> k \<in> set (rounds greedy f (Suc n) i)"
  by (auto simp: Let_def)

lemma rounds_within:
  assumes "\<And>j k. k \<in> set (f j) \<Longrightarrow> j \<le> k \<and> (j \<le> length s \<longrightarrow> k \<le> length s) \<and> (\<forall>m. j \<le> m \<and> m < k \<longrightarrow> P (s ! m))"
    and "k \<in> set (rounds greedy f n i)"
  shows "i \<le> k \<and> (i \<le> length s \<longrightarrow> k \<le> length s) \<and> (\<forall>m. i \<le> m \<and> m < k \<longrightarrow> P (s ! m))"
  using assms(2)
proof (induction n arbitrary: i)
  case (Suc n)
  show ?case
  proof (cases "k = i")
    case False
    with Suc.prems obtain j where j: "j \<in> set (f i)" "i < j" "k \<in> set (rounds greedy f n j)"
      by (auto simp: Let_def split: if_splits)
    from assms(1) [OF j(1)] Suc.IH [OF j(3)] show ?thesis
      by (metis le_trans linorder_not_le)
  qed auto
qed auto

text \<open>Every character that a pattern may consume satisfies \<open>P\<close>.\<close>

primrec consumes :: "(nat \<Rightarrow> bool) \<Rightarrow> rx \<Rightarrow> bool" where
  "consumes P (Rx_Char p) = (\<forall>c. p c \<longrightarrow> P c)"
| "consumes P Rx_Eps = True"
| "consumes P (Rx_Seq r t) = (consumes P r \<and> consumes P t)"
| "consumes P (Rx_Alt r t) = (consumes P r \<and> consumes P t)"
| "consumes P (Rx_Star greedy r) = consumes P r"
| "consumes P (Rx_UpTo n r) = consumes P r"
| "consumes P (Rx_Boundary w) = True"
| "consumes P (Rx_Ahead r) = True"
| "consumes P Rx_End = True"

lemma ends_within:
  "j \<in> set (ends r s i) \<Longrightarrow> consumes P r \<Longrightarrow>
   i \<le> j \<and> (i \<le> length s \<longrightarrow> j \<le> length s) \<and> (\<forall>m. i \<le> m \<and> m < j \<longrightarrow> P (s ! m))"
proof (induction r arbitrary: i j)
  case (Rx_Char p)
  then show ?case by (auto split: if_splits simp: less_Suc_eq)
next
  case (Rx_Seq r t)
  then obtain k where k: "k \<in> set (ends r s i)" "j \<in> set (ends t s k)" by auto
  from Rx_Seq.IH(1) [OF k(1)] Rx_Seq.IH(2) [OF k(2)] Rx_Seq.prems(2) show ?case
    by simp (metis le_trans linorder_not_le)
next
  case (Rx_Alt r t)
  then show ?case by auto
next
  case (Rx_Star greedy r)
  then show ?case using rounds_within [of "ends r s" s P j greedy "length s - i" i] by simp
next
  case (Rx_UpTo n r)
  then show ?case using rounds_within [of "ends r s" s P j True n i] by simp
qed (auto split: if_splits)

lemma consumes_True: "consumes (\<lambda>c. True) r"
  by (induction r) simp_all

lemma ends_mono: "j \<in> set (ends r s i) \<Longrightarrow> i \<le> j"
  using ends_within [OF _ consumes_True] by blast

lemma rounds_run:
  assumes "\<And>m. i \<le> m \<Longrightarrow> m < k \<Longrightarrow> Suc m \<in> set (f m)" "i \<le> k" "k - i \<le> n"
  shows "k \<in> set (rounds greedy f n i)"
  using assms
proof (induction n arbitrary: i)
  case (Suc n)
  show ?case
  proof (cases "i = k")
    case False
    with Suc.prems have "i < k" by simp
    then have "k \<in> set (rounds greedy f n (Suc i))" using Suc.prems by (intro Suc.IH) auto
    with Suc.prems(1) [of i] \<open>i < k\<close> show ?thesis by (intro rounds_step [of "Suc i"]) auto
  next
    case True
    then show ?thesis by (simp only: rounds_refl)
  qed
qed simp

lemma star_run:
  "i \<le> k \<Longrightarrow> k \<le> length s \<Longrightarrow> (\<And>m. i \<le> m \<Longrightarrow> m < k \<Longrightarrow> p (s ! m)) \<Longrightarrow>
   k \<in> set (ends (Rx_Star greedy (Rx_Char p)) s i)"
  unfolding ends.simps(5) by (rule rounds_run) auto

section \<open>Where matches are found\<close>

lemma finditer_match:
  "(p, q) \<in> set (finditer r s i) \<Longrightarrow> q \<in> set (ends r s p) \<and> i \<le> p \<and> p \<le> length s"
proof (induction r s i rule: finditer.induct)
  case (1 r s i)
  show ?case
  proof (cases "ends r s i")
    case Nil
    with 1(1,3) show ?thesis by (auto simp: finditer.simps [of r s i] split: if_splits)
  next
    case (Cons j js)
    with 1(2,3) show ?thesis by (auto simp: finditer.simps [of r s i] split: if_splits)
  qed
qed

text \<open>A position where a match could start lies in a reported match, if matches are not empty.\<close>

lemma finditer_covers:
  assumes "\<And>i j. j \<in> set (ends r s i) \<Longrightarrow> i < j" and "ends r s k \<noteq> []" "i \<le> k" "k \<le> length s"
  shows "\<exists>p q. (p, q) \<in> set (finditer r s i) \<and> p \<le> k \<and> k < q"
  using assms
proof (induction r s i rule: finditer.induct)
  case (1 r s i)
  show ?case
  proof (cases "ends r s i")
    case Nil
    with 1(4,5) have "i \<noteq> k" by auto
    with 1(1) [OF _ Nil 1(3)] 1(4-6) Nil show ?thesis by (auto simp: finditer.simps [of r s i])
  next
    case (Cons j js)
    with 1(3) [of j i] have ij: "i < j" by simp
    show ?thesis
    proof (cases "k < j")
      case True
      with Cons 1(5,6) show ?thesis by (auto simp: finditer.simps [of r s i])
    next
      case False
      with 1(2) [OF _ Cons 1(3)] 1(4-6) Cons ij show ?thesis by (auto simp: finditer.simps [of r s i])
    qed
  qed
qed

lemma length_span: "p \<le> q \<Longrightarrow> q \<le> length s \<Longrightarrow> length (span s (p, q)) = q - p"
  by (simp add: span_def)

lemma nth_span: "m < q - p \<Longrightarrow> q \<le> length s \<Longrightarrow> span s (p, q) ! m = s ! (p + m)"
  by (simp add: span_def)

lemma sublist_span: "p \<le> a \<Longrightarrow> b \<le> q \<Longrightarrow> a \<le> b \<Longrightarrow> sublist (span s (a, b)) (span s (p, q))"
proof -
  assume "p \<le> a" "b \<le> q" "a \<le> b"
  then have "span s (a, b) = take (b - a) (drop (a - p) (take (q - p) (drop p s)))"
    by (simp add: span_def drop_take min_def)
  then show ?thesis unfolding span_def [of s "(p, q)"]
    by (metis fst_conv snd_conv sublist_drop sublist_take sublist_order.order.trans)
qed

end
