(* ===== verification/Grounding.thy ===== *)
theory Grounding
  imports Regex Contracts
begin

text \<open>
  Grounding, \<open>src/src/piki/composition/grounding.py\<close>: the patterns, the validator and the factual
  fallback. The Unicode tables are the argument \<open>u\<close>; the locale \<open>unicode_tables\<close> states what the
  proofs use of them.
\<close>

section \<open>Data\<close>

datatype grounding_failure = GF_EMPTY | GF_INTERNAL_LEAK | GF_UNSUPPORTED_HIGH_RISK_FACT
  | GF_UNAVAILABLE_CONTENT_CLAIM | GF_INTERNAL_REFERENCE | GF_EVIDENCE_FREE_COMMERCIAL_CLAIM

fun grounding_failure_value :: "grounding_failure \<Rightarrow> pystr" where
  "grounding_failure_value GF_EMPTY = lit ''empty''"
| "grounding_failure_value GF_INTERNAL_LEAK = lit ''internal_leak''"
| "grounding_failure_value GF_UNSUPPORTED_HIGH_RISK_FACT = lit ''unsupported_high_risk_fact''"
| "grounding_failure_value GF_UNAVAILABLE_CONTENT_CLAIM = lit ''unavailable_content_claim''"
| "grounding_failure_value GF_INTERNAL_REFERENCE = lit ''internal_reference''"
| "grounding_failure_value GF_EVIDENCE_FREE_COMMERCIAL_CLAIM = lit ''evidence_free_commercial_claim''"

record grounding_result =
  gr_safe :: bool
  gr_text :: "pystr option"
  gr_failures :: "grounding_failure list"

definition valid_grounding_result :: "grounding_result \<Rightarrow> bool" where
  [valid_defs]: "valid_grounding_result r \<longleftrightarrow>
     \<not> (gr_safe r \<noteq> (gr_text r \<noteq> None \<and> gr_failures r = []))
     \<and> \<not> (\<not> gr_safe r \<and> gr_failures r = [])"

definition internal_patterns :: "pystr list" where
  "internal_patterns =
     [lit ''DATOS CONFIRMADOS'', lit ''DATOS NO DISPONIBLES'', lit ''ACCIONES REALIZADAS'',
      lit ''REGLAS DE REDACCI'' @ [211] @ lit ''N'', lit ''SYSTEM PROMPT'', lit ''TRACE_ID'',
      lit ''BUENPICK_INTERNAL_API'', lit ''<TOOLS>'', lit ''TOOL_RESULT'']"

section \<open>Patterns\<close>

definition rx_digit :: "ucd \<Rightarrow> rx" where
  "rx_digit u = Rx_Char (\<lambda>c. uc_digit u c \<noteq> None)"

definition rx_space :: rx where
  "rx_space = Rx_Char is_space"

definition rx_spaces :: rx where
  "rx_spaces = rx_plus rx_space"

definition rx_b :: "ucd \<Rightarrow> rx" where
  "rx_b u = Rx_Boundary (uc_word u)"

text \<open>\<open>https?://[^\s<>"']+\<close>\<close>

definition url_pattern :: "ucd \<Rightarrow> rx" where
  "url_pattern u = rx_seq
     [rx_text (uc_ci u) (lit ''http''), Rx_UpTo 1 (rx_text (uc_ci u) (lit ''s'')), rx_text (uc_ci u) (lit ''://''),
      rx_plus (Rx_Char (\<lambda>c. \<not> (is_space c \<or> c \<in> set [60, 62, 34, 39])))]"

text \<open>An optional \<open>ARS\<close>, a dollar sign, a digit, lazily digits and dots, optional decimals, and a delimiter ahead.\<close>

definition price_pattern :: "ucd \<Rightarrow> rx" where
  "price_pattern u = rx_seq
     [Rx_UpTo 1 (Rx_Seq (rx_text (uc_ci u) (lit ''ARS'')) (Rx_Star True rx_space)),
      rx_text (uc_ci u) (lit ''$''), Rx_Star True rx_space, rx_digit u,
      Rx_Star False (Rx_Char (\<lambda>c. uc_digit u c \<noteq> None \<or> c = 46)),
      Rx_UpTo 1 (rx_seq [rx_text (uc_ci u) (lit '',''), rx_digit u, Rx_UpTo 1 (rx_digit u)]),
      Rx_Ahead (rx_alt [rx_space, Rx_End, Rx_Char (\<lambda>c. c \<in> set (lit '').,;:!?''))])]"

text \<open>A time of day between word boundaries.\<close>

definition time_pattern :: "ucd \<Rightarrow> rx" where
  "time_pattern u = rx_seq
     [rx_b u,
      Rx_Alt (rx_seq [rx_class (=) (lit ''01''), rx_digit u])
        (rx_seq [rx_text (=) (lit ''2''), Rx_Char (\<lambda>c. 48 \<le> c \<and> c \<le> 51)]),
      rx_text (=) (lit '':''), Rx_Char (\<lambda>c. 48 \<le> c \<and> c \<le> 53), rx_digit u, rx_b u]"

text \<open>Digits with groups after dots or commas, between word boundaries.\<close>

definition number_groups :: "ucd \<Rightarrow> rx" where
  "number_groups u = Rx_Star True (Rx_Seq (rx_class (=) (lit ''.,'')) (rx_plus (rx_digit u)))"

definition number_pattern :: "ucd \<Rightarrow> rx" where
  "number_pattern u = Rx_Seq (rx_b u) (Rx_Seq (rx_plus (rx_digit u)) (Rx_Seq (number_groups u) (rx_b u)))"

definition high_risk_patterns :: "ucd \<Rightarrow> rx list" where
  "high_risk_patterns u = [url_pattern u, price_pattern u, time_pattern u, number_pattern u]"

definition content_claim :: "ucd \<Rightarrow> rx" where
  "content_claim u = rx_seq
     [rx_b u,
      rx_alt [rx_text (uc_ci u) (lit ''incluye''), rx_text (uc_ci u) (lit ''contiene''), rx_text (uc_ci u) (lit ''trae''),
        rx_seq [rx_text (uc_ci u) (lit ''viene''), rx_spaces, rx_text (uc_ci u) (lit ''con'')],
        rx_seq [rx_text (uc_ci u) (lit ''est''), rx_class (uc_ci u) [225, 97], rx_spaces,
          rx_text (uc_ci u) (lit ''compuest''), rx_class (uc_ci u) (lit ''oa'')]],
      rx_b u]"

definition rx_words :: "ucd \<Rightarrow> nat \<Rightarrow> rx" where
  "rx_words u n = Rx_UpTo n (Rx_Seq rx_spaces (rx_plus (Rx_Char (uc_word u))))"

definition rx_found :: "ucd \<Rightarrow> rx" where
  "rx_found u = rx_seq [rx_text (uc_ci u) (lit ''encontr''), rx_class (uc_ci u) [101, 233]]"

definition evidence_free_availability :: "ucd \<Rightarrow> rx" where
  "evidence_free_availability u = rx_seq
     [rx_b u,
      Rx_Alt
        (rx_seq [rx_text (uc_ci u) (lit ''no''), rx_spaces,
          rx_alt [rx_text (uc_ci u) (lit ''tengo''), rx_text (uc_ci u) (lit ''hay''), rx_found u],
          rx_words u 3, rx_spaces,
          rx_alt [rx_text (uc_ci u) (lit ''rescate''), rx_text (uc_ci u) (lit ''pick''),
            rx_seq [rx_text (uc_ci u) (lit ''opci''), rx_class (uc_ci u) [111, 243], rx_text (uc_ci u) (lit ''n'')]]])
        (rx_seq [rx_alt [rx_text (uc_ci u) (lit ''hay''), rx_found u], rx_words u 5, rx_spaces,
          rx_alt [rx_seq [rx_text (uc_ci u) (lit ''disponible''), Rx_UpTo 1 (rx_text (uc_ci u) (lit ''s''))],
            rx_seq [rx_text (uc_ci u) (lit ''para''), rx_spaces, rx_text (uc_ci u) (lit ''rescatar'')]]]),
      rx_b u]"

section \<open>Validation\<close>

definition normalized :: "ucd \<Rightarrow> pystr \<Rightarrow> pystr" where
  "normalized u v = join [32] (split_ws (casefold u v))"

definition evidence_corpus :: "ucd \<Rightarrow> context_packet \<Rightarrow> pystr" where
  "evidence_corpus u packet = normalized u (join [10] (map ei_value (cp_confirmed_data packet)))"

definition has_internal :: "ucd \<Rightarrow> pystr \<Rightarrow> bool" where
  "has_internal u s \<longleftrightarrow> list_ex (\<lambda>pattern. occurs_in pattern (upper u s)) internal_patterns"

definition high_risk_token :: "ucd \<Rightarrow> pystr \<Rightarrow> nat \<times> nat \<Rightarrow> pystr" where
  "high_risk_token u candidate m = normalized u (rstrip_by (\<lambda>c. c \<in> set (lit ''.,;:!?)'')) (span candidate m))"

definition unsupported_fact :: "ucd \<Rightarrow> pystr \<Rightarrow> context_packet \<Rightarrow> bool" where
  "unsupported_fact u candidate packet \<longleftrightarrow>
     list_ex (\<lambda>pattern. list_ex (\<lambda>m. high_risk_token u candidate m \<noteq> []
         \<and> \<not> occurs_in (high_risk_token u candidate m) (evidence_corpus u packet))
       (finditer pattern candidate 0)) (high_risk_patterns u)"

definition reveals_reference :: "ucd \<Rightarrow> pystr \<Rightarrow> context_packet \<Rightarrow> bool" where
  "reveals_reference u candidate packet \<longleftrightarrow>
     list_ex (\<lambda>item. truthy (ei_source_reference item)
         \<and> occurs_in (normalized u (or_empty (ei_source_reference item))) (normalized u candidate)
         \<and> \<not> occurs_in (normalized u (or_empty (ei_source_reference item))) (evidence_corpus u packet))
       (cp_confirmed_data packet)"

definition has_api_evidence :: "context_packet \<Rightarrow> bool" where
  "has_api_evidence packet \<longleftrightarrow> list_ex (\<lambda>item. ei_source item = BUENPICK_INTERNAL_API) (cp_confirmed_data packet)"

fun grounding_fails :: "ucd \<Rightarrow> pystr \<Rightarrow> context_packet \<Rightarrow> grounding_failure \<Rightarrow> bool" where
  "grounding_fails u candidate packet GF_EMPTY = (candidate = [])"
| "grounding_fails u candidate packet GF_INTERNAL_LEAK = has_internal u candidate"
| "grounding_fails u candidate packet GF_EVIDENCE_FREE_COMMERCIAL_CLAIM =
     (\<not> has_api_evidence packet \<and> search (evidence_free_availability u) candidate)"
| "grounding_fails u candidate packet GF_UNSUPPORTED_HIGH_RISK_FACT = unsupported_fact u candidate packet"
| "grounding_fails u candidate packet GF_UNAVAILABLE_CONTENT_CLAIM =
     (occurs_in (lit ''contenido'') (normalized u (join [10] (cp_unavailable_data packet)))
      \<and> search (content_claim u) candidate)"
| "grounding_fails u candidate packet GF_INTERNAL_REFERENCE = reveals_reference u candidate packet"

text \<open>The failures in the order of their values, as \<open>sorted\<close> puts them.\<close>

definition failures_by_value :: "grounding_failure list" where
  "failures_by_value = [GF_EMPTY, GF_EVIDENCE_FREE_COMMERCIAL_CLAIM, GF_INTERNAL_LEAK, GF_INTERNAL_REFERENCE,
     GF_UNAVAILABLE_CONTENT_CLAIM, GF_UNSUPPORTED_HIGH_RISK_FACT]"

definition validate :: "ucd \<Rightarrow> pystr \<Rightarrow> context_packet \<Rightarrow> grounding_result res" where
  "validate u draft packet =
     (let candidate = strip draft;
          failures = filter (grounding_fails u candidate packet) failures_by_value
      in construct valid_grounding_result
           (if failures \<noteq> [] then \<lparr>gr_safe = False, gr_text = None, gr_failures = failures\<rparr>
            else \<lparr>gr_safe = True, gr_text = Some candidate, gr_failures = []\<rparr>))"

section \<open>The factual fallback\<close>

definition safe_fallback_value :: "ucd \<Rightarrow> pystr \<Rightarrow> pystr" where
  "safe_fallback_value u v =
     (let compact = join [32] (split_ws v)
      in if has_internal u compact then lit ''[dato omitido por seguridad]'' else compact)"

definition fallback_line :: "ucd \<Rightarrow> evidence_item \<Rightarrow> pystr" where
  "fallback_line u item =
     lit ''- '' @ safe_fallback_value u (ei_label item) @ lit '': '' @ safe_fallback_value u (ei_value item)"

definition fallback_intro :: pystr where
  "fallback_intro = lit ''Soy Piki, el asistente de BuenPick. Te ayudo a descubrir alimentos ''
     @ lit ''para rescatar y a consultar informaci'' @ [243] @ lit ''n confirmada por BuenPick.''"

definition fallback_unconfirmed :: pystr where
  "fallback_unconfirmed = lit ''No pude confirmar la informaci'' @ [243] @ lit ''n necesaria en este momento. ''
     @ lit ''Probemos de nuevo en un rato.''"

definition fallback_heading :: pystr where
  "fallback_heading = lit ''Esto es lo que pude confirmar:''"

definition fallback_missing :: pystr where
  "fallback_missing = lit ''Hay datos que todav'' @ [237] @ lit ''a no pude confirmar.''"

definition api_evidence :: "context_packet \<Rightarrow> evidence_item list" where
  "api_evidence packet = filter (\<lambda>item. ei_source item = BUENPICK_INTERNAL_API) (cp_confirmed_data packet)"

definition factual_fallback :: "ucd \<Rightarrow> context_packet \<Rightarrow> pystr" where
  "factual_fallback u packet =
     (if api_evidence packet = [] then
        (if cp_response_mode packet = NON_COMMERCIAL_LLM then fallback_intro else fallback_unconfirmed)
      else take 4096 (join [10]
        (fallback_heading # map (fallback_line u) (take 8 (api_evidence packet))
         @ (if cp_unavailable_data packet \<noteq> [] then [fallback_missing] else []))))"

section \<open>What the proofs use of Unicode\<close>

definition ascii_upper :: "nat \<Rightarrow> nat" where
  "ascii_upper c = (if 97 \<le> c \<and> c \<le> 122 then c - 32 else c)"

locale unicode_tables =
  fixes u :: ucd
  assumes digit_word: "uc_digit u c \<noteq> None \<Longrightarrow> uc_word u c"
    and digit_fold: "uc_digit u c \<noteq> None \<Longrightarrow> uc_fold u c = [c]"
    and digit_plain: "uc_digit u c \<noteq> None \<Longrightarrow> \<not> is_space c \<and> c \<notin> set (lit ''.,;:!?)'')"
    and separator_fold: "c \<in> {44, 46} \<Longrightarrow> uc_fold u c = [c]"
    and upper_ascii: "c < 128 \<Longrightarrow> uc_upper u c = [ascii_upper c]"
    and upper_accents: "uc_upper u 237 = [205]" "uc_upper u 243 = [211]"

interpretation latin1: unicode_tables latin1
  by unfold_locales
    (auto simp: latin1_digit_def latin1_word_def latin1_fold_def latin1_lower_def latin1_upper_def ascii_upper_def
      is_space_def lit_def split: if_splits)

lemma rounds_last:
  assumes "\<And>i j. j \<in> set (f i) \<Longrightarrow> Q j" and "k \<in> set (rounds greedy f n i)"
  shows "k = i \<or> Q k"
  using assms(2)
proof (induction n arbitrary: i)
  case (Suc n)
  then show ?case using assms(1) by (auto simp: Let_def split: if_splits)
qed simp

lemma split_ws_word:
  assumes "x \<noteq> []" "\<And>c. c \<in> set x \<Longrightarrow> \<not> is_space c"
  shows "split_ws x = [x]"
proof -
  have "dropWhile is_space x = x" "takeWhile (\<lambda>c. \<not> is_space c) x = x" "dropWhile (\<lambda>c. \<not> is_space c) x = []"
    using assms by (auto simp: dropWhile_eq_self_iff dropWhile_eq_Nil_conv)
  moreover have "split_ws [] = []" by (subst split_ws.simps) simp
  ultimately show ?thesis using assms(1) unfolding split_ws.simps [of x] Let_def by (simp only: if_False)
qed

context unicode_tables
begin

abbreviation digit_at :: "pystr \<Rightarrow> nat \<Rightarrow> bool" where
  "digit_at s m \<equiv> uc_digit u (s ! m) \<noteq> None"

lemma plus_digit_end:
  assumes "j \<in> set (ends (rx_plus (rx_digit u)) s i)"
  shows "i < j \<and> j \<le> length s \<and> digit_at s (j - 1)"
proof -
  from assms have i: "i < length s" "digit_at s i" and
    j: "j \<in> set (rounds True (ends (rx_digit u) s) (length s - Suc i) (Suc i))"
    by (auto simp: rx_plus_def rx_digit_def split: if_splits)
  have "j = Suc i \<or> digit_at s (j - 1)"
    by (rule rounds_last [OF _ j]) (auto simp: rx_digit_def split: if_splits)
  moreover have "Suc i \<le> j \<and> (Suc i \<le> length s \<longrightarrow> j \<le> length s)"
    using ends_within [of j "Rx_Star True (rx_digit u)" s "Suc i" "\<lambda>c. True"] j by (simp add: consumes_True)
  ultimately show ?thesis using i by auto
qed

lemma number_match:
  assumes "q \<in> set (ends (number_pattern u) s p)"
  shows "p < q \<and> q \<le> length s \<and> at_boundary (uc_word u) s q \<and> digit_at s (q - 1)
    \<and> (\<forall>m. p \<le> m \<and> m < q \<longrightarrow> digit_at s m \<or> s ! m \<in> {44, 46})"
proof -
  from assms obtain k where k: "k \<in> set (ends (rx_plus (rx_digit u)) s p)"
    "q \<in> set (ends (number_groups u) s k)" and b: "at_boundary (uc_word u) s q"
    by (auto simp: number_pattern_def rx_b_def split: if_splits)
  have "q = k \<or> digit_at s (q - 1)"
    by (rule rounds_last [OF _ k(2) [unfolded number_groups_def ends.simps]]) (auto dest!: plus_digit_end)
  moreover have "k \<le> q" using k(2) by (rule ends_mono)
  moreover have "p \<le> q \<and> (p \<le> length s \<longrightarrow> q \<le> length s)
      \<and> (\<forall>m. p \<le> m \<and> m < q \<longrightarrow> digit_at s m \<or> s ! m \<in> {44, 46})"
  proof (rule ends_within [OF assms])
    show "consumes (\<lambda>c. uc_digit u c \<noteq> None \<or> c \<in> {44, 46}) (number_pattern u)"
      by (auto simp: number_pattern_def number_groups_def rx_b_def rx_plus_def rx_digit_def rx_class_def lit_def)
  qed
  ultimately show ?thesis using plus_digit_end [OF k(1)] b by auto
qed

text \<open>A delimited run of digits can start a match of the number pattern.\<close>

lemma number_starts:
  assumes "a < b" "b \<le> length s" "\<And>m. a \<le> m \<Longrightarrow> m < b \<Longrightarrow> digit_at s m"
    "at_boundary (uc_word u) s a" "at_boundary (uc_word u) s b"
  shows "b \<in> set (ends (number_pattern u) s a)"
proof -
  have "b \<in> set (ends (Rx_Star True (rx_digit u)) s (Suc a))"
    unfolding rx_digit_def by (rule star_run) (use assms in auto)
  then have plus: "b \<in> set (ends (rx_plus (rx_digit u)) s a)"
    using assms(1-3) by (auto simp: rx_plus_def rx_digit_def)
  have "b \<in> set (ends (number_groups u) s b)" by (simp add: number_groups_def rounds_refl)
  with plus assms(4,5) show ?thesis by (auto simp: number_pattern_def rx_b_def)
qed

lemma number_token:
  assumes "(p, q) \<in> set (finditer (number_pattern u) s 0)"
  shows "high_risk_token u s (p, q) = span s (p, q) \<and> span s (p, q) \<noteq> []"
proof -
  let ?x = "span s (p, q)"
  from finditer_match [OF assms] number_match have
    m: "p < q" "q \<le> length s" "digit_at s (q - 1)"
    "\<And>m. p \<le> m \<Longrightarrow> m < q \<Longrightarrow> digit_at s m \<or> s ! m \<in> {44, 46}" by auto
  have len: "length ?x = q - p" using m by (simp add: length_span)
  then have ne: "?x \<noteq> []" using m(1) by auto
  have chars: "uc_digit u c \<noteq> None \<or> c \<in> {44, 46}" if c: "c \<in> set ?x" for c
  proof -
    from c obtain k where "k < q - p" "c = s ! (p + k)" using len m(2) by (metis in_set_conv_nth nth_span)
    then show ?thesis using m(4) [of "p + k"] by auto
  qed
  have "last ?x = s ! (q - 1)" using ne len m(1,2) by (simp add: last_conv_nth nth_span)
  then have "rstrip_by (\<lambda>c. c \<in> set (lit ''.,;:!?)'')) ?x = ?x"
    using digit_plain m(3) by (intro rstrip_by_id) auto
  moreover have "casefold u ?x = ?x"
  proof -
    have "map (uc_fold u) ?x = map (\<lambda>c. [c]) ?x" using chars digit_fold separator_fold by (intro map_cong refl) blast
    then show ?thesis unfolding casefold_def by (simp only: concat_map_singleton list.map_ident)
  qed
  moreover have "split_ws ?x = [?x]"
  proof (rule split_ws_word [OF ne])
    have "\<not> is_space 44" "\<not> is_space 46" by (simp_all add: is_space_def)
    then show "\<not> is_space c" if "c \<in> set ?x" for c using chars [OF that] digit_plain by auto
  qed
  ultimately show ?thesis using ne by (simp add: high_risk_token_def normalized_def)
qed

text \<open>Every delimited run of digits lies in a reported match.\<close>

lemma number_covered:
  assumes "a < b" "b \<le> length s" "\<And>m. a \<le> m \<Longrightarrow> m < b \<Longrightarrow> digit_at s m"
    "at_boundary (uc_word u) s a" "at_boundary (uc_word u) s b"
  shows "\<exists>p q. (p, q) \<in> set (finditer (number_pattern u) s 0) \<and> p \<le> a \<and> b \<le> q"
proof -
  have "\<exists>p q. (p, q) \<in> set (finditer (number_pattern u) s 0) \<and> p \<le> a \<and> a < q"
  proof (rule finditer_covers)
    show "ends (number_pattern u) s a \<noteq> []" using number_starts [OF assms] by auto
  qed (use number_match assms(1,2) in auto)
  then obtain p q where pq: "(p, q) \<in> set (finditer (number_pattern u) s 0)" "p \<le> a" "a < q" by blast
  from finditer_match [OF pq(1)] number_match have q: "at_boundary (uc_word u) s q" "q \<le> length s" by auto
  have "b \<le> q"
  proof (rule ccontr)
    assume "\<not> b \<le> q"
    then have "digit_at s (q - 1)" "digit_at s q" using pq(3) by (intro assms(3); simp)+
    then have "uc_word u (s ! (q - 1))" "uc_word u (s ! q)" by (auto intro!: digit_word)
    with q \<open>\<not> b \<le> q\<close> pq(3) assms(2) show False by (auto simp: at_boundary_def)
  qed
  with pq show ?thesis by blast
qed

lemma delimited_boundaries:
  assumes "s = a @ d @ b" "d \<noteq> []" "list_all (\<lambda>c. uc_digit u c \<noteq> None) d"
    "a = [] \<or> \<not> uc_word u (last a)" "b = [] \<or> \<not> uc_word u (hd b)"
  shows "at_boundary (uc_word u) s (length a)" "at_boundary (uc_word u) s (length a + length d)"
    "\<And>m. length a \<le> m \<Longrightarrow> m < length a + length d \<Longrightarrow> digit_at s m"
proof -
  show digits: "digit_at s m" if "length a \<le> m" "m < length a + length d" for m
    using that assms(1,3) by (auto simp: nth_append list_all_length)
  from assms(2) have d: "0 < length d" by simp
  have "uc_word u (s ! length a)" using digits [of "length a"] d by (intro digit_word) auto
  moreover have "\<not> uc_word u (s ! (length a - 1))" if "0 < length a"
    using that assms(1,4) by (auto simp: nth_append last_conv_nth)
  ultimately show "at_boundary (uc_word u) s (length a)"
    using d assms(1) by (auto simp: at_boundary_def)
  have "digit_at s (length a + length d - 1)" by (rule digits) (use d in linarith)+
  then have "uc_word u (s ! (length a + length d - 1))" by (rule digit_word)
  moreover have "\<not> uc_word u (s ! (length a + length d))" if "length a + length d < length s"
  proof -
    from that assms(1) have "b \<noteq> []" by auto
    with assms(1,5) show ?thesis by (auto simp: nth_append hd_conv_nth)
  qed
  ultimately show "at_boundary (uc_word u) s (length a + length d)"
    using d assms(1) by (auto simp: at_boundary_def)
qed

lemma supported_number:
  assumes "\<not> unsupported_fact u s packet" "s = a @ d @ b" "d \<noteq> []" "list_all (\<lambda>c. uc_digit u c \<noteq> None) d"
    "a = [] \<or> \<not> uc_word u (last a)" "b = [] \<or> \<not> uc_word u (hd b)"
  shows "occurs_in d (evidence_corpus u packet)"
proof -
  have "length a < length a + length d" "length a + length d \<le> length s" using assms(2,3) by auto
  from number_covered [OF this delimited_boundaries(3,1,2) [OF assms(2-6)]] obtain p q where
    pq: "(p, q) \<in> set (finditer (number_pattern u) s 0)" "p \<le> length a" "length a + length d \<le> q" by blast
  have "occurs_in (span s (p, q)) (evidence_corpus u packet)"
    using assms(1) pq(1) number_token [OF pq(1)]
    by (auto simp: unsupported_fact_def list_ex_iff high_risk_patterns_def)
  moreover have "span s (length a, length a + length d) = d" using assms(2) by (simp add: span_def)
  ultimately show ?thesis
    using sublist_span [OF pq(2,3), of s] by (auto simp: occurs_in_sublist intro: sublist_order.order.trans)
qed

end

lemma validate_Inr:
  "validate u draft packet = Inr r \<Longrightarrow> gr_text r = Some t \<Longrightarrow>
   t = strip draft \<and> gr_failures r = [] \<and> (\<forall>f \<in> set failures_by_value. \<not> grounding_fails u t packet f)"
  by (auto simp: validate_def Let_def construct_def filter_empty_conv split: if_splits)

lemma grounding_failures_all: "f \<in> set failures_by_value"
  by (cases f) (simp_all add: failures_by_value_def)


definition sample_packet :: context_packet where
  "sample_packet = \<lparr>cp_task = lit ''t'', cp_query = lit ''q'',
     cp_confirmed_data = [\<lparr>ei_label = lit ''p'', ei_value = lit ''Quedan 3'', ei_source = BUENPICK_INTERNAL_API,
       ei_source_reference = None\<rparr>],
     cp_unavailable_data = [], cp_actions_performed = [], cp_writing_rules = [], cp_response_mode = JINJA_LLM,
     cp_active_pick_id = None, cp_trace_id = lit ''t1''\<rparr>"

lemmas pattern_defs = url_pattern_def price_pattern_def time_pattern_def number_pattern_def number_groups_def
  rx_digit_def rx_space_def rx_spaces_def rx_b_def rx_plus_def rx_seq_def rx_text_def rx_class_def

lemma sample_finditer:
  "finditer (number_pattern latin1) [51] 0 = [(0, 1)]"
  "finditer (time_pattern latin1) [51] 0 = []"
  "finditer (price_pattern latin1) [51] 0 = []"
  "finditer (url_pattern latin1) [51] 0 = []"
  by (simp_all add: finditer.simps pattern_defs at_boundary_def latin1_word_def latin1_digit_def lit_def latin1_def
      latin1_lower_def is_space_def Let_def)

lemma sample_corpus: "evidence_corpus latin1 sample_packet = lit ''quedan 3''"
proof -
  have "casefold latin1 (lit ''Quedan 3'') = lit ''quedan 3''"
    by (simp add: lit_def latin1_fold_def latin1_lower_def)
  moreover have "split_ws (lit ''quedan 3'') = [lit ''quedan'', lit ''3'']"
    by (subst split_ws.simps, simp add: lit_def is_space_def, subst split_ws.simps, simp add: is_space_def,
        subst split_ws.simps, simp)
  ultimately show ?thesis by (simp add: evidence_corpus_def sample_packet_def normalized_def lit_def)
qed

lemma sample_validate:
  "validate latin1 [51] sample_packet = Inr \<lparr>gr_safe = True, gr_text = Some [51], gr_failures = []\<rparr>"
proof -
  have "strip [51] = [51]" by (simp add: strip_def rstrip_by_def is_space_def)
  moreover have "high_risk_token latin1 [51] (0, 1) = [51]"
    using latin1.number_token [of 0 1 "[51]"] by (simp add: sample_finditer span_def)
  then have "\<not> unsupported_fact latin1 [51] sample_packet"
    by (simp add: unsupported_fact_def high_risk_patterns_def sample_finditer sample_corpus) (simp add: lit_def)
  moreover have "\<not> has_internal latin1 [51]"
    by (simp add: has_internal_def internal_patterns_def latin1_upper_def lit_def)
  ultimately show ?thesis
    by (simp add: validate_def Let_def failures_by_value_def construct_def valid_grounding_result_def
        has_api_evidence_def reveals_reference_def)
      (simp add: sample_packet_def normalized_def split_ws.simps lit_def)
qed


section \<open>The fallback leaks nothing\<close>

lemma occurs_in_separated:
  assumes "c \<notin> set p" "p \<noteq> []" "occurs_in p (x @ c # y)"
  shows "occurs_in p x \<or> occurs_in p y"
proof -
  from assms(3) consider "sublist p x" | "sublist p (c # y)"
    | p1 p2 where "p = p1 @ p2" "suffix p1 x" "prefix p2 (c # y)"
    unfolding occurs_in_sublist sublist_append by blast
  then show ?thesis
  proof cases
    case 2
    with assms(1,2) show ?thesis
      by (auto simp: occurs_in_sublist sublist_Cons_right prefix_Cons)
  next
    case 3
    with assms(1) have "p2 = []" by (auto simp: prefix_Cons)
    with 3 show ?thesis by (auto simp: occurs_in_sublist suffix_imp_sublist)
  qed (simp add: occurs_in_sublist)
qed

lemma internal_patterns_shape:
  "pattern \<in> set internal_patterns \<Longrightarrow> pattern \<noteq> [] \<and> hd pattern \<noteq> 32 \<and> set pattern \<inter> {10, 45, 58} = {}"
  by (auto simp: internal_patterns_def lit_def)

context unicode_tables
begin

lemma upper_lit: "list_all (\<lambda>c. c < 128) (lit s) \<Longrightarrow> upper u (lit s) = map ascii_upper (lit s)"
proof -
  have "upper u xs = map ascii_upper xs" if "list_all (\<lambda>c. c < 128) xs" for xs
    using that by (induction xs) (simp_all add: upper_ascii)
  then show "list_all (\<lambda>c. c < 128) (lit s) \<Longrightarrow> upper u (lit s) = map ascii_upper (lit s)" .
qed

lemma no_leak_separator:
  assumes "c \<in> {10, 45, 58}" "\<not> has_internal u x" "\<not> has_internal u y"
  shows "\<not> has_internal u (x @ c # y)"
proof -
  have "upper u (x @ c # y) = upper u x @ c # upper u y"
    using assms(1) upper_ascii [of c] by (auto simp: ascii_upper_def)
  then show ?thesis using assms internal_patterns_shape occurs_in_separated [of c]
    unfolding has_internal_def list_ex_iff by (metis disjoint_iff)
qed

lemma no_leak_space: "\<not> has_internal u y \<Longrightarrow> \<not> has_internal u (32 # y)"
proof -
  assume y: "\<not> has_internal u y"
  have "upper u (32 # y) = 32 # upper u y" using upper_ascii [of 32] by (simp add: ascii_upper_def)
  moreover have "occurs_in p (32 # z) \<Longrightarrow> p \<noteq> [] \<Longrightarrow> hd p \<noteq> 32 \<Longrightarrow> occurs_in p z" for p z
    by (cases p) auto
  ultimately show ?thesis using y internal_patterns_shape unfolding has_internal_def list_ex_iff by metis
qed

lemma no_leak_take: "\<not> has_internal u s \<Longrightarrow> \<not> has_internal u (take n s)"
proof -
  assume s: "\<not> has_internal u s"
  have "upper u s = upper u (take n s) @ upper u (drop n s)" by (simp flip: upper_simps(3))
  then have "sublist (upper u (take n s)) (upper u s)" by simp
  with s show ?thesis unfolding has_internal_def list_ex_iff occurs_in_sublist
    using sublist_order.order.trans by blast
qed

lemma no_leak_nil: "\<not> has_internal u []"
  using internal_patterns_shape by (auto simp: has_internal_def list_ex_iff)

lemma no_leak_join: "(\<And>l. l \<in> set ls \<Longrightarrow> \<not> has_internal u l) \<Longrightarrow> \<not> has_internal u (join [10] ls)"
proof (induction ls)
  case (Cons l ls)
  then have "\<not> has_internal u l" "\<not> has_internal u (join [10] ls)" by auto
  with no_leak_separator [of 10 l] show ?case by (cases ls) auto
qed (simp add: no_leak_nil)

lemma no_leak_literals:
  "\<not> has_internal u (lit ''[dato omitido por seguridad]'')" "\<not> has_internal u fallback_heading"
  "\<not> has_internal u fallback_missing" "\<not> has_internal u fallback_intro" "\<not> has_internal u fallback_unconfirmed"
  by (simp_all add: has_internal_def internal_patterns_def fallback_heading_def fallback_missing_def
      fallback_intro_def fallback_unconfirmed_def upper_lit upper_accents lit_def upper_ascii ascii_upper_def)

lemma no_leak_value: "\<not> has_internal u (safe_fallback_value u v)"
  by (simp add: safe_fallback_value_def Let_def no_leak_literals)

lemma no_leak_line: "\<not> has_internal u (fallback_line u item)"
proof -
  have "fallback_line u item = [] @ 45 # (32 # safe_fallback_value u (ei_label item))
      @ 58 # 32 # safe_fallback_value u (ei_value item)"
    by (simp add: fallback_line_def lit_def)
  then show ?thesis
    using no_leak_separator [of 45 "[]"] no_leak_separator [of 58] no_leak_space no_leak_value no_leak_nil
    by (metis append_Cons insertCI)
qed

lemma no_leak_fallback: "\<not> has_internal u (factual_fallback u packet)"
proof (cases "api_evidence packet = []")
  case False
  let ?ls = "fallback_heading # map (fallback_line u) (take 8 (api_evidence packet))
    @ (if cp_unavailable_data packet \<noteq> [] then [fallback_missing] else [])"
  have "\<not> has_internal u (take 4096 (join [10] ?ls))"
    by (intro no_leak_take no_leak_join) (use no_leak_line no_leak_literals in \<open>auto split: if_splits\<close>)
  then show ?thesis unfolding factual_fallback_def if_not_P [OF False] .
qed (simp add: factual_fallback_def no_leak_literals)

end

lemma fallback_length: "1 \<le> length (factual_fallback u packet) \<and> length (factual_fallback u packet) \<le> 4096"
proof -
  have "join [10] (fallback_heading # xs) \<noteq> []" for xs
    by (cases xs) (simp_all add: fallback_heading_def)
  then have "1 \<le> length (join [10] (fallback_heading # xs))" for xs by (simp add: Suc_le_eq)
  then show ?thesis by (simp add: factual_fallback_def fallback_intro_def fallback_unconfirmed_def)
qed

text \<open>
  C36. The factual fallback is safe to send whatever the evidence contains: it has between 1 and 4096
  characters and contains none of the internal markers, also where evidence was crafted to carry
  one.
\<close>

theorem fallback_safe:
  assumes "unicode_tables u"
  shows "\<not> has_internal u (factual_fallback u packet) \<and> len_between 1 4096 (factual_fallback u packet)"
  using unicode_tables.no_leak_fallback [OF assms] fallback_length by simp

theorem fallback_safe_witness:
  "\<not> has_internal latin1 (factual_fallback latin1 (sample_packet\<lparr>cp_confirmed_data :=
     [\<lparr>ei_label = lit ''x'', ei_value = lit ''system prompt'', ei_source = BUENPICK_INTERNAL_API,
       ei_source_reference = None\<rparr>]\<rparr>))"
  using fallback_safe [OF latin1.unicode_tables_axioms] by blast

end
