(* ===== verification/LLM.thy ===== *)
theory LLM
  imports Json Interfaces
begin

text \<open>
  The language-model adapters: the contracts of \<open>src/src/piki/composition/contracts.py\<close>, the
  chat-completions and the responses adapter of \<open>src/src/piki/integrations/llm/\<close> and their factory.
  \<open>net body n\<close> is what the provider does with the \<open>n\<close>-th attempt to post \<open>body\<close>. Validating an
  envelope is written out: a field of type \<open>str\<close> takes a JSON string, unknown fields are ignored.
\<close>

section \<open>Contracts\<close>

datatype turn_role = TURN_USER | TURN_ASSISTANT

fun turn_role_value :: "turn_role \<Rightarrow> pystr" where
  "turn_role_value TURN_USER = lit ''user''"
| "turn_role_value TURN_ASSISTANT = lit ''assistant''"

record conversation_turn =
  ct_role :: turn_role
  ct_text :: pystr

definition valid_conversation_turn :: "conversation_turn \<Rightarrow> bool" where
  [valid_defs]: "valid_conversation_turn t \<longleftrightarrow> len_between 1 4096 (ct_text t)"

record composition_request =
  cr_system_prompt :: pystr
  cr_evidence_prompt :: pystr
  cr_conversation :: "conversation_turn list"
  cr_trace_id :: pystr

definition valid_composition_request :: "composition_request \<Rightarrow> bool" where
  [valid_defs]: "valid_composition_request r \<longleftrightarrow> len_between 1 12000 (cr_system_prompt r)
     \<and> len_between 1 30000 (cr_evidence_prompt r) \<and> length (cr_conversation r) \<le> 20
     \<and> len_between 1 128 (cr_trace_id r)"

record composition_result =
  cres_text :: pystr
  cres_provider_response_id :: pystr
  cres_model :: pystr
  cres_trace_id :: pystr

definition valid_composition_result :: "composition_result \<Rightarrow> bool" where
  [valid_defs]: "valid_composition_result r \<longleftrightarrow> len_between 1 4096 (cres_text r)
     \<and> len_between 1 255 (cres_provider_response_id r) \<and> len_between 1 255 (cres_model r)
     \<and> len_between 1 128 (cres_trace_id r)"

section \<open>Adapters and their construction\<close>

record llm_config =
  lc_model :: pystr
  lc_max_attempts :: nat
  lc_max_output_tokens :: int

datatype llm_adapter = ChatAdapter llm_config | ResponsesAdapter llm_config

definition new_llm_config :: "pystr \<Rightarrow> pystr \<Rightarrow> int \<Rightarrow> int \<Rightarrow> llm_config res" where
  "new_llm_config api_key model max_attempts max_output_tokens =
     (if strip api_key = [] then Inl ValueError
      else if strip model = [] then Inl ValueError
      else if max_attempts < 1 then Inl ValueError
      else Inr \<lparr>lc_model = strip model, lc_max_attempts = nat max_attempts,
                lc_max_output_tokens = max_output_tokens\<rparr>)"

text \<open>The constructor of the responses adapter makes the same checks.\<close>

definition new_responses_config :: "pystr \<Rightarrow> pystr \<Rightarrow> int \<Rightarrow> int \<Rightarrow> llm_config res" where
  "new_responses_config api_key model max_attempts max_output_tokens =
     (if strip api_key = [] then Inl ValueError
      else if strip model = [] then Inl ValueError
      else if max_attempts < 1 then Inl ValueError
      else Inr \<lparr>lc_model = strip model, lc_max_attempts = nat max_attempts,
                lc_max_output_tokens = max_output_tokens\<rparr>)"

lemma new_responses_config_eq [simp]: "new_responses_config = new_llm_config"
  by (simp add: fun_eq_iff new_responses_config_def new_llm_config_def)

definition create_openai_chat_adapter ::
  "pystr option \<Rightarrow> pystr option res \<Rightarrow> pystr option \<Rightarrow> int \<Rightarrow> int \<Rightarrow> llm_adapter res" where
  "create_openai_chat_adapter provider api_key model mx tokens =
     (if provider \<notin> set [Some (lit ''nvidia_nim''), Some (lit ''openai_chat'')] then Inl ValueError
      else rbind api_key (\<lambda>key. case key of None \<Rightarrow> Inl ValueError
        | Some k \<Rightarrow> (case model of None \<Rightarrow> Inl ValueError
          | Some md \<Rightarrow> rbind (new_llm_config k md mx tokens) (\<lambda>cfg. Inr (ChatAdapter cfg)))))"

definition create_openai_responses_adapter ::
  "pystr option \<Rightarrow> pystr option res \<Rightarrow> pystr option \<Rightarrow> int \<Rightarrow> int \<Rightarrow> llm_adapter res" where
  "create_openai_responses_adapter provider api_key model mx tokens =
     (if provider \<noteq> Some (lit ''openai'') then Inl ValueError
      else rbind api_key (\<lambda>key. case key of None \<Rightarrow> Inl ValueError
        | Some k \<Rightarrow> (case model of None \<Rightarrow> Inl ValueError
          | Some md \<Rightarrow> rbind (new_responses_config k md mx tokens) (\<lambda>cfg. Inr (ResponsesAdapter cfg)))))"

definition create_llm_adapter ::
  "pystr option \<Rightarrow> pystr option res \<Rightarrow> pystr option \<Rightarrow> int \<Rightarrow> int \<Rightarrow> llm_adapter res" where
  "create_llm_adapter provider api_key model mx tokens =
     (if provider = Some (lit ''openai'') then create_openai_responses_adapter provider api_key model mx tokens
      else if provider \<in> set [Some (lit ''nvidia_nim''), Some (lit ''openai_chat'')]
      then create_openai_chat_adapter provider api_key model mx tokens
      else Inl ValueError)"

section \<open>Request bodies\<close>

definition evidence_request :: "pystr \<Rightarrow> pystr" where
  "evidence_request evidence_prompt = lit ''Redact'' @ [225] @ lit '' la respuesta final usando exclusivamente ''
     @ lit ''este paquete de evidencia:'' @ [10, 10] @ evidence_prompt"

text \<open>\<open>_append_message\<close>; the list starts with the system message, so it is never empty.\<close>

definition append_message :: "(pystr \<times> pystr) list \<Rightarrow> pystr \<Rightarrow> pystr \<Rightarrow> (pystr \<times> pystr) list" where
  "append_message messages role content =
     (if fst (last messages) = role
      then butlast messages @ [(role, snd (last messages) @ [10, 10] @ content)]
      else messages @ [(role, content)])"

definition chat_messages :: "composition_request \<Rightarrow> (pystr \<times> pystr) list" where
  "chat_messages request = append_message
     (foldl (\<lambda>ms turn. append_message ms (turn_role_value (ct_role turn)) (ct_text turn))
        [(lit ''system'', cr_system_prompt request)] (cr_conversation request))
     (lit ''user'') (evidence_request (cr_evidence_prompt request))"

definition message_json :: "pystr \<times> pystr \<Rightarrow> json" where
  "message_json m = JObj [(lit ''role'', JStr (fst m)), (lit ''content'', JStr (snd m))]"

definition chat_body :: "llm_config \<Rightarrow> composition_request \<Rightarrow> json" where
  "chat_body cfg request = JObj
     [(lit ''model'', JStr (lc_model cfg)), (lit ''messages'', JArr (map message_json (chat_messages request))),
      (lit ''temperature'', JFloat (lit ''0.2'')), (lit ''top_p'', JFloat (lit ''0.9'')),
      (lit ''max_tokens'', JInt (lc_max_output_tokens cfg)), (lit ''stream'', JBool False)]"

definition responses_body :: "llm_config \<Rightarrow> composition_request \<Rightarrow> json" where
  "responses_body cfg request = JObj
     [(lit ''model'', JStr (lc_model cfg)), (lit ''instructions'', JStr (cr_system_prompt request)),
      (lit ''input'', JArr (map message_json
        (map (\<lambda>turn. (turn_role_value (ct_role turn), ct_text turn)) (cr_conversation request)
         @ [(lit ''user'', evidence_request (cr_evidence_prompt request))]))),
      (lit ''max_output_tokens'', JInt (lc_max_output_tokens cfg)), (lit ''store'', JBool False)]"

section \<open>Responses\<close>

definition broken_response :: exn where
  "broken_response = LLMAdapterError LLM_INVALID_RESPONSE
     (lit ''El redactor devolvi'' @ [243] @ lit '' una respuesta inv'' @ [225] @ lit ''lida.'') None"

definition incomplete_response :: exn where
  "incomplete_response = LLMAdapterError LLM_INVALID_RESPONSE
     (lit ''El redactor no complet'' @ [243] @ lit '' la respuesta.'') None"

definition empty_response :: exn where
  "empty_response = LLMAdapterError LLM_INVALID_RESPONSE
     (lit ''El redactor no devolvi'' @ [243] @ lit '' texto utilizable.'') None"

fun opt_str_field :: "json option \<Rightarrow> pystr option option" where
  "opt_str_field None = Some None"
| "opt_str_field (Some JNull) = Some None"
| "opt_str_field (Some (JStr s)) = Some (Some s)"
| "opt_str_field (Some _) = None"

definition chat_choice :: "json \<Rightarrow> pystr option option" where
  "chat_choice j = (case jget (lit ''message'') j of
     None \<Rightarrow> None | Some msg \<Rightarrow> if is_object msg then opt_str_field (jget (lit ''content'') msg) else None)"

record chat_envelope =
  ce_id :: pystr
  ce_model :: pystr
  ce_choices :: "pystr option list"

definition chat_envelope_of :: "json \<Rightarrow> chat_envelope option" where
  "chat_envelope_of j =
     (case (jstr (jget (lit ''id'') j), jstr (jget (lit ''model'') j), jlist (jget (lit ''choices'') j)) of
        (Some i, Some md, Some cs) \<Rightarrow>
          map_option (\<lambda>choices. \<lparr>ce_id = i, ce_model = md, ce_choices = choices\<rparr>) (sequence_opt (map chat_choice cs))
      | _ \<Rightarrow> None)"

definition composed :: "pystr \<Rightarrow> pystr \<Rightarrow> pystr \<Rightarrow> pystr \<Rightarrow> composition_result res" where
  "composed reply i md tid = construct valid_composition_result
     \<lparr>cres_text = reply, cres_provider_response_id = i, cres_model = md, cres_trace_id = tid\<rparr>"

definition chat_parse_response :: "json option \<Rightarrow> pystr \<Rightarrow> composition_result res" where
  "chat_parse_response body tid =
     (case Option.bind body chat_envelope_of of
        None \<Rightarrow> Inl broken_response
      | Some envelope \<Rightarrow>
        (case ce_choices envelope of
           [] \<Rightarrow> Inl broken_response
         | content # _ \<Rightarrow>
           if content = None \<or> strip (or_empty content) = [] then Inl empty_response
           else composed (strip (or_empty content)) (ce_id envelope) (ce_model envelope) tid))"

datatype output_content_type = OUTPUT_TEXT | REFUSAL

record output_content =
  oc_type :: output_content_type
  oc_text :: "pystr option"
  oc_refusal :: "pystr option"

record output_item =
  oi_type :: pystr
  oi_content :: "output_content list"

record responses_envelope =
  re_id :: pystr
  re_model :: pystr
  re_status :: pystr
  re_output :: "output_item list"

definition output_content_of :: "json \<Rightarrow> output_content option" where
  "output_content_of j =
     (case (jstr (jget (lit ''type'') j), opt_str_field (jget (lit ''text'') j),
            opt_str_field (jget (lit ''refusal'') j)) of
        (Some ty, Some t, Some r) \<Rightarrow>
          if ty = lit ''output_text'' then Some \<lparr>oc_type = OUTPUT_TEXT, oc_text = t, oc_refusal = r\<rparr>
          else if ty = lit ''refusal'' then Some \<lparr>oc_type = REFUSAL, oc_text = t, oc_refusal = r\<rparr>
          else None
      | _ \<Rightarrow> None)"

definition output_item_of :: "json \<Rightarrow> output_item option" where
  "output_item_of j =
     (case (jstr (jget (lit ''type'') j), jget (lit ''content'') j) of
        (Some ty, None) \<Rightarrow> Some \<lparr>oi_type = ty, oi_content = []\<rparr>
      | (Some ty, Some (JArr cs)) \<Rightarrow>
          map_option (\<lambda>content. \<lparr>oi_type = ty, oi_content = content\<rparr>) (sequence_opt (map output_content_of cs))
      | _ \<Rightarrow> None)"

definition responses_envelope_of :: "json \<Rightarrow> responses_envelope option" where
  "responses_envelope_of j =
     (case (jstr (jget (lit ''id'') j), jstr (jget (lit ''model'') j), jstr (jget (lit ''status'') j),
            jlist (jget (lit ''output'') j)) of
        (Some i, Some md, Some st, Some xs) \<Rightarrow>
          map_option (\<lambda>out. \<lparr>re_id = i, re_model = md, re_status = st, re_output = out\<rparr>)
            (sequence_opt (map output_item_of xs))
      | _ \<Rightarrow> None)"

text \<open>The contents of the message items, in order, and what the loop collects from them.\<close>

definition message_contents :: "responses_envelope \<Rightarrow> output_content list" where
  "message_contents envelope =
     concat (map oi_content (filter (\<lambda>item. oi_type item = lit ''message'') (re_output envelope)))"

definition refused :: "responses_envelope \<Rightarrow> bool" where
  "refused envelope \<longleftrightarrow> list_ex (\<lambda>content. oc_type content = REFUSAL) (message_contents envelope)"

definition text_parts :: "responses_envelope \<Rightarrow> pystr list" where
  "text_parts envelope = map (\<lambda>content. strip (or_empty (oc_text content)))
     (filter (\<lambda>content. oc_type content \<noteq> REFUSAL \<and> truthy (oc_text content)) (message_contents envelope))"

definition responses_parse_response :: "json option \<Rightarrow> pystr \<Rightarrow> composition_result res" where
  "responses_parse_response body tid =
     (case Option.bind body responses_envelope_of of
        None \<Rightarrow> Inl broken_response
      | Some envelope \<Rightarrow>
        if re_status envelope \<noteq> lit ''completed'' then Inl incomplete_response
        else if refused envelope
        then Inl (LLMAdapterError LLM_REFUSED (lit ''No pude redactar esa respuesta.'') None)
        else (let reply = strip (join [10] (filter (\<lambda>part. part \<noteq> []) (text_parts envelope)))
              in if reply = [] then Inl empty_response
                 else composed reply (re_id envelope) (re_model envelope) tid))"

section \<open>The request loops\<close>

definition llm_http_error :: "llm_error_code \<Rightarrow> int \<Rightarrow> exn" where
  "llm_http_error code status =
     LLMAdapterError code (lit ''No pude redactar la respuesta en este momento.'') (Some status)"

definition chat_map_http_error :: "int \<Rightarrow> exn" where
  "chat_map_http_error status = llm_http_error
     (if status = 400 then LLM_BAD_REQUEST else if status \<in> set [401, 403] then LLM_UNAUTHORIZED
      else if status = 429 then LLM_RATE_LIMITED else LLM_UNAVAILABLE) status"

definition responses_map_http_error :: "int \<Rightarrow> exn" where
  "responses_map_http_error status = llm_http_error
     (if status = 400 then LLM_BAD_REQUEST else if status = 401 then LLM_UNAUTHORIZED
      else if status = 429 then LLM_RATE_LIMITED else LLM_UNAVAILABLE) status"

function llm_loop ::
  "(int \<Rightarrow> exn) \<Rightarrow> (json option \<Rightarrow> 'r res) \<Rightarrow> nat \<Rightarrow> (nat \<Rightarrow> http_outcome) \<Rightarrow> nat \<Rightarrow> 'r res \<times> nat list" where
  "llm_loop map_error parse mx net n =
     (if n > mx then (Inl AssertionError, [])
      else case net n of
        Http_Timeout \<Rightarrow>
          if n < mx then (let (r, pauses) = llm_loop map_error parse mx net (Suc n) in (r, n # pauses))
          else (Inl (LLMAdapterError LLM_TIMEOUT (lit ''No pude redactar la respuesta a tiempo.'') None), [])
      | Http_RequestError \<Rightarrow>
          (Inl (LLMAdapterError LLM_UNAVAILABLE (lit ''No pude acceder al redactor en este momento.'') None), [])
      | Http_Response status body \<Rightarrow>
          if status \<in> set [429, 500, 502, 503] \<and> n < mx
          then (let (r, pauses) = llm_loop map_error parse mx net (Suc n) in (r, n # pauses))
          else if is_error status then (Inl (map_error status), [])
          else (parse body, []))"
  by pat_completeness auto
termination by (relation "measure (\<lambda>(map_error, parse, mx, net, n). Suc mx - n)") auto

declare llm_loop.simps [simp del]

type_synonym provider = "json \<Rightarrow> nat \<Rightarrow> http_outcome"

definition chat_compose :: "llm_config \<Rightarrow> provider \<Rightarrow> composition_request \<Rightarrow> composition_result res" where
  "chat_compose cfg net request =
     fst (llm_loop chat_map_http_error (\<lambda>body. chat_parse_response body (cr_trace_id request))
       (lc_max_attempts cfg) (net (chat_body cfg request)) 1)"

definition responses_compose :: "llm_config \<Rightarrow> provider \<Rightarrow> composition_request \<Rightarrow> composition_result res" where
  "responses_compose cfg net request =
     fst (llm_loop responses_map_http_error (\<lambda>body. responses_parse_response body (cr_trace_id request))
       (lc_max_attempts cfg) (net (responses_body cfg request)) 1)"

fun adapter_compose :: "llm_adapter \<Rightarrow> provider \<Rightarrow> composition_request \<Rightarrow> composition_result res" where
  "adapter_compose (ChatAdapter cfg) = chat_compose cfg"
| "adapter_compose (ResponsesAdapter cfg) = responses_compose cfg"

section \<open>Both loops are bounded retries\<close>

definition llm_transient :: "http_outcome \<Rightarrow> bool" where
  "llm_transient r = (case r of Http_Timeout \<Rightarrow> True | Http_RequestError \<Rightarrow> False
     | Http_Response status body \<Rightarrow> status \<in> set [429, 500, 502, 503])"

definition llm_finish :: "(int \<Rightarrow> exn) \<Rightarrow> (json option \<Rightarrow> 'r res) \<Rightarrow> http_outcome \<Rightarrow> 'r res" where
  "llm_finish map_error parse r = (case r of
     Http_Timeout \<Rightarrow> Inl (LLMAdapterError LLM_TIMEOUT (lit ''No pude redactar la respuesta a tiempo.'') None)
   | Http_RequestError \<Rightarrow>
       Inl (LLMAdapterError LLM_UNAVAILABLE (lit ''No pude acceder al redactor en este momento.'') None)
   | Http_Response status body \<Rightarrow> if is_error status then Inl (map_error status) else parse body)"

interpretation llm: bounded_retry "llm_loop map_error parse" llm_transient "llm_finish map_error parse"
  for map_error parse
proof unfold_locales
  fix n mx :: nat and net :: "nat \<Rightarrow> http_outcome"
  assume "n < mx" "llm_transient (net n)"
  then show "llm_loop map_error parse mx net n
      = (fst (llm_loop map_error parse mx net (Suc n)), n # snd (llm_loop map_error parse mx net (Suc n)))"
    by (subst llm_loop.simps) (auto simp: llm_transient_def split: http_outcome.splits prod.splits)
next
  fix n mx :: nat and net :: "nat \<Rightarrow> http_outcome"
  assume "n \<le> mx" "n = mx \<or> \<not> llm_transient (net n)"
  then show "llm_loop map_error parse mx net n = (llm_finish map_error parse (net n), [])"
    by (subst llm_loop.simps) (auto simp: llm_transient_def llm_finish_def is_error_def split: http_outcome.splits)
qed

text \<open>
  What an adapter may return: a valid result with text that is not blank, an \<open>LLMAdapterError\<close>, or
  the \<open>ValidationError\<close> of an answer whose text or identifiers exceed the contract.
\<close>

definition composition_outcome :: "composition_result res \<Rightarrow> pystr \<Rightarrow> bool" where
  "composition_outcome r tid =
     (case r of
        Inr c \<Rightarrow> valid_composition_result c \<and> strip (cres_text c) = cres_text c \<and> cres_text c \<noteq> []
          \<and> cres_trace_id c = tid
      | Inl (LLMAdapterError code msg st) \<Rightarrow> True
      | Inl ValidationError \<Rightarrow> True
      | Inl _ \<Rightarrow> False)"

lemma composed_outcome: "strip reply = reply \<Longrightarrow> reply \<noteq> [] \<Longrightarrow> composition_outcome (composed reply i md tid) tid"
  by (simp add: composition_outcome_def composed_def construct_def)

lemma chat_parse_outcome: "composition_outcome (chat_parse_response body tid) tid"
  by (auto simp: chat_parse_response_def composed_outcome broken_response_def empty_response_def
      composition_outcome_def [of "Inl _"] split: option.splits list.splits)

lemma responses_parse_outcome: "composition_outcome (responses_parse_response body tid) tid"
  by (auto simp: responses_parse_response_def Let_def composed_outcome broken_response_def empty_response_def
      incomplete_response_def composition_outcome_def [of "Inl _"] split: option.splits)

lemma llm_finish_outcome:
  assumes "\<And>body. composition_outcome (parse body) tid"
    and "\<And>st. \<exists>code. map_error st = llm_http_error code st"
  shows "composition_outcome (llm_finish map_error parse r) tid"
proof (cases r)
  case (Http_Response status body)
  then show ?thesis using assms(1) [of body] assms(2) [of status]
    by (auto simp: llm_finish_def llm_http_error_def composition_outcome_def)
qed (simp_all add: llm_finish_def composition_outcome_def)

lemma llm_loop_outcome:
  assumes "1 \<le> mx" "\<And>body. composition_outcome (parse body) tid" "\<And>st. \<exists>code. map_error st = llm_http_error code st"
  shows "composition_outcome (fst (llm_loop map_error parse mx net 1)) tid"
proof -
  obtain k where "llm_loop map_error parse mx net 1 = (llm_finish map_error parse (net k), [1..<k])"
    using llm.loop_ends [OF assms(1), of net map_error parse] by blast
  then show ?thesis using llm_finish_outcome [OF assms(2,3)] by simp
qed

lemma chat_compose_outcome:
  assumes "1 \<le> lc_max_attempts cfg"
  shows "composition_outcome (chat_compose cfg net request) (cr_trace_id request)"
proof -
  have "\<exists>code. chat_map_http_error st = llm_http_error code st" for st by (auto simp: chat_map_http_error_def)
  from llm_loop_outcome [where map_error = chat_map_http_error and tid = "cr_trace_id request"
      and parse = "\<lambda>body. chat_parse_response body (cr_trace_id request)", OF assms chat_parse_outcome this]
  show ?thesis by (simp add: chat_compose_def)
qed

lemma responses_compose_outcome:
  assumes "1 \<le> lc_max_attempts cfg"
  shows "composition_outcome (responses_compose cfg net request) (cr_trace_id request)"
proof -
  have "\<exists>code. responses_map_http_error st = llm_http_error code st" for st
    by (auto simp: responses_map_http_error_def)
  from llm_loop_outcome [where map_error = responses_map_http_error and tid = "cr_trace_id request"
      and parse = "\<lambda>body. responses_parse_response body (cr_trace_id request)", OF assms responses_parse_outcome this]
  show ?thesis by (simp add: responses_compose_def)
qed

lemma create_llm_adapter_Inr:
  assumes "create_llm_adapter provider api_key model mx tokens = Inr adapter"
  shows "\<exists>cfg. 1 \<le> lc_max_attempts cfg \<and> (adapter = ChatAdapter cfg \<or> adapter = ResponsesAdapter cfg)"
proof -
  have cfg: "new_llm_config k md mx tokens = Inr cfg \<Longrightarrow> 1 \<le> lc_max_attempts cfg" for k md cfg
    by (auto simp: new_llm_config_def split: if_splits)
  from assms obtain k where "api_key = Inr (Some k)"
    by (cases api_key; cases "projr api_key") (simp_all add: create_llm_adapter_def
        create_openai_chat_adapter_def create_openai_responses_adapter_def split: if_splits)
  moreover with assms obtain md where "model = Some md"
    by (cases model) (simp_all add: create_llm_adapter_def
        create_openai_chat_adapter_def create_openai_responses_adapter_def split: if_splits)
  ultimately have "\<exists>c. new_llm_config k md mx tokens = Inr c \<and> (adapter = ChatAdapter c \<or> adapter = ResponsesAdapter c)"
    using assms by (cases "new_llm_config k md mx tokens") (simp_all add: create_llm_adapter_def
        create_openai_chat_adapter_def create_openai_responses_adapter_def split: if_splits)
  with cfg show ?thesis by blast
qed

text \<open>
  A provider cannot make an adapter misbehave. Whatever it answers, an adapter that was created
  from settings returns text that is not blank and satisfies the contract, raises an
  \<open>LLMAdapterError\<close>, or, when the provider's text or identifiers exceed the contract, a
  \<open>ValidationError\<close>; the loop ends and its final assertion is not reached.
\<close>

theorem adapter_compose_outcome:
  assumes "create_llm_adapter provider api_key model mx tokens = Inr adapter"
  shows "composition_outcome (adapter_compose adapter net request) (cr_trace_id request)"
proof -
  from create_llm_adapter_Inr [OF assms] obtain cfg where mx: "1 \<le> lc_max_attempts cfg"
    and "adapter = ChatAdapter cfg \<or> adapter = ResponsesAdapter cfg" by blast
  then show ?thesis using chat_compose_outcome [OF mx] responses_compose_outcome [OF mx] by auto
qed

definition sample_request :: composition_request where
  "sample_request = \<lparr>cr_system_prompt = lit ''sys'', cr_evidence_prompt = lit ''ev'',
     cr_conversation = [\<lparr>ct_role = TURN_USER, ct_text = lit ''hola''\<rparr>, \<lparr>ct_role = TURN_USER, ct_text = lit ''hay?''\<rparr>],
     cr_trace_id = lit ''t1''\<rparr>"

lemma sample_adapter:
  "create_llm_adapter (Some (lit ''openai'')) (Inr (Some (lit ''k''))) (Some (lit ''m'')) 2 500
    = Inr (ResponsesAdapter \<lparr>lc_model = lit ''m'', lc_max_attempts = 2, lc_max_output_tokens = 500\<rparr>)"
proof -
  have "strip (lit ''k'') \<noteq> []" "strip (lit ''m'') = lit ''m''"
    by (simp_all add: strip_def rstrip_by_def lit_def is_space_def)
  then show ?thesis by (simp add: create_llm_adapter_def create_openai_responses_adapter_def new_llm_config_def)
qed

theorem adapter_compose_outcome_witness:
  "composition_outcome (adapter_compose
      (ResponsesAdapter \<lparr>lc_model = lit ''m'', lc_max_attempts = 2, lc_max_output_tokens = 500\<rparr>)
      (\<lambda>body n. Http_Timeout) sample_request) (lit ''t1'')"
  using adapter_compose_outcome [OF sample_adapter, of "\<lambda>body n. Http_Timeout" sample_request]
  by (simp add: sample_request_def)

section \<open>Chat messages\<close>

text \<open>
  The messages as runs: \<open>run_message\<close> joins the texts of a run of turns with the same role, and a
  list of runs is maximal when neighbouring runs have different roles.
\<close>

definition run_message :: "(pystr \<times> pystr) list \<Rightarrow> pystr \<times> pystr" where
  "run_message g = (fst (hd g), join [10, 10] (map snd g))"

definition one_role :: "(pystr \<times> pystr) list \<Rightarrow> bool" where
  "one_role g \<longleftrightarrow> g \<noteq> [] \<and> list_all (\<lambda>t. fst t = fst (hd g)) g"

definition runs_of :: "(pystr \<times> pystr) list \<Rightarrow> (pystr \<times> pystr) list list \<Rightarrow> bool" where
  "runs_of turns gs \<longleftrightarrow> concat gs = turns \<and> list_all one_role gs \<and> successively (\<lambda>a b. fst (hd a) \<noteq> fst (hd b)) gs"

lemma join_snoc: "xs \<noteq> [] \<Longrightarrow> join sep (xs @ [y]) = join sep xs @ sep @ y"
  by (induction xs rule: list.induct) (auto simp: join_def split: list.splits)

lemma run_message_snoc: "one_role g \<Longrightarrow> run_message (g @ [(fst (hd g), x)]) = (fst (run_message g), snd (run_message g) @ [10, 10] @ x)"
  by (auto simp: run_message_def one_role_def join_snoc)

lemma one_role_snoc: "one_role g \<Longrightarrow> one_role (g @ [(fst (hd g), x)])"
  by (cases g) (auto simp: one_role_def)

lemma append_message_runs:
  assumes "runs_of turns gs" "role \<noteq> lit ''system''"
  shows "\<exists>hs. runs_of (turns @ [(role, x)]) hs
    \<and> append_message ((lit ''system'', sys) # map run_message gs) role x = (lit ''system'', sys) # map run_message hs"
proof (cases gs rule: rev_cases)
  case Nil
  with assms have "runs_of (turns @ [(role, x)]) [[(role, x)]]" by (auto simp: runs_of_def one_role_def)
  with Nil assms(2) show ?thesis
    by (intro exI [of _ "[[(role, x)]]"]) (auto simp: append_message_def run_message_def)
next
  case (snoc gs' g)
  from assms(1) snoc have g: "one_role g" and rest: "concat gs' @ g = turns" "list_all one_role gs'"
    "successively (\<lambda>a b. fst (hd a) \<noteq> fst (hd b)) (gs' @ [g])"
    by (auto simp: runs_of_def)
  show ?thesis
  proof (cases "fst (hd g) = role")
    case True
    let ?g = "g @ [(fst (hd g), x)]"
    from g have "hd ?g = hd g" by (auto simp: one_role_def)
    then have "successively (\<lambda>a b. fst (hd a) \<noteq> fst (hd b)) (gs' @ [?g])"
      using rest(3) by (auto simp: successively_append_iff)
    then have "runs_of (turns @ [(role, x)]) (gs' @ [?g])"
      using True rest(1,2) one_role_snoc [OF g] by (auto simp: runs_of_def)
    moreover have "append_message ((lit ''system'', sys) # map run_message gs) role x
        = (lit ''system'', sys) # map run_message (gs' @ [?g])"
      using True snoc run_message_snoc [OF g, of x] by (simp add: append_message_def run_message_def)
    ultimately show ?thesis by blast
  next
    case False
    have "runs_of (turns @ [(role, x)]) (gs @ [[(role, x)]])"
      using False snoc rest g by (auto simp: runs_of_def one_role_def successively_append_iff)
    moreover have "append_message ((lit ''system'', sys) # map run_message gs) role x
        = (lit ''system'', sys) # map run_message (gs @ [[(role, x)]])"
      using False snoc by (simp add: append_message_def run_message_def)
    ultimately show ?thesis by blast
  qed
qed

definition request_turns :: "composition_request \<Rightarrow> (pystr \<times> pystr) list" where
  "request_turns request = map (\<lambda>turn. (turn_role_value (ct_role turn), ct_text turn)) (cr_conversation request)
     @ [(lit ''user'', evidence_request (cr_evidence_prompt request))]"

lemma role_not_system: "turn_role_value role \<noteq> lit ''system''"
  by (cases role) simp_all

lemma appended_runs:
  "\<exists>gs. runs_of (map (\<lambda>turn. (turn_role_value (ct_role turn), ct_text turn)) turns) gs
    \<and> foldl (\<lambda>ms turn. append_message ms (turn_role_value (ct_role turn)) (ct_text turn)) [(lit ''system'', sys)] turns
      = (lit ''system'', sys) # map run_message gs"
proof (induction turns rule: rev_induct)
  case Nil
  then show ?case by (intro exI [of _ "[]"]) (simp add: runs_of_def)
next
  case (snoc turn turns)
  then obtain gs where gs: "runs_of (map (\<lambda>turn. (turn_role_value (ct_role turn), ct_text turn)) turns) gs"
    "foldl (\<lambda>ms turn. append_message ms (turn_role_value (ct_role turn)) (ct_text turn)) [(lit ''system'', sys)] turns
      = (lit ''system'', sys) # map run_message gs" by blast
  from append_message_runs [OF gs(1) role_not_system, of "ct_role turn" "ct_text turn" sys] gs(2)
  show ?case by simp
qed

text \<open>
  The chat request keeps the conversation. The messages are the system prompt followed by the
  turns and the evidence request, in order and with nothing lost: each message joins one maximal run
  of turns with the same role, so roles alternate and the last message is the user's.
\<close>

theorem chat_messages_runs:
  "\<exists>gs. runs_of (request_turns request) gs
    \<and> chat_messages request = (lit ''system'', cr_system_prompt request) # map run_message gs
    \<and> successively (\<lambda>a b. fst a \<noteq> fst b) (map run_message gs)
    \<and> fst (last (chat_messages request)) = lit ''user''"
proof -
  from appended_runs obtain hs where hs:
    "runs_of (map (\<lambda>turn. (turn_role_value (ct_role turn), ct_text turn)) (cr_conversation request)) hs"
    "foldl (\<lambda>ms turn. append_message ms (turn_role_value (ct_role turn)) (ct_text turn))
      [(lit ''system'', cr_system_prompt request)] (cr_conversation request)
      = (lit ''system'', cr_system_prompt request) # map run_message hs" by blast
  from append_message_runs [OF hs(1), of "lit ''user''" "evidence_request (cr_evidence_prompt request)"
      "cr_system_prompt request"] obtain gs where gs: "runs_of (request_turns request) gs"
    "chat_messages request = (lit ''system'', cr_system_prompt request) # map run_message gs"
    by (auto simp: request_turns_def chat_messages_def hs(2))
  have "successively (\<lambda>a b. fst a \<noteq> fst b) (map run_message gs)"
    using gs(1) by (simp add: runs_of_def successively_map run_message_def)
  moreover have "fst (last (chat_messages request)) = lit ''user''"
    by (simp add: chat_messages_def append_message_def)
  ultimately show ?thesis using gs by blast
qed

end
