(* ===== verification/Engine.thy ===== *)
theory Engine
  imports Grounding Prompts LLM Events
begin

text \<open>
  Composition of a reply: \<open>ResponseComposer\<close> of \<open>src/src/piki/composition/service.py\<close> and
  \<open>ResponseEngine\<close> of \<open>src/src/piki/composition/engine.py\<close>. \<open>adapter\<close> is the \<open>compose\<close> of a
  language-model adapter; the event log is passed along.
\<close>

definition emitting :: "event_log res \<Rightarrow> event_log \<Rightarrow> (event_log \<Rightarrow> 'a res \<times> event_log) \<Rightarrow> 'a res \<times> event_log" where
  "emitting r log k = (case r of Inl e \<Rightarrow> (Inl e, log) | Inr log' \<Rightarrow> k log')"

type_synonym adapter = "composition_request \<Rightarrow> composition_result res"

definition compose ::
  "(nat \<Rightarrow> int) \<Rightarrow> adapter \<Rightarrow> context_packet \<Rightarrow> conversation_turn list \<Rightarrow> event_log
    \<Rightarrow> composition_result res \<times> event_log" where
  "compose el adapter packet conversation log =
     (if cp_response_mode packet \<notin> set [JINJA_LLM, NON_COMMERCIAL_LLM] then (Inl ValueError, log)
      else emitting (emit el TEMPLATE_RENDERED (cp_trace_id packet) (lit ''jinja'') EV_SUCCEEDED True None log) log
        (\<lambda>log1. (rbind (construct valid_composition_request
            \<lparr>cr_system_prompt = system_prompt, cr_evidence_prompt = render_evidence packet,
             cr_conversation = conversation, cr_trace_id = cp_trace_id packet\<rparr>) adapter, log1)))"

record response_outcome =
  ro_text :: pystr
  ro_mode :: response_mode
  ro_used_fallback :: bool
  ro_grounding_failures :: "grounding_failure list"
  ro_provider_response_id :: "pystr option"
  ro_trace_id :: pystr

definition valid_response_outcome :: "response_outcome \<Rightarrow> bool" where
  [valid_defs]: "valid_response_outcome r \<longleftrightarrow> len_between 1 4096 (ro_text r)
     \<and> opt_len 0 255 (ro_provider_response_id r) \<and> len_between 1 128 (ro_trace_id r)"

definition fallback :: "ucd \<Rightarrow> context_packet \<Rightarrow> grounding_failure list \<Rightarrow> response_outcome res" where
  "fallback u packet failures = construct valid_response_outcome
     \<lparr>ro_text = factual_fallback u packet, ro_mode = cp_response_mode packet, ro_used_fallback = True,
      ro_grounding_failures = failures, ro_provider_response_id = None, ro_trace_id = cp_trace_id packet\<rparr>"

definition emit_grounding ::
  "(nat \<Rightarrow> int) \<Rightarrow> context_packet \<Rightarrow> grounding_failure list \<Rightarrow> event_log \<Rightarrow> event_log res" where
  "emit_grounding el packet failures log =
     emit el GROUNDING_CHECKED (cp_trace_id packet) (lit ''grounding'')
       (if failures \<noteq> [] then EV_BLOCKED else EV_SUCCEEDED) True
       (case failures of [] \<Rightarrow> None | f # _ \<Rightarrow> Some (grounding_failure_value f)) log"

text \<open>Validation of a text and the outcome it leads to, the common end of both text modes.\<close>

definition checked_outcome ::
  "(nat \<Rightarrow> int) \<Rightarrow> ucd \<Rightarrow> context_packet \<Rightarrow> pystr \<Rightarrow> pystr option \<Rightarrow> event_log \<Rightarrow> response_outcome res \<times> event_log" where
  "checked_outcome el u packet draft provider_id log =
     (case validate u draft packet of
        Inl e \<Rightarrow> (Inl e, log)
      | Inr validation \<Rightarrow>
        emitting (emit_grounding el packet (gr_failures validation) log) log (\<lambda>log1.
          (case (gr_safe validation, gr_text validation) of
             (True, Some reply) \<Rightarrow> (construct valid_response_outcome
               \<lparr>ro_text = reply, ro_mode = cp_response_mode packet, ro_used_fallback = False,
                ro_grounding_failures = [], ro_provider_response_id = provider_id,
                ro_trace_id = cp_trace_id packet\<rparr>, log1)
           | _ \<Rightarrow> (fallback u packet (gr_failures validation), log1))))"

definition respond_llm ::
  "(nat \<Rightarrow> int) \<Rightarrow> ucd \<Rightarrow> adapter \<Rightarrow> context_packet \<Rightarrow> conversation_turn list \<Rightarrow> event_log
    \<Rightarrow> response_outcome res \<times> event_log" where
  "respond_llm el u adapter packet conversation log =
     emitting (emit el LLM_STARTED (cp_trace_id packet) (lit ''llm'') EV_STARTED False None log) log (\<lambda>log1.
       (case compose el adapter packet conversation log1 of
          (Inl (LLMAdapterError code msg st), log2) \<Rightarrow>
            emitting (emit el LLM_FINISHED (cp_trace_id packet) (lit ''llm'') EV_FAILED True
              (Some (llm_error_value code)) log2) log2 (\<lambda>log3. (fallback u packet [], log3))
        | (Inl e, log2) \<Rightarrow> (Inl e, log2)
        | (Inr reply, log2) \<Rightarrow>
            emitting (emit el LLM_FINISHED (cp_trace_id packet) (lit ''llm'') EV_SUCCEEDED True None log2) log2
              (checked_outcome el u packet (cres_text reply) (Some (cres_provider_response_id reply)))))"

definition respond ::
  "(nat \<Rightarrow> int) \<Rightarrow> ucd \<Rightarrow> adapter \<Rightarrow> context_packet \<Rightarrow> conversation_turn list \<Rightarrow> pystr option \<Rightarrow> event_log
    \<Rightarrow> response_outcome res \<times> event_log" where
  "respond el u adapter packet conversation deterministic_text log =
     emitting (emit_counts el CONTEXT_BUILT (cp_trace_id packet) (lit ''context_packet'') EV_SUCCEEDED False None
         (Some (int (length (cp_confirmed_data packet)))) (Some (int (length (cp_unavailable_data packet)))) log) log
       (\<lambda>log1.
         (case cp_response_mode packet of
            JINJA \<Rightarrow> (fallback u packet [], log1)
          | DETERMINISTIC \<Rightarrow>
              (case deterministic_text of
                 None \<Rightarrow> (Inl ValueError, log1)
               | Some draft \<Rightarrow> checked_outcome el u packet draft None log1)
          | _ \<Rightarrow> respond_llm el u adapter packet conversation log1))"

section \<open>Lemmas\<close>

lemma emit_ok:
  assumes "len_between 1 128 tid" "len_between 1 100 cname" "opt_len 0 100 err" "opt_nonneg conf" "opt_nonneg unav"
  shows "\<exists>r. emit_counts el ev tid cname out timed err conf unav log = Inr (log @ [r])
    \<and> lr_event r = ev \<and> lr_outcome r = out"
  using assms by (cases rule: emit_counts_cases [of el ev tid cname out timed err conf unav log])
    (simp_all add: emit_counts_raises)

lemma emit_plain:
  assumes "len_between 1 128 tid" "len_between 1 100 cname" "opt_len 0 100 err"
  shows "\<exists>r. emit el ev tid cname out timed err log = Inr (log @ [r])"
  using emit_ok [OF assms, of None None el ev out timed log] by (auto simp: opt_nonneg_def)

lemma validate_total:
  "\<exists>r. validate u draft packet = Inr r \<and> gr_safe r = (gr_failures r = [])
    \<and> gr_text r = (if gr_failures r = [] then Some (strip draft) else None)
    \<and> gr_failures r = filter (grounding_fails u (strip draft) packet) failures_by_value"
  by (simp add: validate_def Let_def construct_def valid_grounding_result_def)

lemma emitting_Inr: "emitting r log k = (Inr x, log') \<longleftrightarrow> (\<exists>log1. r = Inr log1 \<and> k log1 = (Inr x, log'))"
  by (auto simp: emitting_def split: sum.splits)

text \<open>An outcome that answers a packet: the fallback, or a text that passed validation.\<close>

definition answers :: "ucd \<Rightarrow> context_packet \<Rightarrow> response_outcome \<Rightarrow> bool" where
  "answers u packet a \<longleftrightarrow> valid_response_outcome a \<and> ro_mode a = cp_response_mode packet
     \<and> ro_trace_id a = cp_trace_id packet
     \<and> (if ro_used_fallback a then ro_text a = factual_fallback u packet
        else ro_grounding_failures a = []
          \<and> (\<exists>draft r. validate u draft packet = Inr r \<and> gr_text r = Some (ro_text a)))"

lemma fallback_answers: "fallback u packet failures = Inr a \<Longrightarrow> answers u packet a \<and> ro_used_fallback a"
  by (auto simp: fallback_def answers_def)

lemma fallback_total: "valid_context_packet packet \<Longrightarrow> \<exists>a. fallback u packet failures = Inr a"
  using fallback_length [of u packet] by (simp add: fallback_def construct_def valid_defs)

lemma checked_answers:
  assumes "checked_outcome el u packet draft pid log = (Inr a, log')"
  shows "answers u packet a"
proof -
  obtain v where v: "validate u draft packet = Inr v" "gr_safe v = (gr_failures v = [])"
    "gr_text v = (if gr_failures v = [] then Some (strip draft) else None)"
    using validate_total [of u draft packet] by blast
  show ?thesis
  proof (cases "gr_failures v = []")
    case True
    with assms v have "valid_response_outcome a \<and> a = \<lparr>ro_text = strip draft, ro_mode = cp_response_mode packet,
        ro_used_fallback = False, ro_grounding_failures = [], ro_provider_response_id = pid,
        ro_trace_id = cp_trace_id packet\<rparr>"
      by (auto simp: checked_outcome_def emitting_Inr)
    with v True show ?thesis by (auto simp: answers_def)
  next
    case False
    with assms v show ?thesis by (auto simp: checked_outcome_def emitting_Inr dest: fallback_answers)
  qed
qed

lemma respond_llm_answers:
  assumes "respond_llm el u adapter packet conversation log = (Inr a, log')"
  shows "answers u packet a"
proof -
  from assms obtain log1 where log1: "(case compose el adapter packet conversation log1 of
          (Inl (LLMAdapterError code msg st), log2) \<Rightarrow>
            emitting (emit el LLM_FINISHED (cp_trace_id packet) (lit ''llm'') EV_FAILED True
              (Some (llm_error_value code)) log2) log2 (\<lambda>log3. (fallback u packet [], log3))
        | (Inl e, log2) \<Rightarrow> (Inl e, log2)
        | (Inr reply, log2) \<Rightarrow>
            emitting (emit el LLM_FINISHED (cp_trace_id packet) (lit ''llm'') EV_SUCCEEDED True None log2) log2
              (checked_outcome el u packet (cres_text reply) (Some (cres_provider_response_id reply)))) = (Inr a, log')"
    by (auto simp: respond_llm_def emitting_Inr)
  obtain r log2 where r: "compose el adapter packet conversation log1 = (r, log2)" by fastforce
  show ?thesis
  proof (cases r)
    case (Inl e)
    with log1 r show ?thesis by (cases e) (auto simp: emitting_Inr dest: fallback_answers)
  next
    case (Inr reply)
    with log1 r show ?thesis by (auto simp: emitting_Inr dest: checked_answers)
  qed
qed

lemma respond_answers:
  assumes "respond el u adapter packet conversation det log = (Inr a, log')"
  shows "answers u packet a"
  using assms
  by (cases "cp_response_mode packet"; cases det)
    (auto simp: respond_def emitting_Inr dest: fallback_answers checked_answers respond_llm_answers)

lemma answer_no_internal:
  assumes "unicode_tables u" "answers u packet a"
  shows "\<not> has_internal u (ro_text a)"
proof (cases "ro_used_fallback a")
  case True
  with assms unicode_tables.no_leak_fallback [OF assms(1)] show ?thesis by (simp add: answers_def)
next
  case False
  with assms(2) obtain draft r where "validate u draft packet = Inr r" "gr_text r = Some (ro_text a)"
    by (auto simp: answers_def)
  from validate_Inr [OF this] grounding_failures_all [of GF_INTERNAL_LEAK] show ?thesis by auto
qed

text \<open>
  C7. Nothing unchecked is answered. Whenever the engine returns, in whatever mode and whatever the
  model produced, the text is the factual fallback of the packet or passed the grounding validation
  against it, it has a legal length, belongs to the packet's trace, and names no internal marker.
\<close>

theorem respond_grounded:
  assumes "unicode_tables u" and "respond el u adapter packet conversation det log = (Inr a, log')"
  shows "answers u packet a \<and> \<not> has_internal u (ro_text a)"
  using respond_answers [OF assms(2)] answer_no_internal [OF assms(1)] by blast

section \<open>Provider failures\<close>

lemma strip_nonblank: "c \<in> set x \<Longrightarrow> \<not> is_space c \<Longrightarrow> strip (x @ y) \<noteq> []"
  unfolding strip_eq_Nil by auto

lemma system_prompt_length: "1 \<le> length system_prompt \<and> length system_prompt \<le> 12000"
proof -
  have "83 \<in> set (lit ''Sos Piki, el asistente oficial de BuenPick para rescatar alimentos de '')" "\<not> is_space 83"
    by (simp_all add: lit_def is_space_def)
  from strip_nonblank [OF this] have "system_prompt \<noteq> []" unfolding system_prompt_def .
  moreover have "length system_prompt \<le> 12000"
    unfolding system_prompt_def by (rule order_trans [OF length_strip]) simp
  ultimately show ?thesis by (simp add: Suc_le_eq)
qed

lemma render_evidence_nonempty: "1 \<le> length (render_evidence p)"
proof -
  obtain rest where "evidence_lines p = lit ''TAREA'' # rest" by (simp add: evidence_lines_def)
  then show ?thesis by (simp add: render_evidence_join join_def)
qed

definition packet_request :: "context_packet \<Rightarrow> conversation_turn list \<Rightarrow> composition_request" where
  "packet_request packet conversation =
     \<lparr>cr_system_prompt = system_prompt, cr_evidence_prompt = render_evidence packet,
      cr_conversation = conversation, cr_trace_id = cp_trace_id packet\<rparr>"

lemma compose_result:
  assumes "valid_context_packet packet" "cp_response_mode packet \<in> {JINJA_LLM, NON_COMMERCIAL_LLM}"
  shows "\<exists>log'. compose el adapter packet conversation log =
    ((if length (render_evidence packet) \<le> 30000 \<and> length conversation \<le> 20
      then adapter (packet_request packet conversation) else Inl ValidationError), log')"
proof -
  from assms(1) have "len_between 1 128 (cp_trace_id packet)" by (simp add: valid_defs)
  then obtain r where "emit el TEMPLATE_RENDERED (cp_trace_id packet) (lit ''jinja'') EV_SUCCEEDED True None log
      = Inr (log @ [r])"
    using emit_plain [of "cp_trace_id packet" "lit ''jinja''" None el TEMPLATE_RENDERED EV_SUCCEEDED True log] by auto
  moreover have "valid_composition_request (packet_request packet conversation)
      \<longleftrightarrow> length (render_evidence packet) \<le> 30000 \<and> length conversation \<le> 20"
    using system_prompt_length render_evidence_nonempty [of packet] assms(1)
    by (auto simp: valid_composition_request_def packet_request_def valid_context_packet_def)
  ultimately show ?thesis using assms(2)
    by (auto simp: compose_def emitting_def construct_def simp flip: packet_request_def)
qed

lemma checked_total:
  assumes "valid_context_packet packet" "length draft \<le> 4096" "opt_len 0 255 pid"
  shows "\<exists>a. fst (checked_outcome el u packet draft pid log) = Inr a"
proof -
  obtain v where v: "validate u draft packet = Inr v" "gr_safe v = (gr_failures v = [])"
    "gr_text v = (if gr_failures v = [] then Some (strip draft) else None)"
    "gr_failures v = filter (grounding_fails u (strip draft) packet) failures_by_value"
    using validate_total [of u draft packet] by blast
  have "length (grounding_failure_value f) \<le> 100" for f by (cases f) simp_all
  then have "opt_len 0 100 (case gr_failures v of [] \<Rightarrow> None | f # _ \<Rightarrow> Some (grounding_failure_value f))"
    by (simp split: list.splits)
  moreover have t: "len_between 1 128 (cp_trace_id packet)" using assms(1) by (simp add: valid_defs)
  ultimately obtain r where r: "emit_grounding el packet (gr_failures v) log = Inr (log @ [r])"
    using emit_plain [of "cp_trace_id packet" "lit ''grounding''"] unfolding emit_grounding_def by fastforce
  show ?thesis
  proof (cases "gr_failures v = []")
    case True
    have "\<not> grounding_fails u (strip draft) packet GF_EMPTY"
      using True v(4) grounding_failures_all [of GF_EMPTY] by (metis filter_empty_conv)
    then have "1 \<le> length (strip draft)" by (simp add: Suc_le_eq)
    moreover have "length (strip draft) \<le> 4096" using length_strip [of draft] assms(2) by simp
    ultimately show ?thesis using True v r assms(3) t
      by (simp add: checked_outcome_def emitting_def construct_def valid_response_outcome_def)
  next
    case False
    with v r fallback_total [OF assms(1)] show ?thesis by (simp add: checked_outcome_def emitting_def)
  qed
qed

lemma emit_llm:
  assumes "len_between 1 128 tid" "opt_len 0 100 err"
  shows "\<exists>r. emit el ev tid (lit ''llm'') res timed err log = Inr (log @ [r])"
  using emit_plain [OF assms(1) _ assms(2), of "lit ''llm''" el ev res timed log] by simp

lemma llm_error_value_len: "length (llm_error_value code) \<le> 100"
  by (cases code) simp_all

text \<open>What the engine relies on: an adapter whose outcomes are classified.\<close>

locale llm_port =
  fixes adapter :: adapter
  assumes outcome: "composition_outcome (adapter request) (cr_trace_id request)"
begin

lemma respond_llm_total:
  assumes "valid_context_packet packet" "cp_response_mode packet \<in> {JINJA_LLM, NON_COMMERCIAL_LLM}"
  shows "if 30000 < length (render_evidence packet) \<or> 20 < length conversation
    then fst (respond_llm el u adapter packet conversation log) = Inl ValidationError
    else (case adapter (packet_request packet conversation) of
        Inl ValidationError \<Rightarrow> fst (respond_llm el u adapter packet conversation log) = Inl ValidationError
      | Inl e \<Rightarrow> \<exists>a. fst (respond_llm el u adapter packet conversation log) = Inr a \<and> ro_used_fallback a
      | Inr c \<Rightarrow> \<exists>a. fst (respond_llm el u adapter packet conversation log) = Inr a)"
proof -
  have t: "len_between 1 128 (cp_trace_id packet)" using assms(1) by (simp add: valid_defs)
  note emits = emit_llm [OF t]
  obtain r where r: "emit el LLM_STARTED (cp_trace_id packet) (lit ''llm'') EV_STARTED False None log = Inr (log @ [r])"
    using emits [of None el LLM_STARTED EV_STARTED False log] by auto
  obtain log2 where c: "compose el adapter packet conversation (log @ [r]) =
    ((if length (render_evidence packet) \<le> 30000 \<and> length conversation \<le> 20
      then adapter (packet_request packet conversation) else Inl ValidationError), log2)"
    using compose_result [OF assms] by blast
  show ?thesis
  proof (cases "length (render_evidence packet) \<le> 30000 \<and> length conversation \<le> 20")
    case False
    then show ?thesis using r c by (auto simp: respond_llm_def emitting_def)
  next
    case True
    note out = outcome [of "packet_request packet conversation", unfolded composition_outcome_def]
    show ?thesis
    proof (cases "adapter (packet_request packet conversation)")
      case (Inl e)
      from out Inl consider "e = ValidationError" | code msg st where "e = LLMAdapterError code msg st"
        by (cases e) simp_all
      then show ?thesis
      proof cases
        case 1
        with True Inl r c show ?thesis by (simp add: respond_llm_def emitting_def)
      next
        case 2
        from fallback_total [OF assms(1)] obtain a where "fallback u packet [] = Inr a" by blast
        with 2 True Inl r c emits [of "Some (llm_error_value code)" el LLM_FINISHED EV_FAILED True log2] show ?thesis
          by (auto simp: respond_llm_def emitting_def llm_error_value_len dest: fallback_answers)
      qed
    next
      case (Inr reply)
      with out have v: "valid_composition_result reply" by simp
      obtain r2 where "emit el LLM_FINISHED (cp_trace_id packet) (lit ''llm'') EV_SUCCEEDED True None log2
          = Inr (log2 @ [r2])" using emits [of None el LLM_FINISHED EV_SUCCEEDED True log2] by auto
      with True Inr r c checked_total [OF assms(1), of "cres_text reply" "Some (cres_provider_response_id reply)"] v
      show ?thesis by (auto simp: respond_llm_def emitting_def valid_composition_result_def)
    qed
  qed
qed

end

text \<open>Both adapters provide the port, for every model, number of attempts and provider.\<close>

interpretation chat_port: llm_port "chat_compose \<lparr>lc_model = md, lc_max_attempts = Suc n, lc_max_output_tokens = k\<rparr> net"
  for md n k net
  by unfold_locales (simp add: chat_compose_outcome)

interpretation responses_port: llm_port
  "responses_compose \<lparr>lc_model = md, lc_max_attempts = Suc n, lc_max_output_tokens = k\<rparr> net" for md n k net
  by unfold_locales (simp add: responses_compose_outcome)

lemma respond_llm_mode:
  assumes "valid_context_packet packet" "cp_response_mode packet \<in> {JINJA_LLM, NON_COMMERCIAL_LLM}"
  shows "\<exists>log1. respond el u adapter packet conversation det log = respond_llm el u adapter packet conversation log1"
proof -
  have "len_between 1 128 (cp_trace_id packet)" using assms(1) by (simp add: valid_defs)
  then obtain r where "emit_counts el CONTEXT_BUILT (cp_trace_id packet) (lit ''context_packet'') EV_SUCCEEDED False None
      (Some (int (length (cp_confirmed_data packet)))) (Some (int (length (cp_unavailable_data packet)))) log = Inr (log @ [r])"
    using emit_ok [of "cp_trace_id packet" "lit ''context_packet''" None "Some (int (length (cp_confirmed_data packet)))"
        "Some (int (length (cp_unavailable_data packet)))" el CONTEXT_BUILT EV_SUCCEEDED False log]
    by (auto simp: opt_nonneg_def)
  with assms(2) show ?thesis by (auto simp: respond_def emitting_def)
qed


lemma sample_packet_valid: "valid_context_packet sample_packet"
  by (simp add: sample_packet_def valid_defs)

lemma sample_packet_short: "length (render_evidence sample_packet) \<le> 30000"
proof -
  have len: "length (json_string (lit s)) \<le> 2 + 6 * length s" for s
  proof -
    have "length (json_escape c) \<le> 6" for c by (simp add: json_escape_def)
    then have "length (concat (map json_escape xs)) \<le> 6 * length xs" for xs
      by (induction xs) (auto simp: add_mono)
    from this [of "lit s"] show ?thesis by (simp add: json_string_def)
  qed
  show ?thesis
    using len [of "''t''"] len [of "''q''"] len [of "''p''"] len [of "''Quedan 3''"] len [of "''buenpick_internal_api''"]
      len [of "''jinja_llm''"] len [of "''t1''"]
    by (simp add: render_evidence_join evidence_lines_def section_lines_def confirmed_line_def sample_packet_def)
qed


theorem respond_grounded_witness:
  "\<exists>a. fst (respond (\<lambda>n. 0) latin1 (\<lambda>r. Inl ValidationError) (sample_packet\<lparr>cp_response_mode := JINJA\<rparr>) [] None []) = Inr a
    \<and> \<not> has_internal latin1 (ro_text a)"
proof -
  let ?p = "sample_packet\<lparr>cp_response_mode := JINJA\<rparr>"
  have v: "valid_context_packet ?p" using sample_packet_valid by (simp add: valid_defs)
  obtain a where "fallback latin1 ?p [] = Inr a" using fallback_total [OF v] by blast
  moreover obtain log1 where "emit_counts (\<lambda>n. 0) CONTEXT_BUILT (cp_trace_id ?p) (lit ''context_packet'') EV_SUCCEEDED
      False None (Some (int (length (cp_confirmed_data ?p)))) (Some (int (length (cp_unavailable_data ?p)))) [] = Inr log1"
    by (simp add: emit_counts_def construct_def valid_defs opt_nonneg_def sample_packet_def)
  ultimately have r: "respond (\<lambda>n. 0) latin1 (\<lambda>r. Inl ValidationError) ?p [] None [] = (Inr a, log1)"
    by (simp add: respond_def emitting_def)
  from respond_grounded [OF latin1.unicode_tables_axioms r] r show ?thesis by auto
qed

end
