(* ===== verification/Conversation_Service.thy ===== *)
theory Conversation_Service
  imports Engine Handoffs Coordination Evidence
begin

text \<open>
  The conversation orchestrator, \<open>src/src/piki/conversation/service.py\<close>: intent resolution, composing a
  reply and answering a message under the lock of its conversation. The state is the database, the
  Redis server and the event log; a computation takes it and returns a result or an exception with
  the new state. Clock readings, new UUIDs and the lock token are inputs, as is what other processes
  do to the database between two sessions of a call (\<open>in_between\<close>).
\<close>

section \<open>State and computations\<close>

record 's runtime =
  rt_db :: database
  rt_redis :: 's
  rt_log :: event_log

type_synonym ('s, 'a) task = "'s runtime \<Rightarrow> 'a res \<times> 's runtime"

definition sbind :: "('s, 'a) task \<Rightarrow> ('a \<Rightarrow> ('s, 'b) task) \<Rightarrow> ('s, 'b) task" where
  "sbind m k w = (case m w of (Inl e, w1) \<Rightarrow> (Inl e, w1) | (Inr a, w1) \<Rightarrow> k a w1)"

definition slift :: "'a res \<Rightarrow> ('s, 'a) task" where
  "slift r w = (r, w)"

definition in_session :: "(database \<Rightarrow> 'a res \<times> database) \<Rightarrow> ('s, 'a) task" where
  "in_session body w = (case session body (rt_db w) of (r, d) \<Rightarrow> (r, w\<lparr>rt_db := d\<rparr>))"

definition with_log :: "(event_log \<Rightarrow> 'a res \<times> event_log) \<Rightarrow> ('s, 'a) task" where
  "with_log f w = (case f (rt_log w) of (r, log) \<Rightarrow> (r, w\<lparr>rt_log := log\<rparr>))"

definition log_event ::
  "(nat \<Rightarrow> int) \<Rightarrow> lifecycle_event \<Rightarrow> pystr \<Rightarrow> pystr \<Rightarrow> event_outcome \<Rightarrow> pystr option \<Rightarrow> ('s, unit) task" where
  "log_event el ev tid cname out err =
     with_log (\<lambda>log. emitting (emit el ev tid cname out False err log) log (\<lambda>log1. (Inr (), log1)))"

definition elsewhere :: "(database \<Rightarrow> database) \<Rightarrow> ('s, unit) task" where
  "elsewhere f w = (Inr (), w\<lparr>rt_db := f (rt_db w)\<rparr>)"

lemma sbind_Inr: "sbind m k w = (Inr b, w2) \<longleftrightarrow> (\<exists>a w1. m w = (Inr a, w1) \<and> k a w1 = (Inr b, w2))"
  by (auto simp: sbind_def split: prod.splits sum.splits)

lemma slift_Inr: "slift r w = (Inr a, w1) \<longleftrightarrow> r = Inr a \<and> w1 = w"
  by (auto simp: slift_def)

lemma in_session_Inr: "in_session body w = (Inr a, w1) \<longleftrightarrow>
    (\<exists>d. body (rt_db w) = (Inr a, d) \<and> w1 = w\<lparr>rt_db := d\<rparr>)"
  by (auto simp: in_session_def session_def split: prod.splits sum.splits)

section \<open>Intents\<close>

datatype conversation_intent = INTENT_GREETING | INTENT_DISCOVER_PICKS | INTENT_HUMAN_HANDOFF | INTENT_EXPLAIN_BUENPICK

fun intent_value :: "conversation_intent \<Rightarrow> pystr" where
  "intent_value INTENT_GREETING = lit ''greeting''"
| "intent_value INTENT_DISCOVER_PICKS = lit ''discover_picks''"
| "intent_value INTENT_HUMAN_HANDOFF = lit ''human_handoff''"
| "intent_value INTENT_EXPLAIN_BUENPICK = lit ''explain_buenpick''"

definition normalized_plain :: "ucd \<Rightarrow> pystr \<Rightarrow> pystr" where
  "normalized_plain u s = join [32] (split_ws (filter (\<lambda>c. \<not> uc_combining u c) (uc_nfkd u (casefold u s))))"

definition handoff_terms :: "pystr list" where
  "handoff_terms = [lit ''humano'', lit ''persona'', lit ''operador'', lit ''asesor'', lit ''atencion'']"

definition search_terms :: "pystr list" where
  "search_terms = [lit ''pick'', lit ''rescat'', lit ''busc'', lit ''disponible'', lit ''comida'', lit ''alimento'',
     lit ''hay'', lit ''quiero '']"

definition explain_terms :: "pystr list" where
  "explain_terms = [lit ''que es buenpick'', lit ''como funciona'', lit ''buenpick'']"

definition greetings :: "pystr list" where
  "greetings = [lit ''hola'', lit ''buenas'', lit ''buen dia'', lit ''buenas tardes'', lit ''buenas noches'',
     lit ''hola piki'']"

definition resolve_intent :: "ucd \<Rightarrow> pystr \<Rightarrow> conversation_intent" where
  "resolve_intent u s =
     (let plain = normalized_plain u s
      in if list_ex (\<lambda>term. occurs_in term plain) handoff_terms then INTENT_HUMAN_HANDOFF
         else if plain \<in> set greetings then INTENT_GREETING
         else if list_ex (\<lambda>term. occurs_in term plain) search_terms then INTENT_DISCOVER_PICKS
         else if list_ex (\<lambda>term. occurs_in term plain) explain_terms then INTENT_EXPLAIN_BUENPICK
         else INTENT_EXPLAIN_BUENPICK)"

section \<open>Replies\<close>

record conversation_reply =
  cy_conversation_id :: uuid
  cy_text :: pystr
  cy_intent :: conversation_intent
  cy_trace_id :: pystr
  cy_used_fallback :: bool
  cy_duplicate :: bool

definition valid_conversation_reply :: "conversation_reply \<Rightarrow> bool" where
  [valid_defs]: "valid_conversation_reply r \<longleftrightarrow> len_between 1 4096 (cy_text r) \<and> len_between 1 128 (cy_trace_id r)"

text \<open>What the orchestrator is built from, and the inputs of one call.\<close>

record 's orchestrator =
  og_ops :: "'s redis"
  og_sha :: "pystr \<Rightarrow> pystr"
  og_lock_ttl :: int
  og_ucd :: ucd
  og_el :: "nat \<Rightarrow> int"
  og_adapter :: adapter
  og_tools :: "(pystr option \<Rightarrow> pystr option \<Rightarrow> pick_search_response res) option"

record inputs =
  ip_token :: pystr
  ip_now :: "nat \<Rightarrow> micros"
  ip_clock :: micros
  ip_uuid :: "nat \<Rightarrow> uuid"
  ip_latency :: int
  ip_between :: "nat \<Rightarrow> database \<Rightarrow> database"

definition turn_of :: "stored_message \<Rightarrow> conversation_turn res" where
  "turn_of item = construct valid_conversation_turn
     \<lparr>ct_role = (if sm_direction item = OUTBOUND then TURN_ASSISTANT else TURN_USER),
      ct_text = or_empty (sm_content_text item)\<rparr>"

definition history_turns :: "stored_message list \<Rightarrow> conversation_turn list res" where
  "history_turns history = map_res turn_of (filter (\<lambda>item. truthy (sm_content_text item)) history)"

definition handoff_reason :: pystr where
  "handoff_reason = lit ''La persona solicit'' @ [243] @ lit '' atenci'' @ [243] @ lit ''n humana.''"

definition handoff_text :: pystr where
  "handoff_text = lit ''Listo, ped'' @ [237] @ lit '' atenci'' @ [243] @ lit ''n humana. Tu conversaci'' @ [243]
     @ lit ''n qued'' @ [243] @ lit '' en espera; todav'' @ [237]
     @ lit ''a no significa que una persona haya respondido.''"

definition no_tools_text :: pystr where
  "no_tools_text = lit ''Todav'' @ [237] @ lit ''a no est'' @ [225]
     @ lit '' configurado el acceso local a la API de BuenPick. Puedo conversar, ''
     @ lit ''pero no voy a inventar picks, precios ni stock.''"

definition engine_reply ::
  "'s orchestrator \<Rightarrow> conversation_turn list \<Rightarrow> pystr option \<Rightarrow> context_packet \<Rightarrow> ('s, pystr \<times> bool) task" where
  "engine_reply og turns det packet =
     sbind (with_log (respond (og_el og) (og_ucd og) (og_adapter og) packet turns det))
       (\<lambda>outcome. slift (Inr (ro_text outcome, ro_used_fallback outcome)))"

definition handoff_reply ::
  "'s orchestrator \<Rightarrow> inputs \<Rightarrow> pystr \<Rightarrow> pystr \<Rightarrow> uuid \<Rightarrow> conversation_turn list \<Rightarrow> pystr \<Rightarrow> ('s, pystr \<times> bool) task" where
  "handoff_reply og ip query tid cid turns message_id =
     sbind (in_session (\<lambda>d.
       case construct valid_handoff_request
         \<lparr>hr_conversation_id = cid, hr_idempotency_key = lit ''handoff:'' @ message_id, hr_reason = handoff_reason,
          hr_trace_id = tid\<rparr> of
         Inl e \<Rightarrow> (Inl e, d)
       | Inr req \<Rightarrow> request_handoff (ip_now ip 1) (ip_uuid ip 2) req d)) (\<lambda>_.
     sbind (slift (policy_context_packet (get_policy POLICY_HUMAN_HANDOFF) query tid [] []
       [performed ''request_human_handoff'' OUT_SUCCEEDED] None))
       (engine_reply og turns (Some handoff_text)))"

definition discover_reply ::
  "'s orchestrator \<Rightarrow> inputs \<Rightarrow> pystr \<Rightarrow> pystr \<Rightarrow> conversation_turn list \<Rightarrow> ('s, pystr \<times> bool) task" where
  "discover_reply og ip query tid turns =
     (case og_tools og of
        None \<Rightarrow> slift (Inr (no_tools_text, True))
      | Some client \<Rightarrow>
        sbind (with_log (tool_search (og_el og) (ip_latency ip) tid client (Some query) None)) (\<lambda>result.
        sbind (slift (search_result_evidence (og_ucd og) result)) (\<lambda>evidence.
          if eb_confirmed_data evidence = [] then
            slift (Inr (case eb_unavailable_data evidence of
               first # _ \<Rightarrow> first | [] \<Rightarrow> lit ''No pude confirmar picks disponibles en este momento.'', True))
          else
            sbind (slift (policy_context_packet (get_policy POLICY_DISCOVER_PICKS) query tid (eb_confirmed_data evidence)
              (eb_unavailable_data evidence) (eb_actions_performed evidence) None))
              (engine_reply og turns None))))"

definition compose_reply ::
  "'s orchestrator \<Rightarrow> inputs \<Rightarrow> conversation_intent \<Rightarrow> pystr \<Rightarrow> pystr \<Rightarrow> uuid \<Rightarrow> stored_message list \<Rightarrow> pystr
    \<Rightarrow> ('s, pystr \<times> bool) task" where
  "compose_reply og ip intent query tid cid history message_id =
     sbind (slift (history_turns history)) (\<lambda>turns.
       case intent of
         INTENT_HUMAN_HANDOFF \<Rightarrow> handoff_reply og ip query tid cid turns message_id
       | INTENT_DISCOVER_PICKS \<Rightarrow> discover_reply og ip query tid turns
       | _ \<Rightarrow>
         sbind (slift (policy_context_packet (get_policy POLICY_EXPLAIN_BUENPICK) query tid [] [] [] None))
           (engine_reply og turns None))"

section \<open>Answering a message\<close>

definition reply_external_id :: "inbound_message \<Rightarrow> pystr" where
  "reply_external_id msg = lit ''piki-reply:'' @ im_message_id msg"

definition conversation_trace :: "inbound_message \<Rightarrow> pystr" where
  "conversation_trace msg = lit ''conversation:'' @ im_message_id msg"

definition recorded_reply ::
  "ucd \<Rightarrow> inbound_message \<Rightarrow> uuid \<Rightarrow> stored_message \<Rightarrow> conversation_reply res" where
  "recorded_reply u msg cid existing = construct valid_conversation_reply
     \<lparr>cy_conversation_id = cid, cy_text = or_empty (sm_content_text existing),
      cy_intent = resolve_intent u (or_empty (im_text msg)), cy_trace_id = sm_trace_id existing,
      cy_used_fallback = False, cy_duplicate = True\<rparr>"

text \<open>
  From the resolved intent to the recorded reply, the common second half of both entry points.
\<close>

definition answer_message ::
  "'s orchestrator \<Rightarrow> inputs \<Rightarrow> inbound_message \<Rightarrow> uuid \<Rightarrow> stored_message list \<Rightarrow> ('s, conversation_reply) task" where
  "answer_message og ip msg cid history =
     (let tid = conversation_trace msg; intent = resolve_intent (og_ucd og) (or_empty (im_text msg))
      in sbind (log_event (og_el og) INTENT_RESOLVED tid (intent_value intent) EV_SUCCEEDED None) (\<lambda>_.
         sbind (elsewhere (ip_between ip 0)) (\<lambda>_.
         sbind (compose_reply og ip intent (or_empty (im_text msg)) tid cid history (im_message_id msg)) (\<lambda>(reply, used).
         sbind (elsewhere (ip_between ip 1)) (\<lambda>_.
         sbind (in_session (record_outbound (ip_now ip 2) (ip_uuid ip 3) cid reply tid (reply_external_id msg))) (\<lambda>_.
           slift (construct valid_conversation_reply
             \<lparr>cy_conversation_id = cid, cy_text = reply, cy_intent = intent, cy_trace_id = tid,
              cy_used_fallback = used, cy_duplicate = False\<rparr>)))))))"

text \<open>The first session of \<open>_respond_locked\<close>: a finished reply, or the conversation and its history.\<close>

definition receive_session ::
  "'s orchestrator \<Rightarrow> inputs \<Rightarrow> pystr \<Rightarrow> inbound_message \<Rightarrow> database
    \<Rightarrow> (conversation_reply + uuid \<times> stored_message list) res \<times> database" where
  "receive_session og ip account msg d =
     (case record_inbound (ip_now ip 0) (ip_clock ip) (ip_uuid ip 0) (ip_uuid ip 1) account msg
        (conversation_trace msg) False d of
        (Inl e, d1) \<Rightarrow> (Inl e, d1)
      | (Inr persisted, d1) \<Rightarrow>
        if pi_status persisted = PERSIST_DUPLICATE then
          (rbind (find_message (reply_external_id msg) d1) (\<lambda>found.
             case found of
               Some existing \<Rightarrow>
                 if truthy (sm_content_text existing)
                 then rbind (recorded_reply (og_ucd og) msg (pi_conversation_id persisted) existing) (\<lambda>r. Inr (Inl r))
                 else Inl ConversationBusyError
             | None \<Rightarrow> Inl ConversationBusyError), d1)
        else (rbind (recent_messages (pi_conversation_id persisted) 20 d1)
                (\<lambda>history. Inr (Inr (pi_conversation_id persisted, history))), d1))"

definition respond_locked ::
  "'s orchestrator \<Rightarrow> inputs \<Rightarrow> pystr \<Rightarrow> inbound_message \<Rightarrow> ('s, conversation_reply) task" where
  "respond_locked og ip account msg =
     sbind (in_session (receive_session og ip account msg)) (\<lambda>x.
       case x of
         Inl reply \<Rightarrow> slift (Inr reply)
       | Inr (cid, history) \<Rightarrow> answer_message og ip msg cid history)"

text \<open>The session of \<open>respond_persisted\<close> that looks for a recorded reply.\<close>

definition lookup_session ::
  "'s orchestrator \<Rightarrow> uuid \<Rightarrow> inbound_message \<Rightarrow> database
    \<Rightarrow> (conversation_reply + stored_message list) res \<times> database" where
  "lookup_session og cid msg d =
     (rbind (find_message (reply_external_id msg) d) (\<lambda>found.
        case found of
          Some existing \<Rightarrow>
            if truthy (sm_content_text existing)
            then rbind (recorded_reply (og_ucd og) msg cid existing) (\<lambda>r. Inr (Inl r))
            else rbind (recent_messages cid 20 d) (\<lambda>history. Inr (Inr history))
        | None \<Rightarrow> rbind (recent_messages cid 20 d) (\<lambda>history. Inr (Inr history))), d)"

definition persisted_locked ::
  "'s orchestrator \<Rightarrow> inputs \<Rightarrow> uuid \<Rightarrow> inbound_message \<Rightarrow> ('s, conversation_reply) task" where
  "persisted_locked og ip cid msg =
     sbind (in_session (lookup_session og cid msg)) (\<lambda>x.
       case x of
         Inl reply \<Rightarrow> slift (Inr reply)
       | Inr history \<Rightarrow> answer_message og ip msg cid history)"

text \<open>
  \<open>try: body finally: release\<close>: the lock is released whatever the body does, and \<open>after\<close> runs on the
  status of the release; what \<open>after\<close> raises replaces the outcome of the body.
\<close>

definition under_lock ::
  "'s orchestrator \<Rightarrow> inputs \<Rightarrow> conversation_scope \<Rightarrow> (lock_release_status \<Rightarrow> ('s, unit) task) \<Rightarrow> ('s, 'a) task
    \<Rightarrow> ('s, 'a) task" where
  "under_lock og ip scope after body w =
     (case acquire (og_ops og) (og_sha og) (og_lock_ttl og) (ip_token ip) scope (rt_redis w) of
        (Inl e, s1) \<Rightarrow> (Inl e, w\<lparr>rt_redis := s1\<rparr>)
      | (Inr lease, s1) \<Rightarrow>
        (case (ll_status lease, ll_owner_token lease) of
           (LOCK_ACQUIRED, Some token) \<Rightarrow>
             (case body (w\<lparr>rt_redis := s1\<rparr>) of
                (r, w2) \<Rightarrow>
                  (case release (og_ops og) (og_sha og) scope token (rt_redis w2) of
                     (released, s3) \<Rightarrow>
                       (case after released (w2\<lparr>rt_redis := s3\<rparr>) of
                          (Inl e, w3) \<Rightarrow> (Inl e, w3) | (Inr _, w3) \<Rightarrow> (r, w3))))
         | _ \<Rightarrow> (Inl ConversationBusyError, w\<lparr>rt_redis := s1\<rparr>)))"

definition message_scope :: "inbound_message \<Rightarrow> pystr \<Rightarrow> conversation_scope res" where
  "message_scope msg account = construct valid_conversation_scope
     \<lparr>sc_channel = im_channel msg, sc_channel_account_id = account, sc_conversation_id = im_conversation_id msg\<rparr>"

definition orchestrator_respond ::
  "'s orchestrator \<Rightarrow> inputs \<Rightarrow> pystr \<Rightarrow> inbound_message \<Rightarrow> ('s, conversation_reply) task" where
  "orchestrator_respond og ip account msg =
     sbind (log_event (og_el og) MESSAGE_RECEIVED (conversation_trace msg) (lit ''conversation'') EV_SUCCEEDED None) (\<lambda>_.
     sbind (slift (message_scope msg account)) (\<lambda>scope.
       under_lock og ip scope
         (\<lambda>released. if released = RELEASE_UNAVAILABLE
            then log_event (og_el og) INTENT_RESOLVED (conversation_trace msg) (lit ''conversation_lock'') EV_FAILED
              (Some (lit ''lock_release_unavailable''))
            else slift (Inr ()))
         (respond_locked og ip account msg)))"

definition respond_persisted ::
  "'s orchestrator \<Rightarrow> inputs \<Rightarrow> pystr \<Rightarrow> uuid \<Rightarrow> inbound_message \<Rightarrow> ('s, conversation_reply) task" where
  "respond_persisted og ip account cid msg =
     sbind (log_event (og_el og) MESSAGE_RECEIVED (conversation_trace msg) (lit ''conversation_worker'') EV_SUCCEEDED None)
       (\<lambda>_.
     sbind (slift (message_scope msg account)) (\<lambda>scope.
       under_lock og ip scope (\<lambda>released. slift (Inr ())) (persisted_locked og ip cid msg)))"

definition history_body :: "channel \<Rightarrow> pystr \<Rightarrow> pystr \<Rightarrow> database \<Rightarrow> stored_message list res \<times> database" where
  "history_body ch account conversation_id d =
     (case find_conversation_id ch account conversation_id d of
        None \<Rightarrow> (Inr [], d)
      | Some internal_id \<Rightarrow> (recent_messages internal_id 100 d, d))"

definition conversation_history :: "channel \<Rightarrow> pystr \<Rightarrow> pystr \<Rightarrow> ('s, stored_message list) task" where
  "conversation_history ch account conversation_id = in_session (history_body ch account conversation_id)"

section \<open>What a computation may change\<close>

definition always :: "('s runtime \<Rightarrow> 's runtime \<Rightarrow> bool) \<Rightarrow> ('s, 'a) task \<Rightarrow> bool" where
  "always R m \<longleftrightarrow> (\<forall>w. R w (snd (m w)))"

lemma alwaysD: "always R m \<Longrightarrow> m w = (r, w1) \<Longrightarrow> R w w1"
  by (metis always_def snd_conv)

lemma always_sbind:
  assumes "transp R" "always R m" "\<And>a. always R (k a)"
  shows "always R (sbind m k)"
  unfolding always_def
proof
  fix w
  obtain r w1 where m: "m w = (r, w1)" by fastforce
  show "R w (snd (sbind m k w))"
  proof (cases r)
    case (Inl e)
    with m alwaysD [OF assms(2) m] show ?thesis by (simp add: sbind_def)
  next
    case (Inr a)
    with m alwaysD [OF assms(2) m] assms(3) [of a] show ?thesis
      by (auto simp: sbind_def always_def intro: transpD [OF assms(1)])
  qed
qed

text \<open>
  A relation between states that every effect of composing a reply respects holds between the states
  before and after composing one; with the effects of recording the reply and of the lock, it holds
  for a whole call.
\<close>

locale reply_frame =
  fixes R :: "'s runtime \<Rightarrow> 's runtime \<Rightarrow> bool"
  assumes R_trans: "transp R"
    and R_refl: "R w w"
    and R_log: "R w (w\<lparr>rt_log := log\<rparr>)"
    and R_handoff: "request_handoff now hid req (rt_db w) = (Inr x, d) \<Longrightarrow> R w (w\<lparr>rt_db := d\<rparr>)"
begin

lemma always_slift: "always R (slift r)"
  by (simp add: always_def slift_def R_refl)

lemma always_with_log: "always R (with_log f)"
  by (simp add: always_def with_log_def R_log split: prod.splits)

lemma always_log_event: "always R (log_event el ev tid cname out err)"
  by (simp add: log_event_def always_with_log)

lemma always_in_session:
  assumes "\<And>w a d. body (rt_db w) = (Inr a, d) \<Longrightarrow> R w (w\<lparr>rt_db := d\<rparr>)"
  shows "always R (in_session body)"
proof -
  have "R w (snd (in_session body w))" for w
    using assms [of w] R_refl [of w] by (cases body "rt_db w" rule: session_cases) (auto simp: in_session_def)
  then show ?thesis by (simp add: always_def)
qed

lemmas frame_intros = always_sbind [OF R_trans] always_slift always_with_log

lemma always_compose_reply: "always R (compose_reply og ip intent query tid cid history message_id)"
proof -
  have engine: "always R (engine_reply og turns det packet)" for turns det packet
    unfolding engine_reply_def by (intro frame_intros)
  have "always R (handoff_reply og ip query tid cid turns message_id)" for turns
    unfolding handoff_reply_def
    by (intro frame_intros engine always_in_session) (auto split: sum.splits dest: R_handoff)
  moreover have "always R (discover_reply og ip query tid turns)" for turns
    unfolding discover_reply_def by (auto split: option.splits if_splits intro!: frame_intros engine)
  ultimately show ?thesis
    unfolding compose_reply_def
    by (intro frame_intros) (auto split: conversation_intent.splits intro!: frame_intros engine)
qed

end

locale call_frame = reply_frame +
  assumes R_redis: "R w (w\<lparr>rt_redis := s\<rparr>)"
    and R_outbound: "record_outbound now mid cid reply tid ext (rt_db w) = (Inr y, d) \<Longrightarrow> R w (w\<lparr>rt_db := d\<rparr>)"
begin

lemma always_answer_message:
  assumes "\<And>n. always R (elsewhere (ip_between ip n))"
  shows "always R (answer_message og ip msg cid history)"
  unfolding answer_message_def Let_def
  by (auto intro!: frame_intros always_log_event always_compose_reply always_in_session R_outbound assms)

lemma always_under_lock:
  assumes "always R body" "\<And>released. always R (after released)"
  shows "always R (under_lock og ip scope after body)"
  unfolding always_def
proof
  fix w :: "'a runtime"
  note t = transpD [OF R_trans]
  obtain x s1 where a: "acquire (og_ops og) (og_sha og) (og_lock_ttl og) (ip_token ip) scope (rt_redis w) = (x, s1)"
    by fastforce
  obtain q w2 where q: "body (w\<lparr>rt_redis := s1\<rparr>) = (q, w2)" by fastforce
  have w2: "R w w2" by (rule t [OF R_redis alwaysD [OF assms(1) q]])
  have end_ok: "R w w3" if "after released (w2\<lparr>rt_redis := s3\<rparr>) = (y, w3)" for released s3 y w3
    by (rule t [OF t [OF w2 R_redis] alwaysD [OF assms(2) that]])
  show "R w (snd (under_lock og ip scope after body w))"
    using R_redis [of w s1] q end_ok a
    by (auto simp: under_lock_def split: sum.splits prod.splits lock_status.splits option.splits)
qed

lemma always_respond_persisted:
  assumes "\<And>n. always R (elsewhere (ip_between ip n))"
  shows "always R (respond_persisted og ip account cid msg)"
proof -
  have lookup: "always R (in_session (lookup_session og cid msg))"
    by (rule always_in_session) (auto simp: lookup_session_def R_refl)
  have "always R (persisted_locked og ip cid msg)"
    unfolding persisted_locked_def
    by (rule always_sbind [OF R_trans lookup])
      (auto split: sum.split intro: always_slift always_answer_message [OF assms])
  then show ?thesis
    unfolding respond_persisted_def
    by (intro frame_intros always_log_event always_under_lock)
qed

end

text \<open>Changes outside the messages, with Redis untouched.\<close>

definition quiet :: "'s runtime \<Rightarrow> 's runtime \<Rightarrow> bool" where
  "quiet w w1 \<longleftrightarrow> rt_redis w1 = rt_redis w \<and> messages (rt_db w1) = messages (rt_db w)
     \<and> (db_ok (rt_db w) \<longrightarrow> db_ok (rt_db w1))"

lemma request_handoff_quiet:
  assumes "request_handoff now hid r d = (Inr a, d1)"
  shows "messages d1 = messages d \<and> attempts d1 = attempts d \<and> (db_ok d \<longrightarrow> db_ok d1)"
proof -
  have ok: "db_ok (d\<lparr>handoffs := handoffs d @ [new_handoff now hid r]\<rparr>)"
    if "db_ok d" "\<not> handoff_conflict (new_handoff now hid r) d" "hr_conversation_id r \<in> set (map cv_id (conversations d))"
    using that by (auto simp: db_ok_def db_unique_def db_foreign_keys_def handoff_conflict_def unique_on_append1
        new_handoff_def)
  have same: "messages (needs_human now cid x) = messages x" "attempts (needs_human now cid x) = attempts x" for cid x
    by (simp_all add: needs_human_def)
  show ?thesis using assms ok
    by (auto simp: request_handoff_def Let_def same intro!: needs_human_db_ok split: if_splits sum.splits)
qed

interpretation quiet: reply_frame quiet
  by unfold_locales (auto simp: transp_def quiet_def dest: request_handoff_quiet)

section \<open>Replies are recorded once\<close>

abbreviation externals :: "database \<Rightarrow> pystr option set" where
  "externals d \<equiv> set (map ms_external_message_id (messages d))"

lemma record_outbound_Inr:
  assumes "record_outbound now mid cid reply tid ext d = (Inr po, d1)"
  shows "if Some ext \<in> externals d then d1 = d
    else d1 = d\<lparr>messages := messages d @ [outbound_row now mid cid reply tid ext]\<rparr> \<and> (db_ok d \<longrightarrow> db_ok d1)"
proof -
  have c: "conflicts uq_messages_external_message_id (messages d) (outbound_row now mid cid reply tid ext)
      \<longleftrightarrow> Some ext \<in> externals d"
    by (auto simp: conflicts_def uq_defs outbound_row_def)
  obtain x d2 where x: "insert_message (outbound_row now mid cid reply tid ext) d = (x, d2)" by fastforce
  with assms obtain y where y: "x = Inr y" by (cases x) (auto simp: record_outbound_def)
  with x assms have "d1 = d2" by (cases y) (auto simp: record_outbound_def)
  with x y c insert_message_db_ok [of d _ y d2] show ?thesis
    by (cases y) (auto simp: insert_message_Some insert_message_None)
qed

text \<open>What other processes may do between two sessions of a call: everything but answering this message.\<close>

definition bystanders :: "inputs \<Rightarrow> inbound_message \<Rightarrow> bool" where
  "bystanders ip msg \<longleftrightarrow> (\<forall>n d. (db_ok d \<longrightarrow> db_ok (ip_between ip n d))
     \<and> (Some (reply_external_id msg) \<in> externals (ip_between ip n d) \<longrightarrow> Some (reply_external_id msg) \<in> externals d))"

lemma bystandersD:
  assumes "bystanders ip msg"
  shows "db_ok d \<Longrightarrow> db_ok (ip_between ip n d)"
    and "Some (reply_external_id msg) \<notin> externals d \<Longrightarrow> Some (reply_external_id msg) \<notin> externals (ip_between ip n d)"
  using assms unfolding bystanders_def by blast+

lemma answer_message_records:
  assumes "answer_message og ip msg cid history w = (Inr r, w1)" "bystanders ip msg" "db_ok (rt_db w)"
    "Some (reply_external_id msg) \<notin> externals (rt_db w)"
  shows "db_ok (rt_db w1) \<and> rt_redis w1 = rt_redis w \<and> \<not> cy_duplicate r \<and> cy_trace_id r = conversation_trace msg
    \<and> valid_conversation_reply r
    \<and> (\<exists>row \<in> set (messages (rt_db w1)). ms_external_message_id row = Some (reply_external_id msg)
        \<and> ms_direction row = OUTBOUND \<and> ms_content_text row = Some (cy_text r) \<and> ms_trace_id row = cy_trace_id r)"
proof -
  let ?tid = "conversation_trace msg" and ?intent = "resolve_intent (og_ucd og) (or_empty (im_text msg))"
  from assms(1) obtain w2 reply used w3 po w4 where
    l: "log_event (og_el og) INTENT_RESOLVED ?tid (intent_value ?intent) EV_SUCCEEDED None w = (Inr (), w2)"
    and c: "compose_reply og ip ?intent (or_empty (im_text msg)) ?tid cid history (im_message_id msg)
      (w2\<lparr>rt_db := ip_between ip 0 (rt_db w2)\<rparr>) = (Inr (reply, used), w3)"
    and o: "record_outbound (ip_now ip 2) (ip_uuid ip 3) cid reply ?tid (reply_external_id msg)
      (ip_between ip 1 (rt_db w3)) = (Inr po, w4)" "w1 = w3\<lparr>rt_db := w4\<rparr>"
    and r: "r = \<lparr>cy_conversation_id = cid, cy_text = reply, cy_intent = ?intent, cy_trace_id = ?tid,
        cy_used_fallback = used, cy_duplicate = False\<rparr>" "valid_conversation_reply r"
    by (auto simp: answer_message_def Let_def sbind_Inr slift_Inr in_session_Inr elsewhere_def)
  from alwaysD [OF quiet.always_log_event l] have w2: "quiet w w2" .
  from alwaysD [OF quiet.always_compose_reply c] have w3: "quiet (w2\<lparr>rt_db := ip_between ip 0 (rt_db w2)\<rparr>) w3" .
  let ?d = "ip_between ip 1 (rt_db w3)"
  have "externals (rt_db w2) = externals (rt_db w)" "externals (rt_db w3) = externals (ip_between ip 0 (rt_db w2))"
    using w2 w3 by (simp_all add: quiet_def)
  with assms(4) bystandersD(2) [OF assms(2)] have new: "Some (reply_external_id msg) \<notin> externals ?d" by metis
  have ok: "db_ok ?d" using w2 w3 assms(3) bystandersD(1) [OF assms(2)] by (simp add: quiet_def)
  from record_outbound_Inr [OF o(1)] new ok have
    "w4 = ?d\<lparr>messages := messages ?d @ [outbound_row (ip_now ip 2) (ip_uuid ip 3) cid reply ?tid (reply_external_id msg)]\<rparr>"
    "db_ok w4" by auto
  then show ?thesis using o(2) r w2 w3 by (auto simp: outbound_row_def quiet_def)
qed

lemma find_message_unique:
  assumes "db_ok d" "row \<in> set (messages d)" "ms_external_message_id row = Some ext"
  shows "find_message ext d = Inr (Some (stored row))"
proof -
  have "unique_on uq_messages_external_message_id (messages d)" using assms(1) by (simp add: db_ok_def db_unique_def)
  from filter_unique_key [OF this assms(2)] assms(3)
  have "filter (\<lambda>r. ms_external_message_id r = Some ext) (messages d) = [row]" by (simp add: uq_defs)
  then show ?thesis by (simp add: find_message_def)
qed

lemma under_lock_Inr:
  assumes "under_lock og ip scope after body w = (Inr a, w1)"
  shows "\<exists>s1 w2 s3 released. body (w\<lparr>rt_redis := s1\<rparr>) = (Inr a, w2) \<and> after released (w2\<lparr>rt_redis := s3\<rparr>) = (Inr (), w1)"
proof -
  obtain r s1 where a: "acquire (og_ops og) (og_sha og) (og_lock_ttl og) (ip_token ip) scope (rt_redis w) = (r, s1)"
    by fastforce
  with assms obtain lease where lease: "r = Inr lease" by (cases r) (auto simp: under_lock_def)
  with assms a obtain token where token: "ll_status lease = LOCK_ACQUIRED" "ll_owner_token lease = Some token"
    by (auto simp: under_lock_def split: lock_status.splits option.splits)
  obtain q w2 where q: "body (w\<lparr>rt_redis := s1\<rparr>) = (q, w2)" by fastforce
  obtain released s3 where rel: "release (og_ops og) (og_sha og) scope token (rt_redis w2) = (released, s3)" by fastforce
  obtain x w3 where x: "after released (w2\<lparr>rt_redis := s3\<rparr>) = (x, w3)" by fastforce
  from assms a lease token q rel x have "x = Inr () \<and> q = Inr a \<and> w3 = w1"
    by (cases x) (auto simp: under_lock_def)
  with q x show ?thesis by blast
qed

text \<open>A message whose reply is on record is answered from the record.\<close>

lemma replayed_reply:
  assumes "respond_persisted og ip account cid msg w = (Inr r, w1)" "db_ok (rt_db w)"
    "row \<in> set (messages (rt_db w))" "ms_external_message_id row = Some (reply_external_id msg)"
    "truthy (ms_content_text row)"
  shows "rt_db w1 = rt_db w \<and> cy_duplicate r \<and> ms_content_text row = Some (cy_text r)
    \<and> cy_trace_id r = ms_trace_id row \<and> length (rt_log w1) = Suc (length (rt_log w))"
proof -
  obtain scope w2 where
    l: "log_event (og_el og) MESSAGE_RECEIVED (conversation_trace msg) (lit ''conversation_worker'') EV_SUCCEEDED None w
      = (Inr (), w2)" and u: "under_lock og ip scope (\<lambda>released. slift (Inr ())) (persisted_locked og ip cid msg) w2 = (Inr r, w1)"
    using assms(1) by (auto simp: respond_persisted_def sbind_Inr slift_Inr)
  from l have db: "rt_db w2 = rt_db w" and log: "length (rt_log w2) = Suc (length (rt_log w))"
    by (auto simp: log_event_def with_log_def emitting_def split: prod.splits sum.splits dest!: emit_counts_Inr)
  from under_lock_Inr [OF u] obtain s1 w3 s3 where
    b: "persisted_locked og ip cid msg (w2\<lparr>rt_redis := s1\<rparr>) = (Inr r, w3)" "w1 = w3\<lparr>rt_redis := s3\<rparr>"
    by (auto simp: slift_Inr)
  have f: "find_message (reply_external_id msg) (rt_db w) = Inr (Some (stored row))"
    using find_message_unique [OF assms(2-4)] .
  have t: "truthy (sm_content_text (stored row))" using assms(5) by (simp add: stored_def)
  have "recorded_reply (og_ucd og) msg cid (stored row) = Inr r \<and> w3 = w2\<lparr>rt_redis := s1\<rparr>"
    using b(1) f t db
    by (auto simp: persisted_locked_def sbind_Inr in_session_Inr lookup_session_def slift_Inr rbind_eq_Inr)
  then show ?thesis using b(2) db log assms(5)
    by (cases "ms_content_text row") (auto simp: recorded_reply_def stored_def)
qed

lemma first_reply:
  assumes "respond_persisted og ip account cid msg w = (Inr r, w1)" "db_ok (rt_db w)" "bystanders ip msg"
    "Some (reply_external_id msg) \<notin> externals (rt_db w)"
  shows "db_ok (rt_db w1) \<and> \<not> cy_duplicate r \<and> valid_conversation_reply r
    \<and> (\<exists>row \<in> set (messages (rt_db w1)). ms_external_message_id row = Some (reply_external_id msg)
        \<and> ms_direction row = OUTBOUND \<and> ms_content_text row = Some (cy_text r) \<and> ms_trace_id row = cy_trace_id r)"
proof -
  obtain scope w2 where
    l: "log_event (og_el og) MESSAGE_RECEIVED (conversation_trace msg) (lit ''conversation_worker'') EV_SUCCEEDED None w
      = (Inr (), w2)" and u: "under_lock og ip scope (\<lambda>released. slift (Inr ())) (persisted_locked og ip cid msg) w2 = (Inr r, w1)"
    using assms(1) by (auto simp: respond_persisted_def sbind_Inr slift_Inr)
  from l have db: "rt_db w2 = rt_db w" by (auto simp: log_event_def with_log_def split: prod.splits)
  from under_lock_Inr [OF u] obtain s1 w3 s3 where
    b: "persisted_locked og ip cid msg (w2\<lparr>rt_redis := s1\<rparr>) = (Inr r, w3)" "w1 = w3\<lparr>rt_redis := s3\<rparr>"
    by (auto simp: slift_Inr)
  have "filter (\<lambda>r. ms_external_message_id r = Some (reply_external_id msg)) (messages (rt_db w)) = []"
    using assms(4) by (force simp: filter_empty_conv)
  then have f: "find_message (reply_external_id msg) (rt_db w) = Inr None" by (simp add: find_message_def)
  obtain history where "answer_message og ip msg cid history (w2\<lparr>rt_redis := s1, rt_db := rt_db w\<rparr>) = (Inr r, w3)"
    using b(1) f db
    by (auto simp: persisted_locked_def sbind_Inr in_session_Inr lookup_session_def rbind_eq_Inr)
  from answer_message_records [OF this assms(3)] assms(2,4) db b(2) show ?thesis by auto
qed

text \<open>
  C6. A message gets one reply. When the worker's orchestrator first answers a message, while other
  processes do anything but answer it, the reply is on record; every later call for the same
  message, on any database that still has the outbound messages, returns that reply, marked as a
  duplicate, leaves the database alone and asks neither BuenPick nor the model.
\<close>

theorem reply_recorded_once:
  assumes "db_ok (rt_db w)" "Some (reply_external_id msg) \<notin> externals (rt_db w)" "bystanders ip msg"
    and "respond_persisted og ip account cid msg w = (Inr r, w1)"
    and "db_ok (rt_db w2)" "{row \<in> set (messages (rt_db w1)). ms_direction row = OUTBOUND} \<subseteq> set (messages (rt_db w2))"
    and "respond_persisted og' ip' account' cid' msg w2 = (Inr r', w3)"
  shows "\<not> cy_duplicate r \<and> cy_duplicate r' \<and> cy_text r' = cy_text r \<and> cy_trace_id r' = cy_trace_id r
    \<and> rt_db w3 = rt_db w2 \<and> length (rt_log w3) = Suc (length (rt_log w2))"
proof -
  from first_reply [OF assms(4,1,3,2)] obtain row where row: "row \<in> set (messages (rt_db w1))"
    "ms_external_message_id row = Some (reply_external_id msg)" "ms_direction row = OUTBOUND"
    "ms_content_text row = Some (cy_text r)" "ms_trace_id row = cy_trace_id r"
    and r: "\<not> cy_duplicate r" "valid_conversation_reply r" by blast
  have "truthy (ms_content_text row)" using r(2) row(4) by (auto simp: valid_conversation_reply_def)
  with replayed_reply [OF assms(7,5) _ row(2)] row(1,3,4,5) assms(6) r(1) show ?thesis by auto
qed

text \<open>
  The record is found by its identifier alone, whatever the direction of the row: an inbound message
  that was stored under the identifier \<open>piki-reply:m\<close> is returned as the reply to message \<open>m\<close>.
\<close>

theorem inbound_row_taken_for_reply:
  assumes "respond_persisted og ip account cid msg w = (Inr r, w1)" "db_ok (rt_db w)"
    "row \<in> set (messages (rt_db w))" "ms_direction row = INBOUND"
    "ms_external_message_id row = Some (reply_external_id msg)" "truthy (ms_content_text row)"
  shows "ms_content_text row = Some (cy_text r) \<and> rt_db w1 = rt_db w"
  using replayed_reply [OF assms(1-3,5,6)] by simp

section \<open>The lock is always released\<close>

lemma release_gone:
  assumes "redis_server ops view" "release ops sha c token s = (st, s')" "st \<noteq> RELEASE_UNAVAILABLE"
  shows "view s' (lock_key_for sha c) \<noteq> Some token"
proof -
  let ?f = "release_lock_script ops (lock_key_for sha c) token"
  from assms(2,3) obtain n where "rd_eval ops ?f s = (Some n, s')"
    by (auto simp: release_def split: prod.splits option.splits)
  from redis_server.eval_replied [OF assms(1) this] obtain s0 where s0: "?f s0 = (n, s')" by blast
  show ?thesis
  proof (cases "rd_call_get ops (lock_key_for sha c) s0 = Some token")
    case True
    with s0 have "rd_call_del ops (lock_key_for sha c) s0 = (n, s')" by (simp add: release_lock_script_def)
    from redis_server.call_del [OF assms(1) this] show ?thesis by simp
  next
    case False
    with s0 redis_server.call_get [OF assms(1)] show ?thesis by (auto simp: release_lock_script_def)
  qed
qed

definition redis_failed :: "'s orchestrator \<Rightarrow> inputs \<Rightarrow> conversation_scope \<Rightarrow> 's runtime \<Rightarrow> 's runtime \<Rightarrow> bool" where
  "redis_failed og ip scope w w1 \<longleftrightarrow>
     fst (acquire (og_ops og) (og_sha og) (og_lock_ttl og) (ip_token ip) scope (rt_redis w))
       = Inr \<lparr>ll_status = LOCK_UNAVAILABLE, ll_owner_token = None\<rparr>
     \<or> (\<exists>s. release (og_ops og) (og_sha og) scope (ip_token ip) s = (RELEASE_UNAVAILABLE, rt_redis w1))"

lemma under_lock_released:
  assumes "redis_server (og_ops og) view" "0 < og_lock_ttl og" "len_between 32 128 (ip_token ip)"
    and "view (rt_redis w) (lock_key_for (og_sha og) scope) \<noteq> Some (ip_token ip)"
    and "under_lock og ip scope after body w = (r, w1)"
    and "\<And>st x. rt_redis (snd (after st x)) = rt_redis x"
  shows "view (rt_redis w1) (lock_key_for (og_sha og) scope) \<noteq> Some (ip_token ip) \<or> redis_failed og ip scope w w1"
proof -
  let ?key = "lock_key_for (og_sha og) scope"
  obtain x s1 where x: "rd_set (og_ops og) ?key (ip_token ip) (og_lock_ttl og) True (rt_redis w) = (x, s1)" by fastforce
  show ?thesis
  proof (cases x)
    case None
    with x show ?thesis by (simp add: redis_failed_def acquire_def construct_def valid_lock_lease_def)
  next
    case (Some acquired)
    show ?thesis
    proof (cases acquired)
      case False
      from redis_server.set_replied [OF assms(1) x [unfolded Some] assms(2)] False have "view s1 = view (rt_redis w)" by simp
      moreover have "rt_redis w1 = s1" using assms(5) x Some False
        by (auto simp: under_lock_def acquire_def construct_def valid_lock_lease_def)
      ultimately show ?thesis using assms(4) by simp
    next
      case True
      obtain q w2 where q: "body (w\<lparr>rt_redis := s1\<rparr>) = (q, w2)" by fastforce
      obtain st s3 where st: "release (og_ops og) (og_sha og) scope (ip_token ip) (rt_redis w2) = (st, s3)" by fastforce
      obtain y w3 where y: "after st (w2\<lparr>rt_redis := s3\<rparr>) = (y, w3)" by fastforce
      have "w1 = w3" using assms(3,5) x Some True q st y
        by (cases y) (auto simp: under_lock_def acquire_def construct_def valid_lock_lease_def)
      with assms(6) [of st "w2\<lparr>rt_redis := s3\<rparr>"] y have "rt_redis w1 = s3" by simp
      then show ?thesis using release_gone [OF assms(1) st] st
        by (cases "st = RELEASE_UNAVAILABLE") (auto simp: redis_failed_def)
    qed
  qed
qed

lemma sbind_lifted:
  assumes "sbind m (\<lambda>_. sbind (slift (c :: 'b res)) k) w = (r, w1)" "always quiet m"
  shows "rt_redis w1 = rt_redis w \<or> (\<exists>a w2. c = Inr a \<and> rt_redis w2 = rt_redis w \<and> k a w2 = (r, w1))"
proof -
  obtain x w2 where x: "m w = (x, w2)" by fastforce
  from alwaysD [OF assms(2) x] have "rt_redis w2 = rt_redis w" by (simp add: quiet_def)
  with assms(1) x show ?thesis by (cases x; cases c) (auto simp: sbind_def slift_def)
qed


section \<open>Replies are grounded\<close>

lemma engine_reply_Inr:
  assumes "engine_reply og turns det packet w = (Inr (reply, used), w1)"
  shows "\<exists>a. answers (og_ucd og) packet a \<and> reply = ro_text a \<and> used = ro_used_fallback a"
proof -
  from assms obtain a w2 where "with_log (respond (og_el og) (og_ucd og) (og_adapter og) packet turns det) w = (Inr a, w2)"
    "reply = ro_text a" "used = ro_used_fallback a"
    by (auto simp: engine_reply_def sbind_Inr slift_Inr)
  then show ?thesis by (auto simp: with_log_def split: prod.splits dest: respond_answers)
qed

lemma packet_confirmed:
  "policy_context_packet p query tid confirmed unavailable actions active = Inr packet \<Longrightarrow>
   cp_confirmed_data packet = confirmed"
  by (auto simp: policy_context_packet_def split: if_splits)

lemma discover_reply_cases:
  assumes "discover_reply og ip query tid turns w = (Inr (reply, used), w1)"
  obtains (unconfigured) "og_tools og = None" "reply = no_tools_text" "used"
  | (unconfirmed) result evidence where "og_tools og \<noteq> None" "search_result_evidence (og_ucd og) result = Inr evidence"
      "eb_confirmed_data evidence = []" "eb_unavailable_data evidence \<noteq> []" "reply = hd (eb_unavailable_data evidence)" "used"
  | (answered) result evidence packet w2 where "search_result_evidence (og_ucd og) result = Inr evidence"
      "eb_confirmed_data evidence \<noteq> []" "cp_confirmed_data packet = eb_confirmed_data evidence"
      "engine_reply og turns None packet w2 = (Inr (reply, used), w1)"
proof (cases "og_tools og")
  case None
  with assms unconfigured show ?thesis by (simp add: discover_reply_def slift_def)
next
  case (Some client)
  with assms obtain result evidence w2 where e: "search_result_evidence (og_ucd og) result = Inr evidence"
    and k: "(if eb_confirmed_data evidence = [] then
        slift (Inr (case eb_unavailable_data evidence of
           first # _ \<Rightarrow> first | [] \<Rightarrow> lit ''No pude confirmar picks disponibles en este momento.'', True))
      else
        sbind (slift (policy_context_packet (get_policy POLICY_DISCOVER_PICKS) query tid (eb_confirmed_data evidence)
          (eb_unavailable_data evidence) (eb_actions_performed evidence) None))
          (engine_reply og turns None)) w2 = (Inr (reply, used), w1)"
    by (auto simp: discover_reply_def sbind_Inr slift_Inr)
  show ?thesis
  proof (cases "eb_confirmed_data evidence = []")
    case True
    have ne: "eb_unavailable_data evidence \<noteq> []" by (rule search_evidence_none [OF e True])
    with k True have "reply = hd (eb_unavailable_data evidence)" "used" by (auto simp: slift_Inr split: list.splits)
    with Some e True ne unconfirmed show ?thesis by simp
  next
    case False
    with k obtain packet where "policy_context_packet (get_policy POLICY_DISCOVER_PICKS) query tid
        (eb_confirmed_data evidence) (eb_unavailable_data evidence) (eb_actions_performed evidence) None = Inr packet"
      "engine_reply og turns None packet w2 = (Inr (reply, used), w1)"
      by (auto simp: sbind_Inr slift_Inr)
    with e False packet_confirmed answered show ?thesis by metis
  qed
qed


section \<open>A concrete conversation\<close>

definition sample_question :: inbound_message where
  "sample_question = sample_inbound\<lparr>im_text := Some (lit ''hay'')\<rparr>"

definition sample_orchestrator :: "keyspace orchestrator" where
  "sample_orchestrator = \<lparr>og_ops = memory_redis, og_sha = id, og_lock_ttl = 30, og_ucd = latin1, og_el = (\<lambda>n. 0),
     og_adapter = (\<lambda>r. Inl (LLMAdapterError LLM_TIMEOUT [] None)), og_tools = None\<rparr>"

definition sample_inputs :: inputs where
  "sample_inputs = \<lparr>ip_token = sample_token, ip_now = (\<lambda>n. 10), ip_clock = 10, ip_uuid = (\<lambda>n. 5 + n), ip_latency = 0,
     ip_between = (\<lambda>n d. d)\<rparr>"

definition sample_start :: "keyspace runtime" where
  "sample_start = \<lparr>rt_db = empty_db\<lparr>conversations := [new_conversation 10 5 (lit ''pn1'') sample_question]\<rparr>,
     rt_redis = fresh_keyspace [], rt_log = []\<rparr>"

definition sample_reply :: conversation_reply where
  "sample_reply = \<lparr>cy_conversation_id = 5, cy_text = no_tools_text, cy_intent = INTENT_DISCOVER_PICKS,
     cy_trace_id = lit ''conversation:wamid.1'', cy_used_fallback = True, cy_duplicate = False\<rparr>"

lemma sample_start_ok: "db_ok (rt_db sample_start)"
  by (simp add: sample_start_def db_ok_def db_unique_def db_foreign_keys_def empty_db_def unique_on_def
      List.map_filter_simps new_conversation_def uq_defs pk_def)

lemma sample_intent: "resolve_intent latin1 (lit ''hay'') = INTENT_DISCOVER_PICKS"
proof -
  have "split_ws [104, 97, 121] = [[104, 97, 121]]" by (rule split_ws_word) (auto simp: is_space_def)
  then have n: "normalized_plain latin1 (lit ''hay'') = lit ''hay''"
    by (simp add: normalized_plain_def lit_def latin1_fold_def latin1_lower_def latin1_def latin1_decomp_def)
  show ?thesis unfolding resolve_intent_def Let_def n
    by (simp add: handoff_terms_def greetings_def search_terms_def lit_def)
qed

lemma sample_recorded:
  "record_outbound 10 8 5 no_tools_text (lit ''conversation:wamid.1'') (lit ''piki-reply:wamid.1'') (rt_db sample_start)
    = (Inr \<lparr>po_message_id = 8, po_created = True\<rparr>, (rt_db sample_start)\<lparr>messages :=
        [outbound_row 10 8 5 no_tools_text (lit ''conversation:wamid.1'') (lit ''piki-reply:wamid.1'')]\<rparr>)"
  by (simp add: record_outbound_def insert_message_def message_columns_ok_def outbound_row_def opt_varchar_def
      varchar_def opt_text_def no_tools_text_def conflicts_def sample_start_def empty_db_def new_conversation_def)
    (simp add: lit_def)

lemma sample_answer:
  assumes "rt_db w = rt_db sample_start"
  shows "\<exists>w1. persisted_locked sample_orchestrator sample_inputs 5 sample_question w = (Inr sample_reply, w1)
    \<and> rt_db w1 = (rt_db sample_start)\<lparr>messages :=
        [outbound_row 10 8 5 no_tools_text (lit ''conversation:wamid.1'') (lit ''piki-reply:wamid.1'')]\<rparr>"
proof -
  have ids: "reply_external_id sample_question = lit ''piki-reply:wamid.1''"
    "conversation_trace sample_question = lit ''conversation:wamid.1''"
    "or_empty (im_text sample_question) = lit ''hay''"
    by (simp_all add: reply_external_id_def conversation_trace_def sample_question_def sample_inbound_def flip: lit_append)
  have m: "messages (rt_db w) = []" using assms by (simp add: sample_start_def empty_db_def)
  have l: "in_session (lookup_session sample_orchestrator 5 sample_question) w = (Inr (Inr []), w)"
    by (simp add: in_session_def session_def lookup_session_def find_message_def m recent_messages_def chronological_def)
  obtain log1 where e: "log_event (\<lambda>n. 0) INTENT_RESOLVED (lit ''conversation:wamid.1'') (lit ''discover_picks'') EV_SUCCEEDED None w
      = (Inr (), w\<lparr>rt_log := log1\<rparr>)"
    by (simp add: log_event_def with_log_def emitting_def emit_counts_def construct_def valid_defs opt_nonneg_def)
  let ?w1 = "w\<lparr>rt_log := log1\<rparr>"
  have c: "compose_reply sample_orchestrator sample_inputs INTENT_DISCOVER_PICKS (lit ''hay'') (lit ''conversation:wamid.1'')
      5 [] (im_message_id sample_question) ?w1 = (Inr (no_tools_text, True), ?w1)"
    by (simp add: compose_reply_def sbind_def slift_def history_turns_def discover_reply_def sample_orchestrator_def)
  have len: "length no_tools_text \<le> 4096" "1 \<le> length no_tools_text" by (simp_all add: no_tools_text_def)
  have f: "og_ucd sample_orchestrator = latin1" "og_el sample_orchestrator = (\<lambda>n. 0)"
    "ip_between sample_inputs n d = d" "ip_now sample_inputs n = 10" "ip_uuid sample_inputs n = 5 + n" for n d
    by (simp_all add: sample_orchestrator_def sample_inputs_def)
  let ?row = "outbound_row 10 8 5 no_tools_text (lit ''conversation:wamid.1'') (lit ''piki-reply:wamid.1'')"
  have r: "in_session (record_outbound 10 8 5 no_tools_text (lit ''conversation:wamid.1'') (lit ''piki-reply:wamid.1'')) ?w1
      = (Inr \<lparr>po_message_id = 8, po_created = True\<rparr>, ?w1\<lparr>rt_db := (rt_db w)\<lparr>messages := [?row]\<rparr>\<rparr>)"
    using sample_recorded assms by (simp add: in_session_def session_def)
  have "answer_message sample_orchestrator sample_inputs sample_question 5 [] w
      = (Inr sample_reply, ?w1\<lparr>rt_db := (rt_db w)\<lparr>messages := [?row]\<rparr>\<rparr>)"
    using len by (simp add: answer_message_def Let_def ids f sample_intent sbind_def e elsewhere_def c r slift_def
        construct_def valid_conversation_reply_def sample_reply_def)
  then show ?thesis using assms by (simp add: persisted_locked_def sbind_def l)
qed

lemma sample_message_scope: "message_scope sample_question (lit ''pn1'') = Inr sample_scope"
  by (simp add: message_scope_def construct_def valid_defs sample_question_def sample_inbound_def sample_scope_def)

lemma sample_lease:
  "acquire memory_redis id 30 sample_token sample_scope (fresh_keyspace [])
    = (Inr \<lparr>ll_status = LOCK_ACQUIRED, ll_owner_token = Some sample_token\<rparr>,
       ks_put (lock_key_for id sample_scope) sample_token 30 (fresh_keyspace []))"
  by (simp add: acquire_def memory_redis_def ks_command_def ks_set_def fresh_keyspace_def ks_view_def construct_def
      valid_defs sample_token_def)

text \<open>A call of the sample orchestrator on a fresh Redis returns what its body returns.\<close>

lemma sample_call:
  assumes "rt_redis w = fresh_keyspace []"
    and "\<And>w2. rt_db w2 = rt_db w \<Longrightarrow> \<exists>w3. persisted_locked sample_orchestrator sample_inputs 5 sample_question w2 = (Inr r, w3)
      \<and> rt_db w3 = d"
  shows "\<exists>w1. respond_persisted sample_orchestrator sample_inputs (lit ''pn1'') 5 sample_question w = (Inr r, w1) \<and> rt_db w1 = d"
proof -
  have t: "conversation_trace sample_question = lit ''conversation:wamid.1''"
    by (simp add: conversation_trace_def sample_question_def sample_inbound_def flip: lit_append)
  obtain log1 where e: "log_event (\<lambda>n. 0) MESSAGE_RECEIVED (lit ''conversation:wamid.1'') (lit ''conversation_worker'')
      EV_SUCCEEDED None w = (Inr (), w\<lparr>rt_log := log1\<rparr>)"
    by (simp add: log_event_def with_log_def emitting_def emit_counts_def construct_def valid_defs opt_nonneg_def)
  let ?w2 = "w\<lparr>rt_log := log1, rt_redis := ks_put (lock_key_for id sample_scope) sample_token 30 (fresh_keyspace [])\<rparr>"
  obtain w3 where w3: "persisted_locked sample_orchestrator sample_inputs 5 sample_question ?w2 = (Inr r, w3)" "rt_db w3 = d"
    using assms(2) [of ?w2] by auto
  have f: "og_ops sample_orchestrator = memory_redis" "og_sha sample_orchestrator = id" "og_lock_ttl sample_orchestrator = 30"
    "og_el sample_orchestrator = (\<lambda>n. 0)" "ip_token sample_inputs = sample_token"
    by (simp_all add: sample_orchestrator_def sample_inputs_def)
  obtain st s4 where s4: "release memory_redis id sample_scope sample_token (rt_redis w3) = (st, s4)" by fastforce
  have "respond_persisted sample_orchestrator sample_inputs (lit ''pn1'') 5 sample_question w = (Inr r, w3\<lparr>rt_redis := s4\<rparr>)"
    using w3(1) s4 assms(1)
    by (simp add: respond_persisted_def sbind_def t f e slift_def sample_message_scope under_lock_def sample_lease)
  with w3(2) show ?thesis by simp
qed

lemma sample_first_call:
  "\<exists>w1. respond_persisted sample_orchestrator sample_inputs (lit ''pn1'') 5 sample_question sample_start = (Inr sample_reply, w1)
    \<and> messages (rt_db w1) = [outbound_row 10 8 5 no_tools_text (lit ''conversation:wamid.1'') (lit ''piki-reply:wamid.1'')]
    \<and> db_ok (rt_db w1)"
proof -
  let ?d = "(rt_db sample_start)\<lparr>messages := [outbound_row 10 8 5 no_tools_text (lit ''conversation:wamid.1'') (lit ''piki-reply:wamid.1'')]\<rparr>"
  have "db_ok ?d"
    using record_outbound_Inr [OF sample_recorded] sample_start_ok by (simp add: sample_start_def empty_db_def)
  moreover have "\<exists>w1. respond_persisted sample_orchestrator sample_inputs (lit ''pn1'') 5 sample_question sample_start
      = (Inr sample_reply, w1) \<and> rt_db w1 = ?d"
    by (rule sample_call) (use sample_answer in \<open>auto simp: sample_start_def\<close>)
  ultimately show ?thesis by auto
qed

lemma sample_bystanders: "bystanders sample_inputs msg"
  by (simp add: bystanders_def sample_inputs_def)

lemma sample_second_call:
  assumes "rt_redis w = fresh_keyspace []" "db_ok (rt_db w)"
    "outbound_row 10 8 5 no_tools_text (lit ''conversation:wamid.1'') (lit ''piki-reply:wamid.1'') \<in> set (messages (rt_db w))"
  shows "\<exists>w1. respond_persisted sample_orchestrator sample_inputs (lit ''pn1'') 5 sample_question w
    = (Inr (sample_reply\<lparr>cy_used_fallback := False, cy_duplicate := True\<rparr>), w1) \<and> rt_db w1 = rt_db w"
proof -
  let ?row = "outbound_row 10 8 5 no_tools_text (lit ''conversation:wamid.1'') (lit ''piki-reply:wamid.1'')"
  have ids: "reply_external_id sample_question = lit ''piki-reply:wamid.1''" "or_empty (im_text sample_question) = lit ''hay''"
    by (simp_all add: reply_external_id_def sample_question_def sample_inbound_def flip: lit_append)
  have f: "find_message (lit ''piki-reply:wamid.1'') (rt_db w) = Inr (Some (stored ?row))"
    by (rule find_message_unique [OF assms(2,3)]) (simp add: outbound_row_def)
  have len: "length no_tools_text \<le> 4096" "1 \<le> length no_tools_text" by (simp_all add: no_tools_text_def)
  then have "no_tools_text \<noteq> []" by auto
  then have "lookup_session sample_orchestrator 5 sample_question (rt_db w)
      = (Inr (Inl (sample_reply\<lparr>cy_used_fallback := False, cy_duplicate := True\<rparr>)), rt_db w)"
    using len by (simp add: lookup_session_def ids f recorded_reply_def stored_def outbound_row_def construct_def
        valid_conversation_reply_def sample_reply_def sample_intent sample_orchestrator_def)
  then have "\<exists>w3. persisted_locked sample_orchestrator sample_inputs 5 sample_question w2
      = (Inr (sample_reply\<lparr>cy_used_fallback := False, cy_duplicate := True\<rparr>), w3) \<and> rt_db w3 = rt_db w"
    if "rt_db w2 = rt_db w" for w2
    using that by (simp add: persisted_locked_def sbind_def in_session_def session_def slift_def)
  from sample_call [OF assms(1) this] show ?thesis by blast
qed

theorem reply_recorded_once_witness:
  "\<exists>r r' w1 w2 w3. respond_persisted sample_orchestrator sample_inputs (lit ''pn1'') 5 sample_question sample_start = (Inr r, w1)
    \<and> respond_persisted sample_orchestrator sample_inputs (lit ''pn1'') 5 sample_question w2 = (Inr r', w3)
    \<and> cy_duplicate r' \<and> cy_text r' = cy_text r \<and> rt_db w3 = rt_db w2"
proof -
  from sample_first_call obtain w1 where w1:
    "respond_persisted sample_orchestrator sample_inputs (lit ''pn1'') 5 sample_question sample_start = (Inr sample_reply, w1)"
    "messages (rt_db w1) = [outbound_row 10 8 5 no_tools_text (lit ''conversation:wamid.1'') (lit ''piki-reply:wamid.1'')]"
    "db_ok (rt_db w1)" by blast
  let ?w2 = "w1\<lparr>rt_redis := fresh_keyspace []\<rparr>"
  obtain r' w3 where w3: "respond_persisted sample_orchestrator sample_inputs (lit ''pn1'') 5 sample_question ?w2 = (Inr r', w3)"
    using sample_second_call [of ?w2] w1 by auto
  have "Some (reply_external_id sample_question) \<notin> externals (rt_db sample_start)"
    by (simp add: sample_start_def empty_db_def)
  moreover have "{row \<in> set (messages (rt_db w1)). ms_direction row = OUTBOUND} \<subseteq> set (messages (rt_db ?w2))" by auto
  moreover have "db_ok (rt_db ?w2)" using w1(3) by simp
  ultimately have "cy_duplicate r' \<and> cy_text r' = cy_text sample_reply \<and> rt_db w3 = rt_db ?w2"
    using reply_recorded_once [OF sample_start_ok _ sample_bystanders w1(1) _ _ w3] by blast
  with w1(1) w3 show ?thesis by blast
qed



end
