(* ===== verification/Worker.thy ===== *)
theory Worker
  imports Conversation_Service Processing Delivery_Protocol
begin

text \<open>
  The conversation worker, \<open>src/src/piki/conversation/worker.py\<close>: claim a queued message, answer it,
  deliver the reply and settle the job. It composes the queue (\<open>Processing\<close>), the orchestrator
  (\<open>Conversation_Service\<close>) and the delivery service (\<open>Delivery\<close>). The inputs of a call are its clock
  readings, new identifiers, the rows other transactions hold locked and what other processes do to
  the database between its steps.
\<close>

section \<open>State\<close>

record 's worker_state =
  wk_rt :: "'s runtime"
  wk_sent :: "delivery_request list"

record 's worker =
  wk_orchestrator :: "'s orchestrator"
  wk_adapter :: "delivery_request \<Rightarrow> delivery_result res"
  wk_claim_timeout :: int
  wk_max_attempts :: int

record worker_inputs =
  wi_locked :: "uuid set"
  wi_now :: "nat \<Rightarrow> micros"
  wi_reply :: inputs
  wi_attempt_id :: uuid
  wi_event_id :: uuid
  wi_others :: "nat \<Rightarrow> database \<Rightarrow> database"

abbreviation wk_db :: "'s worker_state \<Rightarrow> database" where
  "wk_db s \<equiv> rt_db (wk_rt s)"

abbreviation with_db :: "database \<Rightarrow> 's worker_state \<Rightarrow> 's worker_state" where
  "with_db d s \<equiv> s\<lparr>wk_rt := (wk_rt s)\<lparr>rt_db := d\<rparr>\<rparr>"

section \<open>Operations\<close>

definition reply_window :: "micros \<Rightarrow> datetime \<Rightarrow> service_window res" where
  "reply_window now received_at =
     (case received_at of
        Naive t \<Rightarrow> Inl TypeError
      | Aware t \<Rightarrow> Inr (if now - t \<le> 24 * 60 * 60 * 1000000 then WINDOW_OPEN else WINDOW_UNKNOWN))"

definition reply_key :: "inbound_message \<Rightarrow> pystr" where
  "reply_key msg = lit ''reply:'' @ im_message_id msg"

definition reply_request :: "service_window \<Rightarrow> claimed_inbound \<Rightarrow> conversation_reply \<Rightarrow> delivery_request res" where
  "reply_request window job reply = construct valid_delivery_request
     \<lparr>dr_idempotency_key = reply_key (ci_message job), dr_conversation_id = im_conversation_id (ci_message job),
      dr_kind = DK_TEXT, dr_text = Some (cy_text reply), dr_media_url = None, dr_interactive_options = [],
      dr_template_name = None, dr_template_language = None, dr_template_parameters = [],
      dr_customer_service_window = window, dr_trace_id = cy_trace_id reply\<rparr>"

text \<open>\<open>self._delivery.send\<close>, on the state that the worker shares with the orchestrator.\<close>

definition worker_send ::
  "'s worker \<Rightarrow> worker_inputs \<Rightarrow> uuid \<Rightarrow> delivery_request \<Rightarrow> 's worker_state \<Rightarrow> delivery_result res \<times> 's worker_state" where
  "worker_send wk wi cid req s =
     (case send (og_el (wk_orchestrator wk)) (wi_now wi 2) (wi_now wi 3) (wi_attempt_id wi) (wi_event_id wi)
        (wk_adapter wk) cid req \<lparr>ds_db = wk_db s, ds_log = rt_log (wk_rt s), ds_sent = wk_sent s\<rparr> of
        (r, t) \<Rightarrow> (r, s\<lparr>wk_rt := (wk_rt s)\<lparr>rt_db := ds_db t, rt_log := ds_log t\<rparr>, wk_sent := ds_sent t\<rparr>))"

definition deliver_reply ::
  "'s worker \<Rightarrow> worker_inputs \<Rightarrow> claimed_inbound \<Rightarrow> 's worker_state \<Rightarrow> delivery_result res \<times> 's worker_state" where
  "deliver_reply wk wi job s =
     (case respond_persisted (wk_orchestrator wk) (wi_reply wi) (ci_channel_account_id job)
        (ci_conversation_record_id job) (ci_message job) (wk_rt s) of
        (Inl e, w1) \<Rightarrow> (Inl e, s\<lparr>wk_rt := w1\<rparr>)
      | (Inr reply, w1) \<Rightarrow>
        (let s1 = with_db (wi_others wi 1 (rt_db w1)) (s\<lparr>wk_rt := w1\<rparr>)
         in case rbind (reply_window (wi_now wi 1) (im_received_at (ci_message job)))
              (\<lambda>window. reply_request window job reply) of
              Inl e \<Rightarrow> (Inl e, s1)
            | Inr req \<Rightarrow> worker_send wk wi (ci_conversation_record_id job) req s1))"

definition delivered_statuses :: "delivery_status list" where
  "delivered_statuses = [ACCEPTED, SENT, DELIVERED, READ]"

definition settle_job ::
  "worker_inputs \<Rightarrow> claimed_inbound \<Rightarrow> delivery_result \<Rightarrow> database \<Rightarrow> unit res \<times> database" where
  "settle_job wi job result d =
     (if rs_status result \<in> set delivered_statuses then complete (ci_message_record_id job) d
      else fail (wi_now wi 4) (ci_message_record_id job)
        (if truthy (rs_error_code result) then or_empty (rs_error_code result) else lit ''delivery_failed'') False d)"

definition failure_code :: "ucd \<Rightarrow> exn \<Rightarrow> pystr" where
  "failure_code u e = (if e = ConversationBusyError then lit ''conversation_busy''
     else take 100 (casefold u (exn_class_name e)))"

definition process_job ::
  "'s worker \<Rightarrow> worker_inputs \<Rightarrow> claimed_inbound \<Rightarrow> 's worker_state \<Rightarrow> unit res \<times> 's worker_state" where
  "process_job wk wi job s =
     (case deliver_reply wk wi job s of
        (Inl e, s1) \<Rightarrow> (Inl e, s1)
      | (Inr result, s1) \<Rightarrow>
        (case settle_job wi job result (wi_others wi 2 (wk_db s1)) of (r, d) \<Rightarrow> (r, with_db d s1)))"

definition process_once ::
  "'s worker \<Rightarrow> worker_inputs \<Rightarrow> 's worker_state \<Rightarrow> bool res \<times> 's worker_state" where
  "process_once wk wi s =
     (case claim_next (wi_locked wi) (wi_now wi 0) (wk_claim_timeout wk) (wk_db s) of
        (Inl e, d) \<Rightarrow> (Inl e, with_db d s)
      | (Inr None, d) \<Rightarrow> (Inr False, with_db d s)
      | (Inr (Some job), d) \<Rightarrow>
        (case process_job wk wi job (with_db (wi_others wi 0 d) s) of
           (Inr _, s1) \<Rightarrow> (Inr True, s1)
         | (Inl e, s1) \<Rightarrow>
           (case fail (wi_now wi 5) (ci_message_record_id job) (failure_code (og_ucd (wk_orchestrator wk)) e)
              (ci_attempts job < wk_max_attempts wk) (wi_others wi 3 (wk_db s1)) of
              (Inl e', d2) \<Rightarrow> (Inl e', with_db d2 s1)
            | (Inr _, d2) \<Rightarrow> (Inr True, with_db d2 s1))))"

section \<open>What the worker's steps do\<close>

text \<open>
  One call of the delivery service: no key is forgotten and no message changes, the outbox grows by
  at most the request, and only with a key that was free; a result other than \<open>unknown\<close> is the state
  of the attempt on record.
\<close>

definition send_effect ::
  "delivery_request \<Rightarrow> delivery_state \<Rightarrow> delivery_result res \<Rightarrow> delivery_state \<Rightarrow> bool" where
  "send_effect req s r s' \<longleftrightarrow> claimed_keys (ds_db s) \<subseteq> claimed_keys (ds_db s')
     \<and> messages (ds_db s') = messages (ds_db s) \<and> (db_ok (ds_db s) \<longrightarrow> db_ok (ds_db s'))
     \<and> (ds_sent s' = ds_sent s
        \<or> ds_sent s' = ds_sent s @ [req] \<and> dr_idempotency_key req \<notin> claimed_keys (ds_db s)
          \<and> dr_idempotency_key req \<in> claimed_keys (ds_db s'))
     \<and> (\<forall>result. r = Inr result \<longrightarrow> rs_status result \<noteq> UNKNOWN \<longrightarrow>
         (\<exists>a \<in> set (attempts (ds_db s')). at_idempotency_key a = dr_idempotency_key req
           \<and> at_status a = attempt_of_status (rs_status result)))"

lemma send_effect_replay:
  assumes "send el t1 t2 aid eid adapter cid req s = (r, s')"
    and cl: "claim t1 aid cid req (ds_db s) = (c, d1)" and "\<nexists>k. c = Inr k \<and> dc_created k"
  shows "send_effect req s r s'"
proof -
  from claim_unchanged [OF cl assms(3)] have d1: "d1 = ds_db s" .
  show ?thesis
  proof (cases c)
    case (Inl e)
    with assms(1) cl d1 show ?thesis by (auto simp: send_def send_effect_def)
  next
    case (Inr k)
    with assms(3) have k: "\<not> dc_created k" by simp
    from Delivery.claim_replayed(2) [OF cl [unfolded Inr] k] obtain a where a: "a \<in> set (attempts (ds_db s))"
      "at_idempotency_key a = dr_idempotency_key req" "snapshot a = Inr (dc_attempt k)" by blast
    have st: "at_status a = attempt_of_status (rs_status result)"
      if "existing_result (dc_attempt k) = Inr result" "rs_status result \<noteq> UNKNOWN" for result
      using that a(3) by (cases "at_status a") (auto simp: existing_result_def snapshot_def)
    have "ds_db s' = ds_db s \<and> ds_sent s' = ds_sent s
        \<and> (\<forall>result. r = Inr result \<longrightarrow> existing_result (dc_attempt k) = Inr result)"
      using assms(1) cl d1 Inr k by (auto simp: send_def split: sum.splits)
    with a(1,2) st show ?thesis by (auto simp: send_effect_def)
  qed
qed

lemma finalize_effect:
  assumes "finalize now eid aid result d = (f, d')" and "a \<in> set (attempts d)" "is_pending_attempt aid a"
  shows "claimed_keys d' = claimed_keys d" and "messages d' = messages d"
    and "f = Inr u \<Longrightarrow> \<exists>b \<in> set (attempts d'). at_idempotency_key b = at_idempotency_key a
      \<and> at_status b = attempt_of_status (rs_status result)"
proof -
  show "claimed_keys d' = claimed_keys d" using finalize_keys [OF assms(1)] by metis
  show "messages d' = messages d"
  proof (cases f)
    case (Inr u)
    from assms(1) [unfolded Inr] show ?thesis by (rule finalize_Inr) simp
  qed (use assms(1) finalize_raised in blast)
  assume "f = Inr u"
  from assms(1) [unfolded this] have "attempts d' = update_where (is_pending_attempt aid) (finalized now result) (attempts d)"
    by (rule finalize_Inr) simp
  with updated_in [OF assms(2), of "is_pending_attempt aid" "finalized now result"] assms(3)
  have "finalized now result a \<in> set (attempts d')" by simp
  then show "\<exists>b \<in> set (attempts d'). at_idempotency_key b = at_idempotency_key a
      \<and> at_status b = attempt_of_status (rs_status result)"
    by (intro bexI [of _ "finalized now result a"]) (simp_all add: finalized_def)
qed

lemma send_effect_new:
  assumes "send el t1 t2 aid eid adapter cid req s = (r, s')"
    and cl: "claim t1 aid cid req (ds_db s) = (Inr k, d1)" and k: "dc_created k"
  shows "send_effect req s r s'"
proof -
  note new = claim_created [OF cl k]
  note ok1 = claim_db_ok [OF _ cl]
  let ?row = "new_attempt t1 aid cid req"
  have row: "?row \<in> set (attempts d1)" "at_idempotency_key ?row = dr_idempotency_key req" "is_pending_attempt aid ?row"
    by (simp_all add: new(3) new_attempt_def is_pending_attempt_def)
  have d1: "claimed_keys d1 = insert (dr_idempotency_key req) (claimed_keys (ds_db s))" "messages d1 = messages (ds_db s)"
    by (auto simp: new(3) new_attempt_def)
  show ?thesis
  proof (cases "adapter req")
    case (Inl e)
    then have "s' = s\<lparr>ds_db := d1, ds_sent := ds_sent s @ [req]\<rparr>" "r = Inl e"
      using assms(1) cl k by (simp_all add: send_def)
    with new(1) d1 ok1 show ?thesis unfolding send_effect_def by simp blast
  next
    case (Inr result)
    obtain f d2 where f: "finalize t2 eid aid result d1 = (f, d2)" by fastforce
    have s': "ds_db s' = d2" "ds_sent s' = ds_sent s @ [req]" "\<And>x. r = Inr x \<Longrightarrow> x = result \<and> (\<exists>u. f = Inr u)"
      using assms(1) cl k new(2) Inr f by (auto simp: send_def Let_def split: sum.splits)
    note fin = finalize_effect [OF f row(1,3)]
    from fin(3) s'(3) row(2) have "\<forall>x. r = Inr x \<longrightarrow> (\<exists>b \<in> set (attempts d2).
        at_idempotency_key b = dr_idempotency_key req \<and> at_status b = attempt_of_status (rs_status x))" by metis
    with new(1) finalize_db_ok [OF ok1 f] show ?thesis
      unfolding send_effect_def s'(1,2) fin(1,2) d1 by (simp add: subset_insertI)
  qed
qed

lemma send_effects:
  assumes "send el t1 t2 aid eid adapter cid req s = (r, s')"
  shows "send_effect req s r s'"
proof -
  obtain c d1 where "claim t1 aid cid req (ds_db s) = (c, d1)" by fastforce
  with assms send_effect_new send_effect_replay show ?thesis by metis
qed

section \<open>At most one reply per message\<close>

definition keeps_keys :: "'s runtime \<Rightarrow> 's runtime \<Rightarrow> bool" where
  "keeps_keys w w1 \<longleftrightarrow> claimed_keys (rt_db w) \<subseteq> claimed_keys (rt_db w1)"

interpretation keys: call_frame keeps_keys
proof unfold_locales
  fix now mid cid reply tid ext y d and w :: "'s runtime"
  assume "record_outbound now mid cid reply tid ext (rt_db w) = (Inr y, d)"
  from record_outbound_Inr [OF this] show "keeps_keys w (w\<lparr>rt_db := d\<rparr>)"
    by (simp add: keeps_keys_def split: if_splits)
qed (auto simp: keeps_keys_def transp_def dest: request_handoff_quiet)

text \<open>Other processes do not delete delivery attempts.\<close>

definition patient :: "worker_inputs \<Rightarrow> bool" where
  "patient wi \<longleftrightarrow> (\<forall>n d. claimed_keys d \<subseteq> claimed_keys (wi_others wi n d)
     \<and> claimed_keys d \<subseteq> claimed_keys (ip_between (wi_reply wi) n d))"

lemma patientD:
  assumes "patient wi"
  shows "claimed_keys d \<subseteq> claimed_keys (wi_others wi n d)"
    "always keeps_keys (elsewhere (ip_between (wi_reply wi) n))"
  using assms by (simp_all add: patient_def always_def elsewhere_def keeps_keys_def)

definition is_reply :: "delivery_request \<Rightarrow> bool" where
  "is_reply req \<longleftrightarrow> valid_delivery_request req \<and> dr_kind req = DK_TEXT
     \<and> (\<exists>message_id. dr_idempotency_key req = lit ''reply:'' @ message_id)"

definition outbox :: "'s worker_state \<Rightarrow> bool" where
  "outbox s \<longleftrightarrow> distinct (map dr_idempotency_key (wk_sent s))
     \<and> dr_idempotency_key ` set (wk_sent s) \<subseteq> claimed_keys (wk_db s) \<and> (\<forall>req \<in> set (wk_sent s). is_reply req)"

lemma outbox_grows:
  assumes "outbox s" "claimed_keys (wk_db s) \<subseteq> claimed_keys (rt_db w)"
  shows "outbox (s\<lparr>wk_rt := w\<rparr>)"
  using assms by (simp add: outbox_def) (blast intro: subset_trans)

lemma worker_send_outbox:
  assumes "worker_send wk wi cid req s = (r, s')" "outbox s" "is_reply req"
  shows "outbox s'"
proof -
  let ?s = "\<lparr>ds_db = wk_db s, ds_log = rt_log (wk_rt s), ds_sent = wk_sent s\<rparr>"
  from assms(1) obtain t where t: "send (og_el (wk_orchestrator wk)) (wi_now wi 2) (wi_now wi 3) (wi_attempt_id wi)
      (wi_event_id wi) (wk_adapter wk) cid req ?s = (r, t)"
    "wk_db s' = ds_db t" "wk_sent s' = ds_sent t"
    by (auto simp: worker_send_def split: prod.splits)
  note eff = send_effects [OF t(1), unfolded send_effect_def, simplified]
  from eff have "ds_sent t = wk_sent s \<or> ds_sent t = wk_sent s @ [req]
      \<and> dr_idempotency_key req \<notin> claimed_keys (wk_db s) \<and> dr_idempotency_key req \<in> claimed_keys (ds_db t)" by auto
  moreover from eff assms(2) have "dr_idempotency_key ` set (wk_sent s) \<subseteq> claimed_keys (ds_db t)"
    by (simp add: outbox_def) (blast intro: subset_trans)
  ultimately show ?thesis using assms(2,3) t(2,3) unfolding outbox_def by (elim disjE conjE; simp) blast
qed

lemma reply_request_is_reply: "reply_request window job reply = Inr req \<Longrightarrow> is_reply req"
  by (auto simp: reply_request_def is_reply_def reply_key_def)

lemma deliver_reply_outbox:
  assumes "deliver_reply wk wi job s = (r, s')" "outbox s" "patient wi"
  shows "outbox s'"
proof -
  obtain x w1 where x: "respond_persisted (wk_orchestrator wk) (wi_reply wi) (ci_channel_account_id job)
        (ci_conversation_record_id job) (ci_message job) (wk_rt s) = (x, w1)" by fastforce
  from alwaysD [OF keys.always_respond_persisted [OF patientD(2) [OF assms(3)]] x]
  have w1: "claimed_keys (wk_db s) \<subseteq> claimed_keys (rt_db w1)" by (simp add: keeps_keys_def)
  show ?thesis
  proof (cases x)
    case (Inl e)
    with assms(1) x have "s' = s\<lparr>wk_rt := w1\<rparr>" by (simp add: deliver_reply_def)
    with outbox_grows [OF assms(2) w1] show ?thesis by simp
  next
    case (Inr reply)
    let ?s1 = "with_db (wi_others wi 1 (rt_db w1)) (s\<lparr>wk_rt := w1\<rparr>)"
    have "claimed_keys (wk_db s) \<subseteq> claimed_keys (wk_db ?s1)"
      using subset_trans [OF w1 patientD(1) [OF assms(3), of "rt_db w1" 1]] by simp
    with outbox_grows [OF assms(2), of "(wk_rt ?s1)"] have s1: "outbox ?s1" by simp
    from assms(1) x Inr consider "s' = ?s1"
      | window req where "reply_request window job reply = Inr req"
        "worker_send wk wi (ci_conversation_record_id job) req ?s1 = (r, s')"
      by (auto simp: deliver_reply_def Let_def rbind_eq_Inr split: sum.splits)
    then show ?thesis using s1 worker_send_outbox reply_request_is_reply by cases blast+
  qed
qed

lemma queue_attempts:
  shows "claim_next locked now timeout d = (r, d') \<Longrightarrow> attempts d' = attempts d"
    and "complete mid d = (u, d') \<Longrightarrow> attempts d' = attempts d"
    and "fail now mid err retry d = (u, d') \<Longrightarrow> attempts d' = attempts d"
proof -
  show "attempts d' = attempts d" if "claim_next locked now timeout d = (r, d')"
    using that by (cases "claim_next_body locked now timeout" d rule: session_cases)
      (auto simp: claim_next_def claim_next_body_def Let_def split: sum.splits option.splits)
  have "attempts d' = attempts d" if "session (transition_body mid st e av) d = (u, d')" for st e av
    using that by (cases "transition_body mid st e av" d rule: session_cases)
      (auto simp: transition_body_def split: if_splits sum.splits option.splits)
  then show "complete mid d = (u, d') \<Longrightarrow> attempts d' = attempts d"
    "fail now mid err retry d = (u, d') \<Longrightarrow> attempts d' = attempts d"
    by (simp_all add: complete_def fail_def)
qed

lemma settle_job_attempts: "settle_job wi job result d = (u, d') \<Longrightarrow> attempts d' = attempts d"
  by (auto simp: settle_job_def dest: queue_attempts(2,3) split: if_splits)

lemma process_job_outbox:
  assumes "process_job wk wi job s = (r, s')" "outbox s" "patient wi"
  shows "outbox s'"
proof -
  obtain x s1 where x: "deliver_reply wk wi job s = (x, s1)" by fastforce
  from deliver_reply_outbox [OF this assms(2,3)] have s1: "outbox s1" .
  show ?thesis
  proof (cases x)
    case (Inr result)
    obtain u d where u: "settle_job wi job result (wi_others wi 2 (wk_db s1)) = (u, d)" by fastforce
    with assms(1) x Inr have "s' = with_db d s1" by (simp add: process_job_def)
    moreover have "claimed_keys (wk_db s1) \<subseteq> claimed_keys d"
      using settle_job_attempts [OF u] patientD(1) [OF assms(3), of "wk_db s1" 2] by simp
    ultimately show ?thesis using outbox_grows [OF s1] by simp
  qed (use assms(1) x s1 in \<open>simp add: process_job_def\<close>)
qed

lemma process_once_outbox:
  assumes "process_once wk wi s = (r, s')" "outbox s" "patient wi"
  shows "outbox s'"
proof -
  obtain c d where c: "claim_next (wi_locked wi) (wi_now wi 0) (wk_claim_timeout wk) (wk_db s) = (c, d)" by fastforce
  have d: "claimed_keys d = claimed_keys (wk_db s)" using queue_attempts(1) [OF c] by simp
  have s0: "outbox (with_db d s)" using outbox_grows [OF assms(2)] d by simp
  show ?thesis
  proof (cases "\<exists>job. c = Inr (Some job)")
    case True
    then obtain job where job: "c = Inr (Some job)" ..
    obtain x s1 where x: "process_job wk wi job (with_db (wi_others wi 0 d) s) = (x, s1)" by fastforce
    have "outbox (with_db (wi_others wi 0 d) s)" 
      using outbox_grows [OF assms(2)] patientD(1) [OF assms(3), of d 0] d by simp
    from process_job_outbox [OF x this assms(3)] have s1: "outbox s1" .
    show ?thesis
    proof (cases x)
      case (Inl e)
      obtain u d2 where u: "fail (wi_now wi 5) (ci_message_record_id job) (failure_code (og_ucd (wk_orchestrator wk)) e)
          (ci_attempts job < wk_max_attempts wk) (wi_others wi 3 (wk_db s1)) = (u, d2)" by fastforce
      with assms(1) c job x Inl have "s' = with_db d2 s1" by (cases u) (simp_all add: process_once_def)
      moreover have "claimed_keys (wk_db s1) \<subseteq> claimed_keys d2"
        using queue_attempts(3) [OF u] patientD(1) [OF assms(3), of "wk_db s1" 3] by simp
      ultimately show ?thesis using outbox_grows [OF s1] by simp
    qed (use assms(1) c job x s1 in \<open>simp add: process_once_def\<close>)
  next
    case False
    with assms(1) c have "s' = with_db d s"
      by (auto simp: process_once_def split: sum.splits option.splits)
    with s0 show ?thesis by simp
  qed
qed

lemma distinct_map_filter_le_1: "distinct (map f xs) \<Longrightarrow> length (filter (\<lambda>x. f x = k) xs) \<le> 1"
proof (induction xs)
  case (Cons x xs)
  then have "filter (\<lambda>y. f y = k) xs = []" if "f x = k"
    using that by (auto simp: filter_empty_conv image_iff)
  with Cons show ?case by auto
qed simp

text \<open>
  A worker over its whole life: calls of \<open>process_once\<close> with any inputs, on any claims, and in between
  anything that other processes do to the database, to Redis and to the log.
\<close>

inductive worker_step :: "'s worker \<Rightarrow> 's worker_state \<Rightarrow> 's worker_state \<Rightarrow> bool" for wk where
  turn: "patient wi \<Longrightarrow> process_once wk wi s = (r, s') \<Longrightarrow> worker_step wk s s'"
| others: "claimed_keys (wk_db s) \<subseteq> claimed_keys (rt_db w) \<Longrightarrow> worker_step wk s (s\<lparr>wk_rt := w\<rparr>)"

lemma outbox_run: "(worker_step wk)\<^sup>*\<^sup>* s s' \<Longrightarrow> outbox s \<Longrightarrow> outbox s'"
proof (induction rule: rtranclp_induct)
  case (step y z)
  then have "outbox y" by simp
  from step.hyps(2) show ?case
  proof cases
    case (turn wi r)
    with \<open>outbox y\<close> process_once_outbox show ?thesis by blast
  next
    case (others w)
    with outbox_grows [OF \<open>outbox y\<close>] show ?thesis by simp
  qed
qed

text \<open>
  C2. A message is answered at most once. Over any number of turns of the worker, with retries, stale
  claims and failures of every kind, and whatever other processes do short of deleting delivery
  attempts, the provider is handed only valid text replies, at most one for each message.
\<close>

theorem worker_replies_once:
  assumes "(worker_step wk)\<^sup>*\<^sup>* s s'" and "wk_sent s = []"
  shows "length (filter (\<lambda>req. dr_idempotency_key req = reply_key msg) (wk_sent s')) \<le> 1
    \<and> (\<forall>req \<in> set (wk_sent s'). valid_delivery_request req \<and> dr_kind req = DK_TEXT)"
proof -
  have "outbox s'" using outbox_run [OF assms(1)] assms(2) by (simp add: outbox_def)
  then show ?thesis
    using distinct_map_filter_le_1 [of dr_idempotency_key "wk_sent s'" "reply_key msg"]
    by (simp add: outbox_def is_reply_def)
qed

section \<open>Every claimed job is settled\<close>

definition keeps_row :: "uuid \<Rightarrow> 's runtime \<Rightarrow> 's runtime \<Rightarrow> bool" where
  "keeps_row mid w w1 \<longleftrightarrow> (\<forall>m \<in> set (messages (rt_db w)). ms_id m = mid \<longrightarrow> m \<in> set (messages (rt_db w1)))"

interpretation row: call_frame "keeps_row mid" for mid
proof unfold_locales
  fix now mid' cid reply tid ext y d and w :: "'s runtime"
  assume "record_outbound now mid' cid reply tid ext (rt_db w) = (Inr y, d)"
  from record_outbound_Inr [OF this] show "keeps_row mid w (w\<lparr>rt_db := d\<rparr>)"
    by (simp add: keeps_row_def split: if_splits)
qed (auto simp: keeps_row_def transp_def dest: request_handoff_quiet)

text \<open>Other processes leave the row of a claimed job to the worker that claimed it.\<close>

definition leaves_row :: "uuid \<Rightarrow> worker_inputs \<Rightarrow> bool" where
  "leaves_row mid wi \<longleftrightarrow> (\<forall>n d. \<forall>m \<in> set (messages d). ms_id m = mid \<longrightarrow>
     m \<in> set (messages (wi_others wi n d)) \<and> m \<in> set (messages (ip_between (wi_reply wi) n d)))"

lemma leaves_rowD:
  assumes "leaves_row mid wi"
  shows "m \<in> set (messages d) \<Longrightarrow> ms_id m = mid \<Longrightarrow> m \<in> set (messages (wi_others wi n d))"
    "always (keeps_row mid) (elsewhere (ip_between (wi_reply wi) n))"
  using assms by (auto simp: leaves_row_def always_def elsewhere_def keeps_row_def)

lemma worker_send_effect:
  assumes "worker_send wk wi cid req s = (r, s')"
  shows "messages (wk_db s') = messages (wk_db s)"
    and "r = Inr result \<Longrightarrow> rs_status result \<noteq> UNKNOWN \<Longrightarrow>
      \<exists>a \<in> set (attempts (wk_db s')). at_idempotency_key a = dr_idempotency_key req
        \<and> at_status a = attempt_of_status (rs_status result)"
  using assms by (auto simp: worker_send_def split: prod.splits dest!: send_effects simp: send_effect_def)

lemma deliver_reply_effect:
  assumes "deliver_reply wk wi job s = (r, s')" "leaves_row mid wi" "m \<in> set (messages (wk_db s))" "ms_id m = mid"
  shows "m \<in> set (messages (wk_db s'))"
    and "r = Inr result \<Longrightarrow> rs_status result \<noteq> UNKNOWN \<Longrightarrow>
      \<exists>a \<in> set (attempts (wk_db s')). at_idempotency_key a = reply_key (ci_message job)
        \<and> at_status a = attempt_of_status (rs_status result)"
proof -
  obtain x w1 where x: "respond_persisted (wk_orchestrator wk) (wi_reply wi) (ci_channel_account_id job)
        (ci_conversation_record_id job) (ci_message job) (wk_rt s) = (x, w1)" by fastforce
  from alwaysD [OF row.always_respond_persisted [OF leaves_rowD(2) [OF assms(2)]] x] assms(3,4)
  have w1: "m \<in> set (messages (rt_db w1))" by (simp add: keeps_row_def)
  let ?s1 = "with_db (wi_others wi 1 (rt_db w1)) (s\<lparr>wk_rt := w1\<rparr>)"
  have s1: "m \<in> set (messages (wk_db ?s1))" using leaves_rowD(1) [OF assms(2) w1 assms(4)] by simp
  from assms(1) x consider e where "s' = s\<lparr>wk_rt := w1\<rparr>" "r = Inl e" | e where "s' = ?s1" "r = Inl e"
    | reply window req where "reply_request window job reply = Inr req"
      "worker_send wk wi (ci_conversation_record_id job) req ?s1 = (r, s')"
    by (auto simp: deliver_reply_def Let_def rbind_eq_Inr split: sum.splits)
  note three = this
  from three show "m \<in> set (messages (wk_db s'))"
    using w1 s1 by cases (simp_all add: worker_send_effect(1))
  assume "r = Inr result" "rs_status result \<noteq> UNKNOWN"
  with three show "\<exists>a \<in> set (attempts (wk_db s')). at_idempotency_key a = reply_key (ci_message job)
        \<and> at_status a = attempt_of_status (rs_status result)"
    by cases (auto simp: reply_request_def dest!: worker_send_effect(2))
qed

lemma transition_row:
  assumes "session (transition_body mid st err av) d = (Inr u, d')" "m \<in> set (messages d)" "in_progress mid m"
  shows "transitioned st err av m \<in> set (messages d')"
  using transition_Inr [OF assms(1)] updated_in [OF assms(2), of "in_progress mid" "transitioned st err av"] assms(3)
  by simp

lemma settle_job_row:
  assumes "settle_job wi job result d = (r, d')" "m \<in> set (messages d)" "in_progress (ci_message_record_id job) m"
  shows "r = Inl e \<Longrightarrow> m \<in> set (messages d')"
    and "r = Inr u \<Longrightarrow> rs_status result \<in> set delivered_statuses \<Longrightarrow>
      transitioned PS_COMPLETED None None m \<in> set (messages d')"
    and "r = Inr u \<Longrightarrow> rs_status result \<notin> set delivered_statuses \<Longrightarrow>
      \<exists>err. transitioned PS_FAILED (Some err) None m \<in> set (messages d')"
  using assms transition_row [OF _ assms(2,3)]
  by (auto simp: settle_job_def complete_def fail_def dest: transition_raised split: if_splits) blast+

lemma process_job_row:
  assumes "process_job wk wi job s = (r, s')" "leaves_row (ci_message_record_id job) wi"
    "m \<in> set (messages (wk_db s))" "in_progress (ci_message_record_id job) m"
  shows "r = Inl e \<Longrightarrow> m \<in> set (messages (wk_db s'))"
    and "r = Inr u \<Longrightarrow> \<exists>result s1. deliver_reply wk wi job s = (Inr result, s1)
      \<and> (if rs_status result \<in> set delivered_statuses
         then transitioned PS_COMPLETED None None m \<in> set (messages (wk_db s'))
         else (\<exists>err. transitioned PS_FAILED (Some err) None m \<in> set (messages (wk_db s'))))"
proof -
  obtain x s1 where x: "deliver_reply wk wi job s = (x, s1)" by fastforce
  have id: "ms_id m = ci_message_record_id job" using assms(4) by (simp add: in_progress_def)
  from deliver_reply_effect(1) [OF x assms(2,3) id] have s1: "m \<in> set (messages (wk_db s1))" .
  then have m: "m \<in> set (messages (wi_others wi 2 (wk_db s1)))" by (rule leaves_rowD(1) [OF assms(2) _ id])
  have step: "\<exists>d. settle_job wi job result (wi_others wi 2 (wk_db s1)) = (r, d) \<and> wk_db s' = d" if "x = Inr result" for result
    using assms(1) x that by (auto simp: process_job_def split: prod.splits)
  show "m \<in> set (messages (wk_db s'))" if "r = Inl e"
  proof (cases x)
    case (Inr result)
    with step settle_job_row(1) [OF _ m assms(4)] that show ?thesis by blast
  qed (use assms(1) x s1 in \<open>simp add: process_job_def\<close>)
  assume r: "r = Inr u"
  with assms(1) x obtain result where result: "x = Inr result" by (cases x) (auto simp: process_job_def)
  with step settle_job_row(2,3) [OF _ m assms(4)] r have
    "if rs_status result \<in> set delivered_statuses then transitioned PS_COMPLETED None None m \<in> set (messages (wk_db s'))
     else (\<exists>err. transitioned PS_FAILED (Some err) None m \<in> set (messages (wk_db s')))" by (metis (full_types))
  with x result show "\<exists>result s1. deliver_reply wk wi job s = (Inr result, s1)
      \<and> (if rs_status result \<in> set delivered_statuses
         then transitioned PS_COMPLETED None None m \<in> set (messages (wk_db s'))
         else (\<exists>err. transitioned PS_FAILED (Some err) None m \<in> set (messages (wk_db s'))))" by blast
qed

text \<open>What a settled job looks like: how it ended, given what the delivery returned.\<close>

definition job_outcome ::
  "'s worker \<Rightarrow> worker_inputs \<Rightarrow> claimed_inbound \<Rightarrow> 's worker_state \<Rightarrow> message_row \<Rightarrow> bool" where
  "job_outcome wk wi job s m \<longleftrightarrow>
     (case ms_processing_status m of
        Some PS_COMPLETED \<Rightarrow> (\<exists>result s1. deliver_reply wk wi job s = (Inr result, s1)
          \<and> (\<exists>a \<in> set (attempts (wk_db s1)). at_idempotency_key a = reply_key (ci_message job)
              \<and> at_status a \<in> {AS_ACCEPTED, AS_SENT, AS_DELIVERED, AS_READ}))
      | Some PS_FAILED \<Rightarrow> ms_processing_error_code m \<noteq> None \<and> (wk_max_attempts wk \<le> ci_attempts job
          \<or> (\<exists>result s1. deliver_reply wk wi job s = (Inr result, s1) \<and> rs_status result \<in> {FAILED, UNKNOWN}))
      | Some PS_PENDING \<Rightarrow> ms_processing_error_code m \<noteq> None \<and> ci_attempts job < wk_max_attempts wk
          \<and> ms_processing_available_at m = Some (wi_now wi 5 + 1000000)
      | _ \<Rightarrow> False)"

lemma completed_outcome:
  assumes "deliver_reply wk wi job s = (Inr result, s1)" "rs_status result \<in> set delivered_statuses"
    "leaves_row (ci_message_record_id job) wi" "m \<in> set (messages (wk_db s))" "ms_id m = ci_message_record_id job"
  shows "job_outcome wk wi job s (transitioned PS_COMPLETED None None m)"
proof -
  have "rs_status result \<noteq> UNKNOWN" using assms(2) by (auto simp: delivered_statuses_def)
  from deliver_reply_effect(2) [OF assms(1,3-5) refl this] obtain a where
    "a \<in> set (attempts (wk_db s1))" "at_idempotency_key a = reply_key (ci_message job)"
    "at_status a = attempt_of_status (rs_status result)" by blast
  moreover from this(3) assms(2) have "at_status a \<in> {AS_ACCEPTED, AS_SENT, AS_DELIVERED, AS_READ}"
    by (auto simp: delivered_statuses_def)
  ultimately show ?thesis using assms(1) by (auto simp: job_outcome_def transitioned_def)
qed

lemma refused_outcome:
  assumes "deliver_reply wk wi job s = (Inr result, s1)" "rs_status result \<notin> set delivered_statuses"
  shows "job_outcome wk wi job s (transitioned PS_FAILED (Some err) None m)"
proof -
  have "rs_status result \<in> {FAILED, UNKNOWN}"
    using assms(2) by (cases "rs_status result") (auto simp: delivered_statuses_def)
  with assms(1) show ?thesis by (auto simp: job_outcome_def transitioned_def)
qed

lemma raised_outcome:
  "job_outcome wk wi job s (transitioned (if ci_attempts job < wk_max_attempts wk then PS_PENDING else PS_FAILED)
    (Some err) (if ci_attempts job < wk_max_attempts wk then Some (wi_now wi 5 + 1000000) else None) m)"
  by (auto simp: job_outcome_def transitioned_def)

lemma claim_next_row:
  assumes "claim_next locked now timeout d = (Inr (Some job), d')"
  obtains m where "m \<in> set (messages d')" "in_progress (ci_message_record_id job) m"
    "ms_id m = ci_message_record_id job" "ms_processing_attempts m = ci_attempts job"
proof -
  from assms obtain m v where m: "m \<in> set (messages d)" "claimed_message (claimed_row now m) v = Inr job"
    "d' = d\<lparr>messages := update_where (\<lambda>r. ms_id r = ms_id m) (claimed_row now) (messages d)\<rparr>"
    by (rule claim_next_Some)
  from m(2) have "ms_id (claimed_row now m) = ci_message_record_id job"
    "ms_processing_attempts (claimed_row now m) = ci_attempts job"
    by (auto simp: claimed_message_def rbind_eq_Inr split: option.splits)
  moreover from this(1) have "in_progress (ci_message_record_id job) (claimed_row now m)"
    by (simp add: in_progress_def) (simp add: claimed_row_def)
  moreover have "claimed_row now m \<in> set (messages d')"
    using updated_in [OF m(1), of "\<lambda>r. ms_id r = ms_id m" "claimed_row now"] by (simp add: m(3))
  ultimately show thesis using that by blast
qed

lemma settled_row:
  assumes "process_once wk wi s = (Inr True, s')"
    and c: "claim_next (wi_locked wi) (wi_now wi 0) (wk_claim_timeout wk) (wk_db s) = (Inr (Some job), d)"
    and own: "leaves_row (ci_message_record_id job) wi"
  shows "\<exists>m \<in> set (messages (wk_db s')). ms_id m = ci_message_record_id job
    \<and> ms_processing_attempts m = ci_attempts job \<and> job_outcome wk wi job (with_db (wi_others wi 0 d) s) m"
proof -
  let ?s0 = "with_db (wi_others wi 0 d) s"
  from c obtain m where md: "m \<in> set (messages d)" and prog: "in_progress (ci_message_record_id job) m"
    and m: "ms_id m = ci_message_record_id job" "ms_processing_attempts m = ci_attempts job"
    by (rule claim_next_row)
  from md have ms0: "m \<in> set (messages (wk_db ?s0))" using leaves_rowD(1) [OF own _ m(1)] by simp
  obtain x s1 where x: "process_job wk wi job ?s0 = (x, s1)" by fastforce
  note r = process_job_row [OF x own ms0 prog]
  have "\<exists>st err av. transitioned st err av m \<in> set (messages (wk_db s')) \<and> job_outcome wk wi job ?s0 (transitioned st err av m)"
  proof (cases x)
    case (Inl e)
    then have "m \<in> set (messages (wi_others wi 3 (wk_db s1)))" using r(1) leaves_rowD(1) [OF own _ m(1)] by blast
    moreover from assms(1) c x Inl have "fail (wi_now wi 5) (ci_message_record_id job)
        (failure_code (og_ucd (wk_orchestrator wk)) e) (ci_attempts job < wk_max_attempts wk) (wi_others wi 3 (wk_db s1))
        = (Inr (), wk_db s')"
      by (auto simp: process_once_def split: prod.splits sum.splits)
    ultimately show ?thesis using transition_row [OF _ _ prog] raised_outcome unfolding fail_def by blast
  next
    case (Inr u)
    then have "wk_db s' = wk_db s1" using assms(1) c x by (simp add: process_once_def)
    with r(2) [OF Inr] completed_outcome [OF _ _ own ms0 m(1)] refused_outcome show ?thesis
      by (metis (full_types))
  qed
  with m show ?thesis by (metis transitioned_keeps(1,5))
qed

text \<open>
  C3. A turn of the worker settles the job it claims. If \<open>process_once\<close> returns true and other
  processes leave the claimed message alone, then its row is no longer marked as being processed: it
  is completed, and then the delivery attempt for its reply was on record as accepted, sent, delivered
  or read; or it is queued again a second later, with an error and with attempts left; or it failed,
  with an error, because the provider did not take the reply or no attempt was left.
\<close>

theorem process_once_settles:
  assumes "process_once wk wi s = (Inr True, s')"
  shows "\<exists>job d. claim_next (wi_locked wi) (wi_now wi 0) (wk_claim_timeout wk) (wk_db s) = (Inr (Some job), d)
    \<and> (leaves_row (ci_message_record_id job) wi \<longrightarrow>
        (\<exists>m \<in> set (messages (wk_db s')). ms_id m = ci_message_record_id job
          \<and> ms_processing_attempts m = ci_attempts job \<and> job_outcome wk wi job (with_db (wi_others wi 0 d) s) m))"
proof -
  from assms obtain job d where c: "claim_next (wi_locked wi) (wi_now wi 0) (wk_claim_timeout wk) (wk_db s) = (Inr (Some job), d)"
    by (auto simp: process_once_def split: prod.splits sum.splits option.splits)
  with settled_row [OF assms c] show ?thesis by blast
qed

section \<open>A concrete turn\<close>

text \<open>
  A message whose reply is on record but was not delivered, as after a crash of the worker between
  the two; the provider accepts the delivery.
\<close>

definition sample_worker :: "keyspace worker" where
  "sample_worker = \<lparr>wk_orchestrator = sample_orchestrator, wk_adapter = (\<lambda>req. Inr sample_result),
     wk_claim_timeout = 300, wk_max_attempts = 3\<rparr>"

definition sample_turn :: worker_inputs where
  "sample_turn = \<lparr>wi_locked = {}, wi_now = (\<lambda>n. 100), wi_reply = sample_inputs, wi_attempt_id = 20, wi_event_id = 21,
     wi_others = (\<lambda>n d. d)\<rparr>"

definition sample_waiting :: message_row where
  "sample_waiting = inbound_row 0 0 2 5 sample_question (lit ''meta:wamid.1'') True"

definition sample_answered :: message_row where
  "sample_answered = outbound_row 10 8 5 no_tools_text (lit ''conversation:wamid.1'') (lit ''piki-reply:wamid.1'')"

definition sample_backlog :: "message_row list \<Rightarrow> database" where
  "sample_backlog rows = empty_db\<lparr>conversations := [new_conversation 0 5 (lit ''pn1'') sample_question], messages := rows\<rparr>"

definition sample_work :: "keyspace worker_state" where
  "sample_work = \<lparr>wk_rt = \<lparr>rt_db = sample_backlog [sample_waiting, sample_answered], rt_redis = fresh_keyspace [],
     rt_log = []\<rparr>, wk_sent = []\<rparr>"

definition sample_taken :: claimed_inbound where
  "sample_taken = \<lparr>ci_message_record_id = 2, ci_conversation_record_id = 5, ci_channel_account_id = lit ''pn1'',
     ci_message = sample_question, ci_attempts = 1\<rparr>"

lemma sample_backlog_ok: "db_ok (sample_backlog [claimed_row 100 sample_waiting, sample_answered])"
  by (simp add: sample_backlog_def empty_db_def db_ok_def db_unique_def db_foreign_keys_def unique_on_def
      List.map_filter_simps pk_def uq_defs sample_waiting_def sample_answered_def outbound_row_def inbound_row_def
      new_conversation_def sample_question_def sample_inbound_def)

lemma sample_take:
  "claim_next {} 100 300 (sample_backlog [sample_waiting, sample_answered])
    = (Inr (Some sample_taken), sample_backlog [claimed_row 100 sample_waiting, sample_answered])"
  by (simp add: claim_eval sample_backlog_def sample_waiting_def sample_answered_def outbound_row_def
      update_where_def sample_taken_def sample_question_def) (simp add: lit_def is_space_def)

definition sample_handed :: delivery_request where
  "sample_handed = \<lparr>dr_idempotency_key = lit ''reply:wamid.1'', dr_conversation_id = lit ''54911'',
      dr_kind = DK_TEXT, dr_text = Some no_tools_text, dr_media_url = None, dr_interactive_options = [],
      dr_template_name = None, dr_template_language = None, dr_template_parameters = [],
      dr_customer_service_window = WINDOW_OPEN, dr_trace_id = lit ''conversation:wamid.1''\<rparr>"

lemma sample_handed_request:
  "rbind (reply_window 100 (im_received_at (ci_message sample_taken)))
     (\<lambda>window. reply_request window sample_taken (sample_reply\<lparr>cy_used_fallback := False, cy_duplicate := True\<rparr>))
   = Inr sample_handed"
proof -
  have "length no_tools_text \<le> 4096" "no_tools_text \<noteq> []" by (simp_all add: no_tools_text_def)
  then show ?thesis
    by (simp add: reply_window_def reply_request_def sample_taken_def sample_question_def sample_inbound_def sample_reply_def
        reply_key_def sample_handed_def construct_def valid_defs flip: lit_append)
qed

lemma sample_handover:
  "\<exists>t. send (\<lambda>n. 0) 100 100 20 21 (\<lambda>req. Inr sample_result) 5 sample_handed
      \<lparr>ds_db = sample_backlog rows, ds_log = log, ds_sent = []\<rparr> = (Inr sample_result, t)
    \<and> messages (ds_db t) = rows \<and> ds_sent t = [sample_handed]"
  by (simp add: send_def claim_def session_def claim_body_def sample_backlog_def empty_db_def sample_handed_def new_attempt_def
      conflicts_def snapshot_def construct_def valid_defs varchar_def Let_def new_conversation_def finalize_def
      finalize_body_def sample_result_def is_pending_attempt_def add_status_event_def
      event_columns_ok_def opt_varchar_def finalized_def update_where_def emit_attempt_def emit_counts_def opt_nonneg_def)
    (simp add: lit_def)

lemma sample_turn_run:
  "\<exists>s'. process_once sample_worker sample_turn sample_work = (Inr True, s')
    \<and> messages (wk_db s') = [transitioned PS_COMPLETED None None (claimed_row 100 sample_waiting), sample_answered]
    \<and> wk_sent s' = [sample_handed]"
proof -
  let ?s0 = "with_db (sample_backlog [claimed_row 100 sample_waiting, sample_answered]) sample_work"
  have sel: "wk_orchestrator sample_worker = sample_orchestrator" "wk_adapter sample_worker = (\<lambda>req. Inr sample_result)"
    "og_el sample_orchestrator = (\<lambda>n. 0)" "wi_now sample_turn n = 100" "wi_others sample_turn n d = d"
    "wi_reply sample_turn = sample_inputs" "wi_attempt_id sample_turn = 20" "wi_event_id sample_turn = 21"
    "wi_locked sample_turn = {}" "wk_claim_timeout sample_worker = 300" for n d
    by (simp_all add: sample_worker_def sample_turn_def sample_orchestrator_def)
  have job: "ci_channel_account_id sample_taken = lit ''pn1''" "ci_conversation_record_id sample_taken = 5"
    "ci_message sample_taken = sample_question" "ci_message_record_id sample_taken = 2"
    by (simp_all add: sample_taken_def)
  have "outbound_row 10 8 5 no_tools_text (lit ''conversation:wamid.1'') (lit ''piki-reply:wamid.1'')
      \<in> set (messages (rt_db (wk_rt ?s0)))"
    by (simp add: sample_backlog_def sample_answered_def)
  then obtain w1 where w1: "respond_persisted sample_orchestrator sample_inputs (lit ''pn1'') 5 sample_question (wk_rt ?s0)
      = (Inr (sample_reply\<lparr>cy_used_fallback := False, cy_duplicate := True\<rparr>), w1)" "rt_db w1 = rt_db (wk_rt ?s0)"
    using sample_second_call [of "wk_rt ?s0"] sample_backlog_ok by (auto simp: sample_work_def)
  obtain t where t: "send (\<lambda>n. 0) 100 100 20 21 (\<lambda>req. Inr sample_result) 5 sample_handed
      \<lparr>ds_db = rt_db w1, ds_log = rt_log w1, ds_sent = []\<rparr> = (Inr sample_result, t)"
    "messages (ds_db t) = [claimed_row 100 sample_waiting, sample_answered]" "ds_sent t = [sample_handed]"
    using sample_handover [of "[claimed_row 100 sample_waiting, sample_answered]" "rt_log w1"] w1(2) by auto
  define s1 where "s1 = ?s0\<lparr>wk_rt := w1\<lparr>rt_db := ds_db t, rt_log := ds_log t\<rparr>, wk_sent := [sample_handed]\<rparr>"
  have d: "deliver_reply sample_worker sample_turn sample_taken ?s0 = (Inr sample_result, s1)"
    using sample_handed_request t w1(1)
    by (simp add: deliver_reply_def sel job worker_send_def s1_def sample_work_def)
  have c: "settle_job sample_turn sample_taken sample_result (ds_db t) = (Inr (),
      (ds_db t)\<lparr>messages := [transitioned PS_COMPLETED None None (claimed_row 100 sample_waiting), sample_answered]\<rparr>)"
    by (simp add: settle_job_def sample_result_def delivered_statuses_def complete_def session_def transition_body_def
        t(2) job opt_varchar_def in_progress_def update_where_def)
      (simp add: sample_waiting_def sample_answered_def inbound_row_def outbound_row_def claimed_row_def)
  show ?thesis
    using d c sample_take
    by (simp add: process_once_def sel process_job_def s1_def sample_work_def)
qed

theorem worker_replies_once_witness:
  "\<exists>s'. (worker_step sample_worker)\<^sup>*\<^sup>* sample_work s' \<and> wk_sent s' = [sample_handed]
    \<and> length (filter (\<lambda>req. dr_idempotency_key req = reply_key sample_question) (wk_sent s')) \<le> 1
    \<and> valid_delivery_request sample_handed"
proof -
  from sample_turn_run obtain s' where s': "process_once sample_worker sample_turn sample_work = (Inr True, s')"
    "wk_sent s' = [sample_handed]" by blast
  have "patient sample_turn" by (simp add: patient_def sample_turn_def sample_inputs_def)
  from worker_step.turn [OF this s'(1)] have "(worker_step sample_worker)\<^sup>*\<^sup>* sample_work s'" by blast
  with worker_replies_once [OF this, of sample_question] s'(2) show ?thesis by (auto simp: sample_work_def)
qed

theorem process_once_settles_witness:
  "\<exists>s'. process_once sample_worker sample_turn sample_work = (Inr True, s')
    \<and> (\<exists>m \<in> set (messages (wk_db s')). ms_id m = 2 \<and> ms_processing_attempts m = 1
        \<and> job_outcome sample_worker sample_turn sample_taken
            (with_db (sample_backlog [claimed_row 100 sample_waiting, sample_answered]) sample_work) m)"
proof -
  from sample_turn_run obtain s' where s': "process_once sample_worker sample_turn sample_work = (Inr True, s')" by blast
  have "leaves_row 2 sample_turn" by (simp add: leaves_row_def sample_turn_def sample_inputs_def)
  with process_once_settles [OF s'] sample_take s' show ?thesis
    by (simp add: sample_turn_def sample_worker_def sample_work_def) (simp add: sample_taken_def)
qed

end
