(* ===== verification/Api.thy ===== *)
theory Api
  imports Config Conversation_Service Meta_Ingress
begin

text \<open>
  The HTTP interface, \<open>src/src/piki/api/\<close>: the Meta webhook, the local chat, the health probes and the
  application that mounts them. FastAPI routes a request to a handler and turns an \<open>HTTPException\<close>
  into its status code; a body or parameter that its model rejects is answered with 422. Any other
  exception of a handler is a 500. The ingress is an argument of the webhook, as in the source, where
  it is a protocol; \<open>mac\<close> is the keyed digest, \<open>loads\<close> is \<open>json.loads\<close> and \<open>payload_of\<close> the
  validation of the payload model, which \<open>Meta_Payload\<close> defines.
\<close>

section \<open>Meta webhook\<close>

type_synonym 's ingress = "webhook_events \<Rightarrow> 's \<Rightarrow> webhook_ingest_result res \<times> 's"

record webhook_config =
  wc_verify_token :: "pystr option"
  wc_app_secret :: "pystr option"
  wc_expected_waba_id :: "pystr option"
  wc_expected_phone_number_id :: "pystr option"

datatype loaded = Loaded json | Json_Decode_Error | Load_Raised exn

definition challenge :: "webhook_config \<Rightarrow> pystr option \<Rightarrow> pystr option \<Rightarrow> pystr option \<Rightarrow> pystr res" where
  "challenge cfg mode provided_token challenge_value =
     (case wc_verify_token cfg of
        None \<Rightarrow> Inl (HTTPException 503)
      | Some expected_token \<Rightarrow>
        (case challenge_value of
           None \<Rightarrow> Inl (HTTPException 403)
         | Some content \<Rightarrow> rbind (verify_challenge mode provided_token expected_token) (\<lambda>ok.
             if ok then Inr content else Inl (HTTPException 403))))"

definition webhook_events_of ::
  "(nat list \<Rightarrow> loaded) \<Rightarrow> (json \<Rightarrow> meta_entry list option) \<Rightarrow> ucd \<Rightarrow> webhook_config \<Rightarrow> nat list \<Rightarrow> webhook_events res" where
  "webhook_events_of loads payload_of u cfg raw_body =
     (case (case loads raw_body of
              Json_Decode_Error \<Rightarrow> Inl (HTTPException 400)
            | Load_Raised e \<Rightarrow> Inl e
            | Loaded payload \<Rightarrow>
                if \<not> is_object payload then Inl MetaWebhookError
                else normalize_webhook u (payload_of payload) (wc_expected_waba_id cfg) (wc_expected_phone_number_id cfg)) of
        Inl e \<Rightarrow> Inl (if e = MetaWebhookError then HTTPException 400 else e)
      | Inr events \<Rightarrow> Inr events)"

definition receive ::
  "(pystr \<Rightarrow> nat list \<Rightarrow> pystr) \<Rightarrow> (nat list \<Rightarrow> loaded) \<Rightarrow> (json \<Rightarrow> meta_entry list option) \<Rightarrow> ucd \<Rightarrow> webhook_config
    \<Rightarrow> 's ingress option \<Rightarrow> pystr option \<Rightarrow> nat list \<Rightarrow> 's \<Rightarrow> webhook_ingest_result res \<times> 's" where
  "receive mac loads payload_of u cfg ingress signature raw_body s =
     (case (wc_app_secret cfg, ingress) of
        (Some app_secret, Some ingest_events) \<Rightarrow>
          (case verify_signature mac raw_body signature app_secret of
             Inl e \<Rightarrow> (Inl e, s)
           | Inr False \<Rightarrow> (Inl (HTTPException 401), s)
           | Inr True \<Rightarrow>
             (case webhook_events_of loads payload_of u cfg raw_body of
                Inl e \<Rightarrow> (Inl e, s)
              | Inr events \<Rightarrow>
                (case ingest_events events s of
                   (Inl e, s1) \<Rightarrow> (Inl (if e = MetaIngressRetryableError then HTTPException 503 else e), s1)
                 | (Inr result, s1) \<Rightarrow> (Inr result, s1))))
      | _ \<Rightarrow> (Inl (HTTPException 503), s))"

section \<open>Local chat\<close>

record chat_message_request =
  cq_conversation_id :: pystr
  cq_message :: pystr
  cq_message_id :: "pystr option"

definition valid_chat_message_request :: "chat_message_request \<Rightarrow> bool" where
  [valid_defs]: "valid_chat_message_request r \<longleftrightarrow> len_between 1 255 (cq_conversation_id r)
     \<and> len_between 1 4096 (cq_message r) \<and> opt_len 1 255 (cq_message_id r)"

record chat_runtime_status =
  cs_enabled :: bool
  cs_llm_provider :: "pystr option"
  cs_llm_model :: "pystr option"
  cs_buenpick_api_configured :: bool
  cs_meta_ingress_enabled :: bool

record chat_history_message =
  ch_role :: turn_role
  ch_text :: pystr
  ch_created_at :: micros

definition valid_chat_history_message :: "chat_history_message \<Rightarrow> bool" where
  [valid_defs]: "valid_chat_history_message m \<longleftrightarrow> len_between 1 4096 (ch_text m)"

definition console_account :: pystr where
  "console_account = lit ''piki-local-console''"

definition runtime_status :: "files \<Rightarrow> settings \<Rightarrow> 's orchestrator option \<Rightarrow> chat_runtime_status res" where
  "runtime_status read s og =
     rbind (resolved_buenpick_internal_api_token read s) (\<lambda>token.
       Inr \<lparr>cs_enabled = (og \<noteq> None), cs_llm_provider = cf_llm_provider s, cs_llm_model = cf_llm_model s,
            cs_buenpick_api_configured = (token \<noteq> None), cs_meta_ingress_enabled = cf_meta_ingress_enabled s\<rparr>)"

definition chat_inbound :: "pystr \<Rightarrow> micros \<Rightarrow> chat_message_request \<Rightarrow> inbound_message res" where
  "chat_inbound new_uuid now r = construct valid_inbound_message
     \<lparr>im_message_id = (if truthy (cq_message_id r) then or_empty (cq_message_id r) else lit ''web-'' @ new_uuid),
      im_channel = WEB, im_conversation_id = cq_conversation_id r, im_sender_id = cq_conversation_id r,
      im_kind = MK_TEXT, im_text = Some (cq_message r), im_received_at = Aware now, im_metadata = []\<rparr>"

definition send_message ::
  "'s orchestrator option \<Rightarrow> inputs \<Rightarrow> pystr \<Rightarrow> micros \<Rightarrow> chat_message_request \<Rightarrow> ('s, conversation_reply) task" where
  "send_message og ip new_uuid now r w =
     (if \<not> valid_chat_message_request r then (Inl (HTTPException 422), w)
      else case og of
        None \<Rightarrow> (Inl (HTTPException 503), w)
      | Some orch \<Rightarrow>
        (case chat_inbound new_uuid now r of
           Inl e \<Rightarrow> (Inl e, w)
         | Inr inbound \<Rightarrow>
           (case orchestrator_respond orch ip console_account inbound w of
              (Inl e, w1) \<Rightarrow> (Inl (if e = ConversationBusyError then HTTPException 409 else e), w1)
            | (Inr reply, w1) \<Rightarrow> (Inr reply, w1))))"

definition history_message :: "stored_message \<Rightarrow> chat_history_message res" where
  "history_message item = construct valid_chat_history_message
     \<lparr>ch_role = (if sm_direction item = OUTBOUND then TURN_ASSISTANT else TURN_USER),
      ch_text = or_empty (sm_content_text item), ch_created_at = sm_created_at item\<rparr>"

definition chat_history :: "'s orchestrator option \<Rightarrow> pystr \<Rightarrow> ('s, chat_history_message list) task" where
  "chat_history og conversation_id =
     (case og of
        None \<Rightarrow> slift (Inl (HTTPException 503))
      | Some orch \<Rightarrow> sbind (conversation_history WEB console_account conversation_id) (\<lambda>history.
          slift (map_res history_message (filter (\<lambda>item. truthy (sm_content_text item)) history))))"

section \<open>Health\<close>

datatype health_status = HEALTH_OK | HEALTH_DEGRADED

record probe_result =
  pb_status :: health_status
  pb_detail :: pystr

record health_report =
  hp_status :: health_status
  hp_service :: pystr
  hp_version :: pystr
  hp_checks :: "(pystr \<times> probe_result) list"

text \<open>The outcome of an operation under \<open>asyncio.timeout\<close>: it returned, or it raised, a timeout included.\<close>

definition probe :: "pystr \<Rightarrow> unit res \<Rightarrow> pystr \<times> probe_result" where
  "probe name operation =
     (case operation of
        Inr _ \<Rightarrow> (name, \<lparr>pb_status = HEALTH_OK, pb_detail = lit ''reachable''\<rparr>)
      | Inl _ \<Rightarrow> (name, \<lparr>pb_status = HEALTH_DEGRADED, pb_detail = lit ''unreachable''\<rparr>))"

definition check_health :: "pystr \<Rightarrow> pystr \<Rightarrow> unit res \<Rightarrow> unit res \<Rightarrow> health_report" where
  "check_health service version database_ping redis_ping =
     (let checks = [probe (lit ''postgres'') database_ping, probe (lit ''redis'') redis_ping]
      in \<lparr>hp_status = (if list_all (\<lambda>c. pb_status (snd c) = HEALTH_OK) checks then HEALTH_OK else HEALTH_DEGRADED),
          hp_service = service, hp_version = version, hp_checks = checks\<rparr>)"

definition live :: "settings \<Rightarrow> health_report" where
  "live s = \<lparr>hp_status = HEALTH_OK, hp_service = cf_app_name s, hp_version = cf_app_version s,
     hp_checks = [(lit ''process'', \<lparr>pb_status = HEALTH_OK, pb_detail = lit ''running''\<rparr>)]\<rparr>"

text \<open>The status code and the report.\<close>

definition ready :: "health_report \<Rightarrow> nat \<times> health_report" where
  "ready report = (if hp_status report = HEALTH_DEGRADED then 503 else 200, report)"

section \<open>Only Meta gets in\<close>

lemma webhook_events_errors:
  assumes "webhook_events_of loads payload_of u cfg raw_body = Inl e"
  shows "e = HTTPException 400 \<or> e = OverflowError \<or> loads raw_body = Load_Raised e"
  using assms by (auto simp: webhook_events_of_def split: loaded.splits sum.splits if_splits dest: normalize_webhook_raises)

lemma receive_accepts:
  assumes "receive mac loads payload_of u cfg ingress signature raw_body s = (r, s')"
    and "s' \<noteq> s \<or> (\<exists>result. r = Inr result)"
  obtains app_secret ingest_events events where "wc_app_secret cfg = Some app_secret" "ingress = Some ingest_events"
    "verify_signature mac raw_body signature app_secret = Inr True"
    "webhook_events_of loads payload_of u cfg raw_body = Inr events" "s' = snd (ingest_events events s)"
    "\<forall>result. r = Inr result \<longleftrightarrow> fst (ingest_events events s) = Inr result"
proof -
  from assms obtain app_secret ingest_events where c: "wc_app_secret cfg = Some app_secret" "ingress = Some ingest_events"
    by (auto simp: receive_def split: option.splits)
  with assms have v: "verify_signature mac raw_body signature app_secret = Inr True"
    by (auto simp: receive_def split: sum.splits bool.splits)
  with assms c obtain events where ev: "webhook_events_of loads payload_of u cfg raw_body = Inr events"
    by (auto simp: receive_def split: sum.splits)
  obtain x s1 where x: "ingest_events events s = (x, s1)" by fastforce
  from assms(1) c v ev x have "s' = s1 \<and> (\<forall>result. r = Inr result \<longleftrightarrow> x = Inr result)"
    by (cases x) (auto simp: receive_def)
  with that [OF c v ev] x show thesis by simp
qed

lemma receive_raises:
  assumes "receive mac loads payload_of u cfg ingress signature raw_body s = (Inl e, s')"
  shows "e \<in> {HTTPException 400, HTTPException 401, HTTPException 503} \<or> e = TypeError \<or> e = OverflowError
    \<or> loads raw_body = Load_Raised e \<or> (\<exists>ingest_events events. ingress = Some ingest_events \<and> fst (ingest_events events s) = Inl e)"
proof (cases "wc_app_secret cfg = None \<or> ingress = None")
  case True
  with assms show ?thesis by (auto simp: receive_def split: option.splits)
next
  case False
  then obtain app_secret ingest_events where c: "wc_app_secret cfg = Some app_secret" "ingress = Some ingest_events" by auto
  consider e' where "verify_signature mac raw_body signature app_secret = Inl e'"
    | "verify_signature mac raw_body signature app_secret = Inr False"
    | "verify_signature mac raw_body signature app_secret = Inr True"
    by (cases "verify_signature mac raw_body signature app_secret") auto
  then show ?thesis
  proof cases
    case (1 e')
    then have "e' = TypeError" by (rule verify_signature_raises)
    with 1 assms c show ?thesis by (simp add: receive_def)
  next
    case 2
    with assms c show ?thesis by (simp add: receive_def)
  next
    case 3
    show ?thesis
    proof (cases "webhook_events_of loads payload_of u cfg raw_body")
      case (Inl e1)
      with webhook_events_errors [OF Inl] 3 assms c show ?thesis by (auto simp: receive_def)
    next
      case (Inr events)
      obtain x s1 where x: "ingest_events events s = (x, s1)" by fastforce
      with assms c 3 Inr obtain e1 where "x = Inl e1" "e = (if e1 = MetaIngressRetryableError then HTTPException 503 else e1)"
        by (cases x) (auto simp: receive_def)
      with x c show ?thesis by (auto split: if_splits) (metis fst_conv)
    qed
  qed
qed


section \<open>The application\<close>

text \<open>
  \<open>create_app\<close> with nothing injected but, possibly, the ingress and the orchestrator (\<open>given\<close>): what is
  built, which routes are mounted and what the webhook is configured with.
\<close>

record app =
  ap_docs_url :: "pystr option"
  ap_routes :: "pystr list"
  ap_webhook :: webhook_config
  ap_ingress :: bool
  ap_owned_ingress :: "(int \<times> int) option"
  ap_orchestrator :: bool
  ap_owned_orchestrator :: "orchestrator_parts option"

definition webhook_routes :: "pystr list" where
  "webhook_routes = [lit ''GET /webhooks/meta/whatsapp'', lit ''POST /webhooks/meta/whatsapp'']"

definition chat_routes :: "pystr list" where
  "chat_routes = [lit ''GET /api/chat/status'', lit ''POST /api/chat/messages'',
     lit ''GET /api/chat/conversations/{conversation_id}/messages'']"

definition console_routes :: "pystr list" where
  "console_routes = [lit ''GET /'', lit ''GET /console'', lit ''GET /console/assets/app.css'', lit ''GET /console/assets/app.js'']"

definition health_routes :: "pystr list" where
  "health_routes = [lit ''GET /health/live'', lit ''GET /health'', lit ''GET /health/ready'']"

definition create_default_meta_ingress :: "files \<Rightarrow> settings \<Rightarrow> (int \<times> int) res" where
  "create_default_meta_ingress read s = rbind (resolved_database_url read s) (\<lambda>url. create_redis_coordination s)"

definition create_app ::
  "(pystr \<Rightarrow> pystr option) \<Rightarrow> files \<Rightarrow> settings \<Rightarrow> bool \<Rightarrow> bool \<Rightarrow> app res" where
  "create_app hostname read s given_ingress given_orchestrator =
     rbind (resolved_database_url read s) (\<lambda>readiness_url.
     rbind (if cf_meta_ingress_enabled s \<and> \<not> given_ingress
            then rbind (create_default_meta_ingress read s) (\<lambda>c. Inr (Some c)) else Inr None) (\<lambda>owned_ingress.
     rbind (if cf_conversation_enabled s \<and> cf_local_console_enabled s \<and> \<not> given_orchestrator
            then rbind (create_conversation_orchestrator hostname read s) (\<lambda>parts. Inr (Some parts)) else Inr None)
       (\<lambda>owned_orchestrator.
     rbind (resolved_meta_webhook_verify_token read s) (\<lambda>verify_token.
     rbind (resolved_meta_app_secret read s) (\<lambda>app_secret.
       Inr \<lparr>ap_docs_url = (if is_production s then None else Some (lit ''/docs'')),
            ap_routes = webhook_routes @ (if cf_local_console_enabled s then chat_routes @ console_routes else []) @ health_routes,
            ap_webhook = \<lparr>wc_verify_token = verify_token, wc_app_secret = app_secret,
              wc_expected_waba_id = cf_meta_waba_id s, wc_expected_phone_number_id = cf_meta_phone_number_id s\<rparr>,
            ap_ingress = (given_ingress \<or> owned_ingress \<noteq> None), ap_owned_ingress = owned_ingress,
            ap_orchestrator = (given_orchestrator \<or> owned_orchestrator \<noteq> None),
            ap_owned_orchestrator = owned_orchestrator\<rparr>)))))"

text \<open>
  The webhook of a mounted application never answers that it is not ready when the configuration
  enables it, and checks the account and the phone number.
\<close>

lemma app_webhook_ready:
  assumes "load_settings read raw = Inr s" "create_app hostname read s gi go = Inr app" "cf_meta_ingress_enabled s"
  shows "ap_ingress app \<and> (\<exists>secret token waba phone. ap_webhook app = \<lparr>wc_verify_token = Some token,
    wc_app_secret = Some secret, wc_expected_waba_id = Some waba, wc_expected_phone_number_id = Some phone\<rparr>
    \<and> strip secret \<noteq> [] \<and> strip token \<noteq> [])"
proof -
  from ingress_starts [OF assms(1,3)] obtain secret token waba phone where p:
    "resolved_meta_app_secret read s = Inr (Some secret)" "strip secret \<noteq> []"
    "resolved_meta_webhook_verify_token read s = Inr (Some token)" "strip token \<noteq> []"
    "cf_meta_waba_id s = Some waba" "cf_meta_phone_number_id s = Some phone" by blast
  with assms(2,3) show ?thesis
    by (auto simp: create_app_def rbind_eq_Inr split: if_splits)
qed

text \<open>Without the local console, no chat is mounted and no orchestrator is built; production has no docs page.\<close>

lemma app_exposure:
  assumes "create_app hostname read s gi go = Inr app"
  shows "\<not> cf_local_console_enabled s \<Longrightarrow> ap_routes app = webhook_routes @ health_routes \<and> ap_owned_orchestrator app = None"
    and "cf_environment s = PRODUCTION \<Longrightarrow> ap_docs_url app = None"
  using assms by (auto simp: create_app_def is_production_def rbind_eq_Inr split: if_splits)

lemma ready_iff: "fst (ready (check_health service version db redis)) = 200 \<longleftrightarrow> (\<exists>u v. db = Inr u \<and> redis = Inr v)"
  by (cases db; cases redis) (simp_all add: ready_def check_health_def probe_def)

text \<open>The chat handler's own answers; anything else is an exception of the orchestrator or of the contract.\<close>

lemma send_message_raises:
  assumes "send_message og ip new_uuid now r w = (Inl e, w1)"
  shows "e = HTTPException 422 \<and> \<not> valid_chat_message_request r \<or> e = HTTPException 503 \<and> og = None
    \<or> (\<exists>orch. og = Some orch \<and> (e = ValidationError \<and> w1 = w
        \<or> (\<exists>msg e'. chat_inbound new_uuid now r = Inr msg \<and> orchestrator_respond orch ip console_account msg w = (Inl e', w1)
            \<and> e = (if e' = ConversationBusyError then HTTPException 409 else e'))))"
  using assms
  by (auto simp: send_message_def chat_inbound_def construct_def split: if_splits option.splits sum.splits prod.splits)

text \<open>A message of white space passes the request model and is refused by the contract: the answer is a 500.\<close>

lemma blank_chat_message:
  assumes "valid_chat_message_request r" "strip (cq_message r) = []"
  shows "send_message (Some orch) ip new_uuid now r w = (Inl ValidationError, w)"
  using assms by (simp add: send_message_def chat_inbound_def construct_def valid_inbound_message_def)

section \<open>A concrete request\<close>

definition sample_mac :: "pystr \<Rightarrow> nat list \<Rightarrow> pystr" where
  "sample_mac secret body = replicate 64 (48 + length body mod 10)"

definition sample_webhook :: webhook_config where
  "sample_webhook = \<lparr>wc_verify_token = Some (lit ''v''), wc_app_secret = Some (lit ''s''),
     wc_expected_waba_id = Some (lit ''waba''), wc_expected_phone_number_id = Some (lit ''pn1'')\<rparr>"

definition sample_recorder :: "webhook_events list ingress" where
  "sample_recorder events s = (Inr \<lparr>wi_accepted_messages = 1, wi_duplicate_messages = 0, wi_accepted_statuses = 1,
     wi_duplicate_statuses = 0, wi_ignored_statuses = 0\<rparr>, s @ [events])"

abbreviation sample_receive :: "webhook_ingest_result res \<times> webhook_events list" where
  "sample_receive \<equiv> receive sample_mac (\<lambda>body. Loaded (JObj [])) (\<lambda>payload. Some [sample_entry]) latin1 sample_webhook
     (Some sample_recorder) (Some (lit ''sha256='' @ replicate 64 50)) [123, 125] []"


end
