(* ===== verification/Resources.thy ===== *)
theory Resources
  imports Api "HOL-Library.Multiset"
begin

text \<open>
  Connections and who closes them. A database owns a SQLAlchemy engine, the coordination a Redis
  client, each adapter an HTTP client; the orchestrator, the worker, the webhook ingress, the readiness
  probe and the application own those of their parts. A \<open>pool\<close> counts the handles created so far and
  lists the ones not closed yet. The factories of \<open>Config\<close> decide what a configuration allows; here they
  also open what they build, in the order of the source, and the \<open>close\<close> methods release it.

  What the libraries do is a record of functions: whether creating an engine, a Redis client or an HTTP
  client with the given arguments succeeds, and whether closing a handle does. A handle whose \<open>close\<close>
  raised stays in the list.
\<close>

section \<open>Handles\<close>

datatype resource_kind = SQL_ENGINE | REDIS_CLIENT | HTTP_CLIENT

type_synonym handle = "nat \<times> resource_kind"

record pool =
  pl_next :: nat
  pl_open :: "handle list"

record http_client =
  hc_base_url :: pystr
  hc_headers :: "(pystr \<times> pystr) list"
  hc_timeout :: rat

record libraries =
  lb_engine :: "pystr \<Rightarrow> unit res"
  lb_redis :: "pystr \<Rightarrow> unit res"
  lb_http :: "http_client \<Rightarrow> unit res"
  lb_close :: "handle \<Rightarrow> unit res"

type_synonym 'a pooled = "pool \<Rightarrow> 'a res \<times> pool"

definition plift :: "'a res \<Rightarrow> 'a pooled" where
  "plift r p = (r, p)"

definition pbind :: "'a pooled \<Rightarrow> ('a \<Rightarrow> 'b pooled) \<Rightarrow> 'b pooled" where
  "pbind m k p = (case m p of (Inl e, p1) \<Rightarrow> (Inl e, p1) | (Inr a, p1) \<Rightarrow> k a p1)"

definition acquire_handle :: "resource_kind \<Rightarrow> unit res \<Rightarrow> handle pooled" where
  "acquire_handle k created p =
     (case created of
        Inl e \<Rightarrow> (Inl e, p)
      | Inr _ \<Rightarrow> (Inr (pl_next p, k), p\<lparr>pl_next := Suc (pl_next p), pl_open := pl_open p @ [(pl_next p, k)]\<rparr>))"

definition release_handle :: "libraries \<Rightarrow> handle \<Rightarrow> unit pooled" where
  "release_handle L h p =
     (case lb_close L h of
        Inl e \<Rightarrow> (Inl e, p)
      | Inr _ \<Rightarrow> (Inr (), p\<lparr>pl_open := remove1 h (pl_open p)\<rparr>))"

fun close_each :: "libraries \<Rightarrow> handle list \<Rightarrow> unit pooled" where
  "close_each L [] = plift (Inr ())"
| "close_each L (h # hs) = pbind (release_handle L h) (\<lambda>_. close_each L hs)"

section \<open>Parts\<close>

definition with_slash :: "pystr \<Rightarrow> pystr" where
  "with_slash url = rstrip_by (\<lambda>c. c = 47) url @ [47]"

definition bearer :: "pystr \<Rightarrow> pystr \<times> pystr" where
  "bearer key = (lit ''Authorization'', lit ''Bearer '' @ key)"

definition json_content :: "pystr \<times> pystr" where
  "json_content = (lit ''Content-Type'', lit ''application/json'')"

definition user_agent :: "pystr \<times> pystr" where
  "user_agent = (lit ''User-Agent'', lit ''piki/0.1'')"

definition chat_http_client :: "pystr \<Rightarrow> pystr \<Rightarrow> rat \<Rightarrow> http_client" where
  "chat_http_client base_url api_key timeout_seconds =
     \<lparr>hc_base_url = with_slash base_url, hc_headers = [bearer api_key, json_content, user_agent],
      hc_timeout = timeout_seconds\<rparr>"

definition responses_http_client :: "pystr \<Rightarrow> pystr \<Rightarrow> rat \<Rightarrow> http_client" where
  "responses_http_client base_url api_key timeout_seconds =
     \<lparr>hc_base_url = with_slash base_url, hc_headers = [bearer api_key, json_content, user_agent],
      hc_timeout = timeout_seconds\<rparr>"

definition buenpick_http_client :: "pystr \<Rightarrow> pystr \<Rightarrow> rat \<Rightarrow> http_client" where
  "buenpick_http_client base_url token timeout_seconds =
     \<lparr>hc_base_url = with_slash base_url,
      hc_headers = [bearer token, (lit ''Accept'', lit ''application/json''), user_agent],
      hc_timeout = timeout_seconds\<rparr>"

definition meta_http_client :: "meta_adapter_config \<Rightarrow> rat \<Rightarrow> http_client" where
  "meta_http_client cfg timeout_seconds =
     \<lparr>hc_base_url = ma_base_url cfg,
      hc_headers = [(lit ''Authorization'', ma_authorization cfg), json_content, user_agent],
      hc_timeout = timeout_seconds\<rparr>"

definition open_database :: "libraries \<Rightarrow> files \<Rightarrow> settings \<Rightarrow> handle pooled" where
  "open_database L read s =
     pbind (plift (resolved_database_url read s)) (\<lambda>url. acquire_handle SQL_ENGINE (lb_engine L url))"

definition close_database :: "libraries \<Rightarrow> handle \<Rightarrow> unit pooled" where
  "close_database L database = release_handle L database"

text \<open>The client exists before \<open>RedisCoordination\<close> checks the lifetimes.\<close>

definition open_coordination :: "libraries \<Rightarrow> settings \<Rightarrow> handle pooled" where
  "open_coordination L s =
     pbind (acquire_handle REDIS_CLIENT (lb_redis L (cf_redis_url s))) (\<lambda>redis.
     pbind (plift (create_redis_coordination s)) (\<lambda>_. plift (Inr redis)))"

definition close_coordination :: "libraries \<Rightarrow> handle \<Rightarrow> unit pooled" where
  "close_coordination L redis = release_handle L redis"

definition llm_http_client :: "settings \<Rightarrow> llm_adapter \<Rightarrow> pystr \<Rightarrow> http_client" where
  "llm_http_client s adapter key =
     (case adapter of
        ChatAdapter _ \<Rightarrow> chat_http_client (cf_llm_base_url s) key (cf_llm_timeout_seconds s)
      | ResponsesAdapter _ \<Rightarrow> responses_http_client (cf_llm_base_url s) key (cf_llm_timeout_seconds s))"

definition open_llm_adapter :: "libraries \<Rightarrow> files \<Rightarrow> settings \<Rightarrow> handle pooled" where
  "open_llm_adapter L read s =
     pbind (plift (settings_llm_adapter read s)) (\<lambda>adapter.
     pbind (plift (resolved_llm_api_key read s)) (\<lambda>key.
       acquire_handle HTTP_CLIENT (lb_http L (llm_http_client s adapter (or_empty key)))))"

definition open_buenpick_client ::
  "libraries \<Rightarrow> (pystr \<Rightarrow> pystr option) \<Rightarrow> files \<Rightarrow> settings \<Rightarrow> handle pooled" where
  "open_buenpick_client L hostname read s =
     pbind (plift (create_buenpick_client hostname read s)) (\<lambda>_.
     pbind (plift (resolved_buenpick_internal_api_token read s)) (\<lambda>token.
       acquire_handle HTTP_CLIENT (lb_http L (buenpick_http_client (cf_buenpick_internal_api_base_url s)
         (or_empty token) (cf_buenpick_timeout_seconds s)))))"

definition open_meta_delivery_adapter :: "libraries \<Rightarrow> files \<Rightarrow> settings \<Rightarrow> handle pooled" where
  "open_meta_delivery_adapter L read s =
     pbind (plift (create_meta_delivery_adapter read s)) (\<lambda>cfg.
       acquire_handle HTTP_CLIENT (lb_http L (meta_http_client cfg (cf_meta_delivery_timeout_seconds s))))"

text \<open>\<open>aclose\<close> of the HTTP client, the same in the four clients.\<close>

definition close_adapter :: "libraries \<Rightarrow> handle \<Rightarrow> unit pooled" where
  "close_adapter L client = release_handle L client"

section \<open>Compositions\<close>

record orchestrator_handles =
  oh_database :: handle
  oh_coordination :: handle
  oh_resources :: "handle list"

definition unless_unconfigured :: "'a pooled \<Rightarrow> 'a option pooled" where
  "unless_unconfigured m p =
     (case m p of
        (Inl e, p1) \<Rightarrow> (if e = BuenPickConfigurationError then Inr None else Inl e, p1)
      | (Inr a, p1) \<Rightarrow> (Inr (Some a), p1))"

definition open_orchestrator ::
  "libraries \<Rightarrow> (pystr \<Rightarrow> pystr option) \<Rightarrow> files \<Rightarrow> settings \<Rightarrow> orchestrator_handles pooled" where
  "open_orchestrator L hostname read s =
     (if \<not> cf_conversation_enabled s then plift (Inl ValueError)
      else pbind (open_database L read s) (\<lambda>database.
           pbind (open_coordination L s) (\<lambda>coordination.
           pbind (open_llm_adapter L read s) (\<lambda>llm.
           pbind (unless_unconfigured (open_buenpick_client L hostname read s)) (\<lambda>client.
             plift (Inr \<lparr>oh_database = database, oh_coordination = coordination,
               oh_resources = llm # (case client of None \<Rightarrow> [] | Some c \<Rightarrow> [c])\<rparr>))))))"

definition close_orchestrator :: "libraries \<Rightarrow> orchestrator_handles \<Rightarrow> unit pooled" where
  "close_orchestrator L og =
     pbind (close_each L (rev (oh_resources og))) (\<lambda>_.
     pbind (close_coordination L (oh_coordination og)) (\<lambda>_. close_database L (oh_database og)))"

record worker_handles =
  wh_database :: handle
  wh_orchestrator :: orchestrator_handles
  wh_adapter :: handle

definition open_processing_worker ::
  "libraries \<Rightarrow> (pystr \<Rightarrow> pystr option) \<Rightarrow> files \<Rightarrow> settings \<Rightarrow> worker_handles pooled" where
  "open_processing_worker L hostname read s =
     (if \<not> cf_conversation_worker_enabled s then plift (Inl ValueError)
      else pbind (open_database L read s) (\<lambda>database.
           pbind (open_orchestrator L hostname read s) (\<lambda>og.
           pbind (open_meta_delivery_adapter L read s) (\<lambda>adapter.
             plift (Inr \<lparr>wh_database = database, wh_orchestrator = og, wh_adapter = adapter\<rparr>)))))"

definition close_worker :: "libraries \<Rightarrow> worker_handles \<Rightarrow> unit pooled" where
  "close_worker L w =
     pbind (close_adapter L (wh_adapter w)) (\<lambda>_.
     pbind (close_orchestrator L (wh_orchestrator w)) (\<lambda>_. close_database L (wh_database w)))"

record ingress_handles =
  ih_database :: handle
  ih_coordination :: handle

definition open_ingress :: "libraries \<Rightarrow> files \<Rightarrow> settings \<Rightarrow> ingress_handles pooled" where
  "open_ingress L read s =
     pbind (open_database L read s) (\<lambda>database.
     pbind (open_coordination L s) (\<lambda>coordination.
       plift (Inr \<lparr>ih_database = database, ih_coordination = coordination\<rparr>)))"

definition close_ingress :: "libraries \<Rightarrow> ingress_handles \<Rightarrow> unit pooled" where
  "close_ingress L i =
     pbind (close_coordination L (ih_coordination i)) (\<lambda>_. close_database L (ih_database i))"

record readiness_handles =
  rh_engine :: handle
  rh_redis :: handle

definition open_readiness :: "libraries \<Rightarrow> files \<Rightarrow> settings \<Rightarrow> readiness_handles pooled" where
  "open_readiness L read s =
     pbind (plift (resolved_database_url read s)) (\<lambda>url.
     pbind (acquire_handle SQL_ENGINE (lb_engine L url)) (\<lambda>engine.
     pbind (acquire_handle REDIS_CLIENT (lb_redis L (cf_redis_url s))) (\<lambda>redis.
       plift (Inr \<lparr>rh_engine = engine, rh_redis = redis\<rparr>))))"

definition close_readiness :: "libraries \<Rightarrow> readiness_handles \<Rightarrow> unit pooled" where
  "close_readiness L r =
     pbind (release_handle L (rh_redis r)) (\<lambda>_. release_handle L (rh_engine r))"

record app_handles =
  ah_readiness :: readiness_handles
  ah_ingress :: "ingress_handles option"
  ah_orchestrator :: "orchestrator_handles option"

definition popt :: "bool \<Rightarrow> 'a pooled \<Rightarrow> 'a option pooled" where
  "popt b m = (if b then pbind m (\<lambda>a. plift (Inr (Some a))) else plift (Inr None))"

definition open_app ::
  "libraries \<Rightarrow> (pystr \<Rightarrow> pystr option) \<Rightarrow> files \<Rightarrow> settings \<Rightarrow> bool \<Rightarrow> bool \<Rightarrow> app_handles pooled" where
  "open_app L hostname read s given_ingress given_orchestrator =
     pbind (open_readiness L read s) (\<lambda>readiness.
     pbind (popt (cf_meta_ingress_enabled s \<and> \<not> given_ingress) (open_ingress L read s)) (\<lambda>ingress.
     pbind (popt (cf_conversation_enabled s \<and> cf_local_console_enabled s \<and> \<not> given_orchestrator)
       (open_orchestrator L hostname read s)) (\<lambda>og.
     pbind (plift (resolved_meta_webhook_verify_token read s)) (\<lambda>_.
     pbind (plift (resolved_meta_app_secret read s)) (\<lambda>_.
       plift (Inr \<lparr>ah_readiness = readiness, ah_ingress = ingress, ah_orchestrator = og\<rparr>))))))"

text \<open>The end of the application's lifespan.\<close>

definition close_opt :: "('a \<Rightarrow> unit pooled) \<Rightarrow> 'a option \<Rightarrow> unit pooled" where
  "close_opt close v = (case v of None \<Rightarrow> plift (Inr ()) | Some a \<Rightarrow> close a)"

definition close_app :: "libraries \<Rightarrow> app_handles \<Rightarrow> unit pooled" where
  "close_app L a =
     pbind (close_opt (close_ingress L) (ah_ingress a)) (\<lambda>_.
     pbind (close_opt (close_orchestrator L) (ah_orchestrator a)) (\<lambda>_.
       close_readiness L (ah_readiness a)))"

section \<open>Opening\<close>

text \<open>Fresh handles only: what a computation adds to the pool, in order.\<close>

definition opened :: "pool \<Rightarrow> pool \<Rightarrow> handle list \<Rightarrow> bool" where
  "opened p p' hs \<longleftrightarrow> pl_open p' = pl_open p @ hs \<and> pl_next p \<le> pl_next p' \<and> distinct hs
     \<and> (\<forall>h \<in> set hs. pl_next p \<le> fst h \<and> fst h < pl_next p')"

definition pool_ok :: "pool \<Rightarrow> bool" where
  "pool_ok p \<longleftrightarrow> distinct (pl_open p) \<and> (\<forall>h \<in> set (pl_open p). fst h < pl_next p)"

lemma opened_refl [simp]: "opened p p []"
  by (simp add: opened_def)

lemma opened_trans: "opened p p1 hs \<Longrightarrow> opened p1 p2 ks \<Longrightarrow> opened p p2 (hs @ ks)"
  by (fastforce simp: opened_def)

lemma opened_pool_ok: "opened p p' hs \<Longrightarrow> pool_ok p \<Longrightarrow> pool_ok p' \<and> set (pl_open p) \<inter> set hs = {}"
  by (fastforce simp: opened_def pool_ok_def)

text \<open>
  \<open>opens held m owned\<close>: whatever \<open>m\<close> opens is fresh, and if it returns, its result owns exactly that
  and what was \<open>held\<close> before.
\<close>

definition opens :: "handle multiset \<Rightarrow> 'a pooled \<Rightarrow> ('a \<Rightarrow> handle list) \<Rightarrow> bool" where
  "opens held m owned \<longleftrightarrow> (\<forall>p r p'. m p = (r, p') \<longrightarrow>
     (\<exists>hs. opened p p' hs \<and> (\<forall>x. r = Inr x \<longrightarrow> mset (owned x) = held + mset hs)))"

lemma opens_return: "mset (owned x) = held \<Longrightarrow> opens held (plift (Inr x)) owned"
  by (auto simp: opens_def plift_def intro: exI [of _ "[]"])

lemma opens_raise: "opens held (plift (Inl e)) owned"
  by (auto simp: opens_def plift_def intro: exI [of _ "[]"])

lemma opens_acquire: "opens {#} (acquire_handle k created) (\<lambda>h. [h])"
  unfolding opens_def
proof (intro allI impI)
  fix p r p'
  assume a: "acquire_handle k created p = (r, p')"
  show "\<exists>hs. opened p p' hs \<and> (\<forall>x. r = Inr x \<longrightarrow> mset [x] = {#} + mset hs)"
  proof (cases created)
    case (Inl e)
    with a show ?thesis by (auto simp: acquire_handle_def intro: exI [of _ "[]"])
  next
    case (Inr u)
    with a have "r = Inr (pl_next p, k)" "opened p p' [(pl_next p, k)]"
      by (auto simp: acquire_handle_def opened_def)
    then show ?thesis by (intro exI [of _ "[(pl_next p, k)]"]) simp
  qed
qed

lemma opens_pbind:
  assumes m: "opens {#} m f" and k: "\<And>x. opens (held + mset (f x)) (k x) owned"
  shows "opens held (pbind m k) owned"
  unfolding opens_def
proof (intro allI impI)
  fix p r p'
  assume run: "pbind m k p = (r, p')"
  obtain r1 p1 where r1: "m p = (r1, p1)" by fastforce
  with m obtain hs where hs: "opened p p1 hs" "\<And>x. r1 = Inr x \<Longrightarrow> mset (f x) = mset hs"
    by (auto simp: opens_def) metis
  show "\<exists>hs. opened p p' hs \<and> (\<forall>x. r = Inr x \<longrightarrow> mset (owned x) = held + mset hs)"
  proof (cases r1)
    case (Inl e)
    with run r1 hs(1) show ?thesis by (auto simp: pbind_def)
  next
    case (Inr x)
    with run r1 have "k x p1 = (r, p')" by (simp add: pbind_def)
    with k [of x] obtain ks where "opened p1 p' ks" "\<And>y. r = Inr y \<Longrightarrow> mset (owned y) = held + mset (f x) + mset ks"
      unfolding opens_def by metis
    with hs(1) hs(2) [OF Inr] opened_trans show ?thesis
      by (intro exI [of _ "hs @ ks"]) (auto simp: add.assoc)
  qed
qed

lemma opens_check:
  assumes "\<And>x. opens held (k x) owned"
  shows "opens held (pbind (plift r) k) owned"
  using assms by (cases r) (simp_all add: opens_def pbind_def plift_def, auto intro: exI [of _ "[]"])

lemma opens_popt:
  assumes "opens {#} m f"
  shows "opens {#} (popt b m) (\<lambda>v. case v of None \<Rightarrow> [] | Some x \<Rightarrow> f x)"
  using assms by (auto simp: popt_def intro!: opens_return opens_pbind [where f = f])

lemma opens_unless_unconfigured:
  assumes "opens {#} m f" "\<And>p e p'. m p = (Inl e, p') \<Longrightarrow> p' = p"
  shows "opens {#} (unless_unconfigured m) (\<lambda>v. case v of None \<Rightarrow> [] | Some x \<Rightarrow> f x)"
  unfolding opens_def
proof (intro allI impI)
  fix p r p'
  assume run: "unless_unconfigured m p = (r, p')"
  obtain r1 p1 where r1: "m p = (r1, p1)" by fastforce
  show "\<exists>hs. opened p p' hs \<and> (\<forall>x. r = Inr x \<longrightarrow> mset (case x of None \<Rightarrow> [] | Some x \<Rightarrow> f x) = {#} + mset hs)"
  proof (cases r1)
    case (Inl e)
    with run r1 assms(2) have "p' = p" "\<forall>x. r = Inr x \<longrightarrow> x = None"
      by (auto simp: unless_unconfigured_def split: if_splits)
    then show ?thesis by (intro exI [of _ "[]"]) auto
  next
    case (Inr x)
    with run r1 have "r = Inr (Some x)" "p' = p1" by (simp_all add: unless_unconfigured_def)
    with assms(1) r1 Inr show ?thesis by (fastforce simp: opens_def)
  qed
qed

section \<open>Closing\<close>

lemma pbind_assoc: "pbind (pbind m f) g = pbind m (\<lambda>x. pbind (f x) g)"
  by (rule ext) (auto simp: pbind_def split: prod.splits sum.splits)

lemma pbind_return [simp]: "pbind (plift (Inr x)) k = k x" "pbind m (\<lambda>_. plift (Inr ())) = m"
  by (auto simp: pbind_def plift_def fun_eq_iff split: prod.splits sum.splits)

lemma close_each_append: "close_each L (xs @ ys) = pbind (close_each L xs) (\<lambda>_. close_each L ys)"
  by (induction xs) (simp_all add: pbind_assoc)

lemma close_each_all:
  "\<forall>h \<in> set hs. lb_close L h = Inr () \<Longrightarrow>
   close_each L hs p = (Inr (), p\<lparr>pl_open := fold remove1 hs (pl_open p)\<rparr>)"
  by (induction hs arbitrary: p) (simp_all add: plift_def pbind_def release_handle_def)

lemma close_each_fails:
  assumes "close_each L hs p = (Inl e, p')"
  shows "\<exists>released h rest. hs = released @ h # rest \<and> lb_close L h = Inl e
    \<and> (\<forall>k \<in> set released. lb_close L k = Inr ()) \<and> p' = p\<lparr>pl_open := fold remove1 released (pl_open p)\<rparr>"
  using assms
proof (induction hs arbitrary: p)
  case (Cons h hs)
  show ?case
  proof (cases "lb_close L h")
    case (Inl e')
    with Cons.prems show ?thesis
      by (intro exI [of _ "[]"] exI [of _ h] exI [of _ hs]) (simp add: pbind_def release_handle_def)
  next
    case (Inr u)
    with Cons.prems have "close_each L hs (p\<lparr>pl_open := remove1 h (pl_open p)\<rparr>) = (Inl e, p')"
      by (simp add: pbind_def release_handle_def)
    from Cons.IH [OF this] obtain released h' rest where "hs = released @ h' # rest" "lb_close L h' = Inl e"
      "\<forall>k \<in> set released. lb_close L k = Inr ()"
      "p' = p\<lparr>pl_open := fold remove1 released (remove1 h (pl_open p))\<rparr>" by auto
    with Inr show ?thesis by (intro exI [of _ "h # released"] exI [of _ h'] exI [of _ rest]) auto
  qed
qed (simp add: plift_def)

lemma fold_remove1_distinct: "distinct ys \<Longrightarrow> fold remove1 xs ys = filter (\<lambda>y. y \<notin> set xs) ys"
proof (induction xs arbitrary: ys)
  case (Cons x xs)
  then show ?case
    by (simp add: distinct_remove1_removeAll removeAll_filter_not_eq) (metis (lifting) filter_cong)
qed simp

section \<open>The life of what a factory builds\<close>

text \<open>A factory whose product owns what it opened and a \<open>close\<close> that releases it in order, up to the first failure.\<close>

locale managed =
  fixes L :: libraries and build :: "'a pooled" and owned :: "'a \<Rightarrow> handle list" and close :: "'a \<Rightarrow> unit pooled"
  assumes opens_owned: "opens {#} build owned"
    and closes_owned: "close x = close_each L (owned x)"
begin

lemma build_opened:
  assumes "build p = (Inr x, p1)"
  obtains hs where "opened p p1 hs" "mset (owned x) = mset hs"
proof -
  from opens_owned assms obtain hs where "opened p p1 hs" "\<forall>y. Inr x = Inr y \<longrightarrow> mset (owned y) = {#} + mset hs"
    unfolding opens_def by blast
  with that show thesis by simp
qed

lemma owned_fresh:
  assumes "build p = (Inr x, p1)" "pool_ok p"
  shows "distinct (owned x)" "set (pl_open p) \<inter> set (owned x) = {}" "pool_ok p1"
    "set (pl_open p1) = set (pl_open p) \<union> set (owned x)"
proof -
  obtain hs where hs: "opened p p1 hs" "mset (owned x) = mset hs" by (rule build_opened [OF assms(1)])
  then have "set (owned x) = set hs" "distinct (owned x)"
    by (metis set_mset_mset, metis mset_eq_imp_distinct_iff opened_def)
  with hs(1) opened_pool_ok [OF hs(1) assms(2)] show "distinct (owned x)" "set (pl_open p) \<inter> set (owned x) = {}" "pool_ok p1"
    "set (pl_open p1) = set (pl_open p) \<union> set (owned x)" by (auto simp: opened_def)
qed

lemma close_releases:
  assumes "build p = (Inr x, p1)" "pool_ok p" "\<forall>h \<in> set (owned x). lb_close L h = Inr ()"
  shows "\<exists>p2. close x p1 = (Inr (), p2) \<and> pl_open p2 = pl_open p"
proof -
  obtain hs where hs: "opened p p1 hs" "mset (owned x) = mset hs" by (rule build_opened [OF assms(1)])
  then have "set (owned x) = set hs" by (metis set_mset_mset)
  with hs(1) opened_pool_ok [OF hs(1) assms(2)]
  have "fold remove1 (owned x) (pl_open p1) = filter (\<lambda>y. y \<notin> set hs) (pl_open p @ hs)"
    by (simp add: fold_remove1_distinct pool_ok_def opened_def)
  also have "\<dots> = pl_open p"
    using opened_pool_ok [OF hs(1) assms(2)] by (auto simp: filter_empty_conv intro: filter_True)
  finally show ?thesis using close_each_all [OF assms(3)] by (simp add: closes_owned)
qed

lemma close_stops:
  assumes "build p = (Inr x, p1)" "pool_ok p" "close x p1 = (Inl e, p2)"
  shows "\<exists>released h rest. owned x = released @ h # rest \<and> lb_close L h = Inl e
    \<and> set (pl_open p2) = set (pl_open p) \<union> set (h # rest)"
proof -
  from close_each_fails [OF assms(3) [unfolded closes_owned]] obtain released h rest where
    o: "owned x = released @ h # rest" and e: "lb_close L h = Inl e"
    and p2: "p2 = p1\<lparr>pl_open := fold remove1 released (pl_open p1)\<rparr>" by blast
  note fresh = owned_fresh [OF assms(1,2)]
  have "set (pl_open p2) = set (pl_open p1) - set released"
    using fresh(3) by (auto simp: p2 fold_remove1_distinct pool_ok_def)
  with o fresh(1,2,4) have "set (pl_open p2) = set (pl_open p) \<union> set (h # rest)" by auto
  with o e show ?thesis by blast
qed

lemma lifetime:
  assumes "build p = (Inr x, p1)" "pool_ok p" "close x p1 = (r, p2)"
  shows "case r of Inr _ \<Rightarrow> pl_open p2 = pl_open p
    | Inl e \<Rightarrow> \<exists>released h rest. owned x = released @ h # rest \<and> lb_close L h = Inl e
        \<and> set (pl_open p2) = set (pl_open p) \<union> set (h # rest)"
proof (cases r)
  case (Inl e)
  with close_stops [OF assms(1,2)] assms(3) show ?thesis by simp
next
  case (Inr u)
  have "lb_close L h = Inr ()" if "h \<in> set hs" "close_each L hs q = (Inr v, q')" for h hs q q' v
    using that by (induction hs arbitrary: q) (auto simp: pbind_def release_handle_def split: sum.splits)
  with Inr assms(3) close_releases [OF assms(1,2)] show ?thesis by (fastforce simp: closes_owned)
qed

end

lemma opens_database: "opens {#} (open_database L read s) (\<lambda>h. [h])"
  unfolding open_database_def by (intro opens_check opens_acquire)

lemma opens_coordination: "opens {#} (open_coordination L s) (\<lambda>h. [h])"
  unfolding open_coordination_def by (intro opens_pbind [OF opens_acquire] opens_check opens_return) simp

lemma opens_llm_adapter: "opens {#} (open_llm_adapter L read s) (\<lambda>h. [h])"
  unfolding open_llm_adapter_def by (intro opens_check opens_acquire)

lemma opens_buenpick_client: "opens {#} (open_buenpick_client L hostname read s) (\<lambda>h. [h])"
  unfolding open_buenpick_client_def by (intro opens_check opens_acquire)

lemma opens_meta_delivery_adapter: "opens {#} (open_meta_delivery_adapter L read s) (\<lambda>h. [h])"
  unfolding open_meta_delivery_adapter_def by (intro opens_check opens_acquire)

lemma buenpick_client_unopened: "open_buenpick_client L hostname read s p = (Inl e, p') \<Longrightarrow> p' = p"
  by (auto simp: open_buenpick_client_def pbind_def plift_def acquire_handle_def split: sum.splits)

definition orchestrator_owned :: "orchestrator_handles \<Rightarrow> handle list" where
  "orchestrator_owned og = rev (oh_resources og) @ [oh_coordination og, oh_database og]"

definition worker_owned :: "worker_handles \<Rightarrow> handle list" where
  "worker_owned w = wh_adapter w # orchestrator_owned (wh_orchestrator w) @ [wh_database w]"

definition ingress_owned :: "ingress_handles \<Rightarrow> handle list" where
  "ingress_owned i = [ih_coordination i, ih_database i]"

definition readiness_owned :: "readiness_handles \<Rightarrow> handle list" where
  "readiness_owned r = [rh_redis r, rh_engine r]"

definition app_owned :: "app_handles \<Rightarrow> handle list" where
  "app_owned a = (case ah_ingress a of None \<Rightarrow> [] | Some i \<Rightarrow> ingress_owned i)
     @ (case ah_orchestrator a of None \<Rightarrow> [] | Some og \<Rightarrow> orchestrator_owned og) @ readiness_owned (ah_readiness a)"

lemma close_orchestrator_each: "close_orchestrator L og = close_each L (orchestrator_owned og)"
  by (simp add: close_orchestrator_def orchestrator_owned_def close_each_append close_coordination_def close_database_def)

lemma close_ingress_each: "close_ingress L i = close_each L (ingress_owned i)"
  by (simp add: close_ingress_def ingress_owned_def close_coordination_def close_database_def)

lemma close_readiness_each: "close_readiness L r = close_each L (readiness_owned r)"
  by (simp add: close_readiness_def readiness_owned_def)

lemma opens_orchestrator: "opens {#} (open_orchestrator L hostname read s) orchestrator_owned"
  unfolding open_orchestrator_def
  by (auto intro!: opens_raise opens_return opens_pbind [OF opens_database] opens_pbind [OF opens_coordination]
      opens_pbind [OF opens_llm_adapter]
      opens_pbind [OF opens_unless_unconfigured [OF opens_buenpick_client buenpick_client_unopened]]
      simp: orchestrator_owned_def split: option.splits)

lemma opens_ingress: "opens {#} (open_ingress L read s) ingress_owned"
  unfolding open_ingress_def
  by (auto intro!: opens_return opens_pbind [OF opens_database] opens_pbind [OF opens_coordination] simp: ingress_owned_def)

lemma opens_readiness: "opens {#} (open_readiness L read s) readiness_owned"
  unfolding open_readiness_def
  by (auto intro!: opens_return opens_check opens_pbind [OF opens_acquire] simp: readiness_owned_def)

interpretation orchestrator_life: managed L "open_orchestrator L hostname read s" orchestrator_owned "close_orchestrator L"
  for L hostname read s
  by unfold_locales (rule opens_orchestrator, rule close_orchestrator_each)

interpretation ingress_life: managed L "open_ingress L read s" ingress_owned "close_ingress L" for L read s
  by unfold_locales (rule opens_ingress, rule close_ingress_each)

interpretation readiness_life: managed L "open_readiness L read s" readiness_owned "close_readiness L" for L read s
  by unfold_locales (rule opens_readiness, rule close_readiness_each)

interpretation worker_life: managed L "open_processing_worker L hostname read s" worker_owned "close_worker L"
  for L hostname read s
proof
  show "opens {#} (open_processing_worker L hostname read s) worker_owned"
    unfolding open_processing_worker_def
    by (auto intro!: opens_raise opens_return opens_pbind [OF opens_database] opens_pbind [OF opens_orchestrator]
        opens_pbind [OF opens_meta_delivery_adapter] simp: worker_owned_def)
  show "close_worker L w = close_each L (worker_owned w)" for w
    by (simp add: close_worker_def worker_owned_def close_each_append close_adapter_def close_orchestrator_each close_database_def)
qed

interpretation app_life: managed L "open_app L hostname read s gi go" app_owned "close_app L"
  for L hostname read s gi go
proof
  show "opens {#} (open_app L hostname read s gi go) app_owned"
    unfolding open_app_def
    by (auto intro!: opens_return opens_check opens_pbind [OF opens_readiness] opens_pbind [OF opens_popt [OF opens_ingress]]
        opens_pbind [OF opens_popt [OF opens_orchestrator]] simp: app_owned_def)
  show "close_app L a = close_each L (app_owned a)" for a
    by (cases "ah_ingress a"; cases "ah_orchestrator a")
      (simp_all add: close_app_def app_owned_def close_opt_def close_each_append close_ingress_each
        close_orchestrator_each close_readiness_each)
qed

section \<open>The factories of the configuration\<close>

text \<open>
  The libraries accept what the configuration gives them: the database URL, the Redis URL and the
  HTTP clients of the adapters.
\<close>

definition accepts :: "libraries \<Rightarrow> files \<Rightarrow> settings \<Rightarrow> bool" where
  "accepts L read s \<longleftrightarrow>
     (\<forall>url. resolved_database_url read s = Inr url \<longrightarrow> lb_engine L url = Inr ())
     \<and> lb_redis L (cf_redis_url s) = Inr ()
     \<and> (\<forall>adapter key. resolved_llm_api_key read s = Inr key \<longrightarrow> lb_http L (llm_http_client s adapter (or_empty key)) = Inr ())
     \<and> (\<forall>token. resolved_buenpick_internal_api_token read s = Inr token \<longrightarrow>
          lb_http L (buenpick_http_client (cf_buenpick_internal_api_base_url s) (or_empty token) (cf_buenpick_timeout_seconds s)) = Inr ())
     \<and> (\<forall>cfg. create_meta_delivery_adapter read s = Inr cfg \<longrightarrow>
          lb_http L (meta_http_client cfg (cf_meta_delivery_timeout_seconds s)) = Inr ())"

text \<open>\<open>m\<close> returns when \<open>c\<close> does and raises what \<open>c\<close> raises.\<close>

definition agrees :: "'a pooled \<Rightarrow> 'b res \<Rightarrow> bool" where
  "agrees m c \<longleftrightarrow> (\<forall>p. case fst (m p) of Inl e \<Rightarrow> c = Inl e | Inr _ \<Rightarrow> \<exists>a. c = Inr a)"

lemma agreesI: "(\<And>p e p'. m p = (Inl e, p') \<Longrightarrow> c = Inl e) \<Longrightarrow> (\<And>p x p'. m p = (Inr x, p') \<Longrightarrow> \<exists>a. c = Inr a) \<Longrightarrow> agrees m c"
  by (auto simp: agrees_def split: sum.splits) (metis prod.collapse)+

lemma agreesD:
  assumes "agrees m c"
  shows "m p = (Inl e, p') \<Longrightarrow> c = Inl e" "m p = (Inr x, p') \<Longrightarrow> \<exists>a. c = Inr a"
  using assms [unfolded agrees_def, rule_format, of p] by simp_all

lemma agrees_pbind:
  assumes "agrees m c" "\<And>x a. c = Inr a \<Longrightarrow> agrees (k x) (f a)"
  shows "agrees (pbind m k) (rbind c f)"
proof (rule agreesI)
  fix p e p'
  assume "pbind m k p = (Inl e, p')"
  then consider "m p = (Inl e, p')" | x p1 where "m p = (Inr x, p1)" "k x p1 = (Inl e, p')"
    by (auto simp: pbind_def split: prod.splits sum.splits)
  then show "rbind c f = Inl e" by cases (auto dest!: agreesD [OF assms(1)] agreesD(1) [OF assms(2)])
next
  fix p y p'
  assume "pbind m k p = (Inr y, p')"
  then obtain x p1 where "m p = (Inr x, p1)" "k x p1 = (Inr y, p')"
    by (auto simp: pbind_def split: prod.splits sum.splits)
  then show "\<exists>a. rbind c f = Inr a" by (auto dest!: agreesD(2) [OF assms(1)] agreesD(2) [OF assms(2)])
qed

lemma agrees_check: "(\<And>a. c = Inr a \<Longrightarrow> agrees (k a) (f a)) \<Longrightarrow> agrees (pbind (plift c) k) (rbind c f)"
  by (cases c) (simp_all add: agrees_def pbind_def plift_def)

lemma agrees_acquire: "created = Inr () \<Longrightarrow> agrees (acquire_handle k created) (Inr a)"
  by (simp add: agrees_def acquire_handle_def)

lemma agrees_return: "agrees (plift (Inr x)) (Inr a)"
  by (simp add: agrees_def plift_def)

lemma agrees_raise: "agrees (plift (Inl e)) (Inl e)"
  by (simp add: agrees_def plift_def)

lemma rbind_Inr [simp]: "rbind c Inr = c"
  by (cases c) simp_all

lemma agrees_database:
  assumes "accepts L read s"
  shows "agrees (open_database L read s) (resolved_database_url read s)"
proof -
  have "agrees (open_database L read s) (rbind (resolved_database_url read s) Inr)"
    unfolding open_database_def by (intro agrees_check agrees_acquire) (use assms in \<open>simp add: accepts_def\<close>)
  then show ?thesis by simp
qed

lemma agrees_coordination:
  assumes "accepts L read s"
  shows "agrees (open_coordination L s) (create_redis_coordination s)"
proof -
  have "agrees (open_coordination L s) (rbind (Inr ()) (\<lambda>_. rbind (create_redis_coordination s) Inr))"
    unfolding open_coordination_def
    by (intro agrees_pbind agrees_check agrees_acquire agrees_return) (use assms in \<open>simp add: accepts_def\<close>)
  then show ?thesis by simp
qed

lemma agrees_llm_adapter:
  assumes "accepts L read s"
  shows "agrees (open_llm_adapter L read s) (settings_llm_adapter read s)"
proof -
  have "agrees (open_llm_adapter L read s) (rbind (settings_llm_adapter read s) (\<lambda>a. rbind (resolved_llm_api_key read s) (\<lambda>_. Inr a)))"
    unfolding open_llm_adapter_def by (intro agrees_check agrees_acquire) (use assms in \<open>simp add: accepts_def\<close>)
  moreover have "\<exists>key. resolved_llm_api_key read s = Inr key" if "settings_llm_adapter read s = Inr a" for a
    using that by (auto simp: settings_llm_adapter_def create_llm_adapter_def create_openai_chat_adapter_def
        create_openai_responses_adapter_def rbind_eq_Inr split: if_splits)
  ultimately show ?thesis by (cases "settings_llm_adapter read s") fastforce+
qed

lemma agrees_meta_delivery_adapter:
  assumes "accepts L read s"
  shows "agrees (open_meta_delivery_adapter L read s) (create_meta_delivery_adapter read s)"
proof -
  have "agrees (open_meta_delivery_adapter L read s) (rbind (create_meta_delivery_adapter read s) Inr)"
    unfolding open_meta_delivery_adapter_def by (intro agrees_check agrees_acquire) (use assms in \<open>simp add: accepts_def\<close>)
  then show ?thesis by simp
qed

lemma agrees_unless_unconfigured:
  assumes "agrees m c"
  shows "agrees (unless_unconfigured m)
    (case c of Inl e \<Rightarrow> (if e = BuenPickConfigurationError then Inr None else Inl e) | Inr a \<Rightarrow> Inr (Some a))"
proof (rule agreesI)
  fix p e p'
  assume "unless_unconfigured m p = (Inl e, p')"
  then have "m p = (Inl e, p')" "e \<noteq> BuenPickConfigurationError"
    by (auto simp: unless_unconfigured_def split: prod.splits sum.splits if_splits)
  with agreesD(1) [OF assms] show "(case c of Inl e \<Rightarrow> (if e = BuenPickConfigurationError then Inr None else Inl e)
      | Inr a \<Rightarrow> Inr (Some a)) = Inl e" by auto
next
  fix p x p'
  assume "unless_unconfigured m p = (Inr x, p')"
  then consider "m p = (Inl BuenPickConfigurationError, p')" | y where "m p = (Inr y, p')"
    by (auto simp: unless_unconfigured_def split: prod.splits sum.splits if_splits)
  then show "\<exists>a. (case c of Inl e \<Rightarrow> (if e = BuenPickConfigurationError then Inr None else Inl e)
      | Inr a \<Rightarrow> Inr (Some a)) = Inr a"
    by cases (use agreesD [OF assms] in fastforce)+
qed

lemma agrees_buenpick_client:
  assumes "accepts L read s"
  shows "agrees (unless_unconfigured (open_buenpick_client L hostname read s))
    (case create_buenpick_client hostname read s of
       Inl e \<Rightarrow> (if e = BuenPickConfigurationError then Inr None else Inl e) | Inr c \<Rightarrow> Inr (Some c))"
proof -
  have "agrees (open_buenpick_client L hostname read s) (rbind (create_buenpick_client hostname read s)
      (\<lambda>c. rbind (resolved_buenpick_internal_api_token read s) (\<lambda>_. Inr c)))"
    unfolding open_buenpick_client_def by (intro agrees_check agrees_acquire) (use assms in \<open>simp add: accepts_def\<close>)
  moreover have "\<exists>token. resolved_buenpick_internal_api_token read s = Inr token" if "create_buenpick_client hostname read s = Inr c" for c
    using that by (auto simp: create_buenpick_client_def rbind_eq_Inr)
  ultimately have "agrees (open_buenpick_client L hostname read s) (create_buenpick_client hostname read s)"
    by (cases "create_buenpick_client hostname read s") fastforce+
  then show ?thesis by (rule agrees_unless_unconfigured)
qed

lemma agrees_orchestrator:
  assumes "accepts L read s"
  shows "agrees (open_orchestrator L hostname read s) (create_conversation_orchestrator hostname read s)"
  unfolding open_orchestrator_def create_conversation_orchestrator_def
  by (auto intro!: agrees_raise agrees_return agrees_pbind agrees_database [OF assms] agrees_coordination [OF assms]
      agrees_llm_adapter [OF assms] agrees_buenpick_client [OF assms])

lemma agrees_processing_worker:
  assumes "accepts L read s"
  shows "agrees (open_processing_worker L hostname read s) (create_processing_worker hostname read s)"
  unfolding open_processing_worker_def create_processing_worker_def
  by (auto intro!: agrees_raise agrees_return agrees_pbind agrees_database [OF assms] agrees_orchestrator [OF assms]
      agrees_meta_delivery_adapter [OF assms])

section \<open>From start to stop\<close>


text \<open>The same of the application: what \<open>create_app\<close> built itself, its lifespan closes.\<close>

lemma app_lifetime:
  assumes "open_app L hostname read s gi go p = (Inr a, p1)" "pool_ok p" "close_app L a p1 = (r, p2)"
  shows "case r of Inr _ \<Rightarrow> pl_open p2 = pl_open p
    | Inl e \<Rightarrow> \<exists>released h rest. app_owned a = released @ h # rest \<and> lb_close L h = Inl e
        \<and> set (pl_open p2) = set (pl_open p) \<union> set (h # rest)"
  using app_life.lifetime [OF assms] .

text \<open>
  A start that fails closes nothing. Validation does not look at the language model, so without a
  provider the worker's factory raises with two engines and a Redis client open.
\<close>

lemma failed_start_leaks:
  assumes "cf_conversation_worker_enabled s" "cf_conversation_enabled s" "resolved_database_url read s = Inr url"
    "create_redis_coordination s = Inr ttls" "settings_llm_adapter read s = Inl e" "accepts L read s"
  shows "\<exists>p1. open_processing_worker L hostname read s p = (Inl e, p1) \<and> pl_open p1 = pl_open p @
    [(pl_next p, SQL_ENGINE), (Suc (pl_next p), SQL_ENGINE), (Suc (Suc (pl_next p)), REDIS_CLIENT)]"
  using assms
  by (simp add: open_processing_worker_def open_orchestrator_def open_database_def open_coordination_def
      open_llm_adapter_def pbind_def plift_def acquire_handle_def accepts_def)

lemma missing_provider_fails: "cf_llm_provider s = None \<Longrightarrow> settings_llm_adapter read s = Inl ValueError"
  by (simp add: settings_llm_adapter_def create_llm_adapter_def)

section \<open>A concrete start\<close>

definition sample_libraries :: libraries where
  "sample_libraries = \<lparr>lb_engine = (\<lambda>url. Inr ()), lb_redis = (\<lambda>url. Inr ()), lb_http = (\<lambda>client. Inr ()),
     lb_close = (\<lambda>h. Inr ())\<rparr>"

lemma sample_accepts: "accepts sample_libraries no_files sample_settings"
  by (simp add: accepts_def sample_libraries_def)

definition empty_pool :: pool where
  "empty_pool = \<lparr>pl_next = 0, pl_open = []\<rparr>"

lemma empty_pool_ok: "pool_ok empty_pool"
  by (simp add: pool_ok_def empty_pool_def)


end
