(* ===== verification/Worker_Main.thy ===== *)
theory Worker_Main
  imports Worker Resources
begin

text \<open>
  The worker process, \<open>src/src/piki/worker/main.py\<close>: the loop around \<open>process_once\<close>, its heartbeat file
  and what it does at the end. The stop event, what touching the file does and the inputs of each turn
  are given by the number of the iteration; waiting for the stop event with a timeout changes nothing,
  whether it times out or not. The loop runs as long as nothing stops it, so it has fuel, and \<open>None\<close>
  means that the fuel ran out.
\<close>

record 's daemon =
  dm_state :: "'s worker_state"
  dm_heartbeat :: "micros option"
  dm_pool :: pool

record daemon_inputs =
  di_stopped :: "nat \<Rightarrow> bool"
  di_touch :: "nat \<Rightarrow> micros res"
  di_turn :: "nat \<Rightarrow> worker_inputs"
  di_unlink :: "unit res"

text \<open>\<open>processor\<close> is \<open>None\<close> when the worker is not enabled: then the loop only keeps the heartbeat.\<close>

fun worker_loop ::
  "'s worker option \<Rightarrow> daemon_inputs \<Rightarrow> nat \<Rightarrow> nat \<Rightarrow> 's daemon \<Rightarrow> (unit res \<times> 's daemon) option" where
  "worker_loop processor di 0 n s = None"
| "worker_loop processor di (Suc fuel) n s =
     (if di_stopped di n then Some (Inr (), s)
      else case di_touch di n of
        Inl e \<Rightarrow> Some (Inl e, s)
      | Inr t \<Rightarrow>
        (let s1 = s\<lparr>dm_heartbeat := Some t\<rparr>
         in case processor of
              None \<Rightarrow> worker_loop processor di fuel (Suc n) s1
            | Some wk \<Rightarrow>
              (case process_once wk (di_turn di n) (dm_state s1) of
                 (Inl e, w) \<Rightarrow> Some (Inl e, s1\<lparr>dm_state := w\<rparr>)
               | (Inr worked, w) \<Rightarrow> worker_loop processor di fuel (Suc n) (s1\<lparr>dm_state := w\<rparr>))))"

text \<open>The \<open>finally\<close> block: an exception of \<open>close\<close> or \<open>unlink\<close> replaces the outcome of the loop.\<close>

definition shutdown_worker ::
  "libraries \<Rightarrow> daemon_inputs \<Rightarrow> worker_handles option \<Rightarrow> unit res \<Rightarrow> 's daemon \<Rightarrow> unit res \<times> 's daemon" where
  "shutdown_worker L di handles r s =
     (case close_opt (close_worker L) handles (dm_pool s) of
        (Inl e, p) \<Rightarrow> (Inl e, s\<lparr>dm_pool := p\<rparr>)
      | (Inr _, p) \<Rightarrow>
        (case di_unlink di of
           Inl e \<Rightarrow> (Inl e, s\<lparr>dm_pool := p\<rparr>)
         | Inr _ \<Rightarrow> (r, s\<lparr>dm_pool := p, dm_heartbeat := None\<rparr>)))"

text \<open>\<open>wk\<close> is the behaviour of the worker that \<open>create_processing_worker\<close> builds.\<close>

definition start_worker ::
  "libraries \<Rightarrow> (pystr \<Rightarrow> pystr option) \<Rightarrow> files \<Rightarrow> settings \<Rightarrow> worker_handles option pooled" where
  "start_worker L hostname read cfg =
     popt (cf_conversation_worker_enabled cfg) (open_processing_worker L hostname read cfg)"

definition run_worker ::
  "libraries \<Rightarrow> (pystr \<Rightarrow> pystr option) \<Rightarrow> files \<Rightarrow> settings \<Rightarrow> 's worker \<Rightarrow> daemon_inputs \<Rightarrow> nat \<Rightarrow> 's daemon
    \<Rightarrow> (unit res \<times> 's daemon) option" where
  "run_worker L hostname read cfg wk di fuel s =
     (case start_worker L hostname read cfg (dm_pool s) of
        (Inl e, p) \<Rightarrow> Some (Inl e, s\<lparr>dm_pool := p\<rparr>)
      | (Inr handles, p) \<Rightarrow>
        map_option (\<lambda>(r, s1). shutdown_worker L di handles r s1)
          (worker_loop (map_option (\<lambda>_. wk) handles) di fuel 0 (s\<lparr>dm_pool := p\<rparr>)))"

definition heartbeat_is_fresh :: "settings \<Rightarrow> rat \<Rightarrow> rat option \<Rightarrow> bool" where
  "heartbeat_is_fresh s now heartbeat =
     (case heartbeat of None \<Rightarrow> False | Some mtime \<Rightarrow> now - mtime \<le> cf_worker_heartbeat_seconds s * 3)"

text \<open>The command line: the exit status of a check, or the run.\<close>

datatype 'r worker_exit = Check_Exit nat | Worker_Ran 'r

definition worker_main :: "settings res \<Rightarrow> bool \<Rightarrow> rat \<Rightarrow> rat option \<Rightarrow> (settings \<Rightarrow> 'r) \<Rightarrow> 'r worker_exit res" where
  "worker_main get_settings check now heartbeat run =
     rbind get_settings (\<lambda>cfg.
       Inr (if check then Check_Exit (if heartbeat_is_fresh cfg now heartbeat then 0 else 1) else Worker_Ran (run cfg)))"

section \<open>The process stops when it is told to\<close>

lemma worker_loop_stops:
  assumes "di_stopped di m" "n \<le> m" "m - n < fuel"
  shows "\<exists>r s'. worker_loop processor di fuel n s = Some (r, s')"
  using assms
proof (induction fuel arbitrary: n s)
  case (Suc fuel)
  show ?case
  proof (cases "di_stopped di n")
    case False
    then have "n \<noteq> m" using Suc.prems(1) by auto
    then have "Suc n \<le> m" "m - Suc n < fuel" using Suc.prems by auto
    then have "\<exists>r s'. worker_loop processor di fuel (Suc n) s1 = Some (r, s')" for s1
      using Suc.IH [OF Suc.prems(1)] by blast
    with False show ?thesis by (auto simp: Let_def split: option.split prod.split sum.split)
  qed simp
qed simp

lemma worker_loop_more_fuel:
  "worker_loop processor di fuel n s = Some x \<Longrightarrow> fuel \<le> fuel' \<Longrightarrow> worker_loop processor di fuel' n s = Some x"
proof (induction fuel arbitrary: fuel' n s)
  case (Suc fuel)
  then obtain k where "fuel' = Suc k" "fuel \<le> k" by (cases fuel') auto
  with Suc show ?case by (auto simp: Let_def split: if_splits option.splits prod.splits sum.splits)
qed simp

text \<open>The loop opens and closes nothing; without a processor it touches only the heartbeat.\<close>

lemma worker_loop_pool: "worker_loop processor di fuel n s = Some (r, s') \<Longrightarrow> dm_pool s' = dm_pool s"
proof (induction fuel arbitrary: n s)
  case (Suc fuel)
  then show ?case by (fastforce simp: Let_def split: if_splits option.splits prod.splits sum.splits)
qed simp

lemma worker_loop_idle:
  "worker_loop None di fuel n s = Some (r, s') \<Longrightarrow>
   dm_state s' = dm_state s \<and> (\<forall>e. r = Inl e \<longrightarrow> (\<exists>k. di_touch di k = Inl e))"
proof (induction fuel arbitrary: n s)
  case (Suc fuel)
  then show ?case by (fastforce simp: Let_def split: if_splits sum.splits)
qed simp

text \<open>What the loop did is a run of the worker; it raises only what a turn or the heartbeat raised.\<close>

lemma worker_loop_turn:
  assumes "\<not> di_stopped di n" "di_touch di n = Inr t" "process_once wk (di_turn di n) (dm_state s) = (x, w)"
  shows "worker_loop (Some wk) di (Suc fuel) n s =
    (case x of
       Inl e \<Rightarrow> Some (Inl e, s\<lparr>dm_heartbeat := Some t, dm_state := w\<rparr>)
     | Inr worked \<Rightarrow> worker_loop (Some wk) di fuel (Suc n) (s\<lparr>dm_heartbeat := Some t, dm_state := w\<rparr>))"
  using assms by (cases x) (simp_all add: Let_def)

definition turn_raised :: "'s worker \<Rightarrow> daemon_inputs \<Rightarrow> exn \<Rightarrow> 's worker_state \<Rightarrow> bool" where
  "turn_raised wk di e w' \<longleftrightarrow> (\<exists>k. di_touch di k = Inl e) \<or> (\<exists>k w. process_once wk (di_turn di k) w = (Inl e, w'))"

lemma worker_loop_run:
  assumes "worker_loop (Some wk) di fuel n s = Some (r, s')" "\<And>k. patient (di_turn di k)"
  shows "(worker_step wk)\<^sup>*\<^sup>* (dm_state s) (dm_state s') \<and> (\<forall>e. r = Inl e \<longrightarrow> turn_raised wk di e (dm_state s'))"
  using assms(1)
proof (induction fuel arbitrary: n s)
  case (Suc fuel)
  obtain x w where x: "process_once wk (di_turn di n) (dm_state s) = (x, w)" by fastforce
  have step: "worker_step wk (dm_state s) w" by (rule worker_step.turn [OF assms(2) x])
  consider "di_stopped di n" | e where "\<not> di_stopped di n" "di_touch di n = Inl e"
    | t where "\<not> di_stopped di n" "di_touch di n = Inr t" by (cases "di_touch di n") auto
  then show ?case
  proof cases
    case (3 t)
    note turn = Suc.prems [unfolded worker_loop_turn [OF 3 x]]
    show ?thesis
    proof (cases x)
      case (Inl e)
      with turn have "r = Inl e" "dm_state s' = w" by auto
      with x Inl step show ?thesis by (auto simp: turn_raised_def)
    next
      case (Inr worked)
      with turn have "worker_loop (Some wk) di fuel (Suc n) (s\<lparr>dm_heartbeat := Some t, dm_state := w\<rparr>) = Some (r, s')"
        by simp
      from Suc.IH [OF this] step show ?thesis by (auto intro: converse_rtranclp_into_rtranclp)
    qed
  qed (use Suc.prems in \<open>auto simp: turn_raised_def\<close>)
qed simp

lemma worker_loop_steps:
  assumes "worker_loop (map_option (\<lambda>_. wk) handles) di fuel n s = Some (r, s')" "\<And>k. patient (di_turn di k)"
  shows "(worker_step wk)\<^sup>*\<^sup>* (dm_state s) (dm_state s')" "\<forall>e. r = Inl e \<longrightarrow> turn_raised wk di e (dm_state s')"
proof -
  have "(worker_step wk)\<^sup>*\<^sup>* (dm_state s) (dm_state s') \<and> (\<forall>e. r = Inl e \<longrightarrow> turn_raised wk di e (dm_state s'))"
  proof (cases handles)
    case None
    with assms(1) worker_loop_idle [of di fuel n s r s'] show ?thesis by (auto simp: turn_raised_def)
  next
    case (Some w)
    with assms worker_loop_run [of wk di fuel n s r s'] show ?thesis by simp
  qed
  then show "(worker_step wk)\<^sup>*\<^sup>* (dm_state s) (dm_state s')" "\<forall>e. r = Inl e \<longrightarrow> turn_raised wk di e (dm_state s')" by auto
qed

section \<open>What it leaves behind\<close>

lemma shutdown_worker_state [simp]: "dm_state (snd (shutdown_worker L di handles r s)) = dm_state s"
  by (auto simp: shutdown_worker_def split: prod.splits sum.splits)

lemma start_worker_closes:
  assumes "start_worker L hostname read cfg p = (Inr handles, p1)" "pool_ok p" "\<And>h. lb_close L h = Inr ()"
  shows "\<exists>p2. close_opt (close_worker L) handles p1 = (Inr (), p2) \<and> pl_open p2 = pl_open p"
proof (cases handles)
  case None
  with assms(1) show ?thesis
    by (auto simp: start_worker_def popt_def pbind_def plift_def close_opt_def split: if_splits prod.splits sum.splits)
next
  case (Some w)
  with assms(1) have "open_processing_worker L hostname read cfg p = (Inr w, p1)"
    by (auto simp: start_worker_def popt_def pbind_def plift_def split: if_splits prod.splits sum.splits)
  from worker_life.close_releases [OF this assms(2)] Some assms(3) show ?thesis by (simp add: close_opt_def)
qed

text \<open>
  If closing a connection raises, the heartbeat file is not removed: until it is three heartbeats old,
  the check still reports the dead worker as alive.
\<close>

lemma shutdown_keeps_heartbeat:
  assumes "close_opt (close_worker L) handles (dm_pool s) = (Inl e, p)"
  shows "shutdown_worker L di handles r s = (Inl e, s\<lparr>dm_pool := p\<rparr>)"
  using assms by (simp add: shutdown_worker_def)

lemma run_worker_Some:
  assumes "di_stopped di m" "start_worker L hostname read cfg (dm_pool s) = (Inr handles, p)"
  obtains r s1 where "worker_loop (map_option (\<lambda>_. wk) handles) di (Suc m) 0 (s\<lparr>dm_pool := p\<rparr>) = Some (r, s1)"
    "dm_pool s1 = p" "\<And>fuel. fuel > m \<Longrightarrow> run_worker L hostname read cfg wk di fuel s = Some (shutdown_worker L di handles r s1)"
proof -
  from worker_loop_stops [OF assms(1), of 0 "Suc m"] obtain r s1 where
    l: "worker_loop (map_option (\<lambda>_. wk) handles) di (Suc m) 0 (s\<lparr>dm_pool := p\<rparr>) = Some (r, s1)" by fastforce
  have "run_worker L hostname read cfg wk di fuel s = Some (shutdown_worker L di handles r s1)" if "fuel > m" for fuel
    using worker_loop_more_fuel [OF l, of fuel] that by (simp add: run_worker_def assms(2))
  with that l worker_loop_pool [OF l] show thesis by simp
qed

text \<open>
  C15. The worker process stops and leaves nothing behind. Once the stop event is set, at any
  iteration, the process ends, and the outcome does not depend on how long it was allowed to run. Over
  its whole life it handed the provider at most one reply to each message, and none if the worker is
  not enabled. If it started and nothing fails at the end, its heartbeat file is gone, every connection
  it opened is closed, and it ends with an exception only if a turn or the heartbeat raised it.
\<close>

theorem run_worker_stops:
  assumes "di_stopped di m" "pool_ok (dm_pool s)" "\<And>k. patient (di_turn di k)" "wk_sent (dm_state s) = []"
  shows "\<exists>r s'. (\<forall>fuel > m. run_worker L hostname read cfg wk di fuel s = Some (r, s'))
    \<and> length (filter (\<lambda>req. dr_idempotency_key req = reply_key msg) (wk_sent (dm_state s'))) \<le> 1
    \<and> (\<not> cf_conversation_worker_enabled cfg \<longrightarrow> dm_state s' = dm_state s)
    \<and> ((\<exists>handles p. start_worker L hostname read cfg (dm_pool s) = (Inr handles, p))
        \<and> (\<forall>h. lb_close L h = Inr ()) \<and> di_unlink di = Inr () \<longrightarrow>
        dm_heartbeat s' = None \<and> pl_open (dm_pool s') = pl_open (dm_pool s)
        \<and> (\<forall>e. r = Inl e \<longrightarrow> turn_raised wk di e (dm_state s')))"
proof (cases "start_worker L hostname read cfg (dm_pool s)")
  case (Pair x p)
  show ?thesis
  proof (cases x)
    case (Inl e)
    then have "run_worker L hostname read cfg wk di fuel s = Some (Inl e, s\<lparr>dm_pool := p\<rparr>)" for fuel
      using Pair by (simp add: run_worker_def)
    with Pair Inl assms(4) show ?thesis by (intro exI [of _ "Inl e"] exI [of _ "s\<lparr>dm_pool := p\<rparr>"]) simp
  next
    case (Inr handles)
    with Pair have st: "start_worker L hostname read cfg (dm_pool s) = (Inr handles, p)" by simp
    obtain r s1 where l: "worker_loop (map_option (\<lambda>_. wk) handles) di (Suc m) 0 (s\<lparr>dm_pool := p\<rparr>) = Some (r, s1)"
      and p: "dm_pool s1 = p"
      and run: "\<And>fuel. fuel > m \<Longrightarrow> run_worker L hostname read cfg wk di fuel s = Some (shutdown_worker L di handles r s1)"
      by (rule run_worker_Some [OF assms(1) st, where wk = wk]) blast
    note steps = worker_loop_steps [OF l assms(3), simplified]
    have "outbox (dm_state s)" using assms(4) by (simp add: outbox_def)
    with steps(1) have "outbox (dm_state s1)" by (blast intro: outbox_run)
    then have sent: "length (filter (\<lambda>req. dr_idempotency_key req = reply_key msg) (wk_sent (dm_state s1))) \<le> 1"
      by (intro distinct_map_filter_le_1) (simp add: outbox_def)
    have idle: "dm_state s1 = dm_state s" if "\<not> cf_conversation_worker_enabled cfg"
    proof -
      from that st have "handles = None" by (simp add: start_worker_def popt_def plift_def)
      with l have "worker_loop None di (Suc m) 0 (s\<lparr>dm_pool := p\<rparr>) = Some (r, s1)" by (simp del: worker_loop.simps)
      from worker_loop_idle [OF this] show ?thesis by simp
    qed
    have ends: "shutdown_worker L di handles r s1 = (r, s1\<lparr>dm_pool := p2, dm_heartbeat := None\<rparr>)"
      if "close_opt (close_worker L) handles p = (Inr (), p2)" "di_unlink di = Inr ()" for p2
      using that p by (simp add: shutdown_worker_def)
    obtain r' s' where s': "shutdown_worker L di handles r s1 = (r', s')" by fastforce
    with shutdown_worker_state [of L di handles r s1] have same: "dm_state s' = dm_state s1" by simp
    have "dm_heartbeat s' = None \<and> pl_open (dm_pool s') = pl_open (dm_pool s) \<and> r' = r"
      if "\<forall>h. lb_close L h = Inr ()" "di_unlink di = Inr ()"
      using start_worker_closes [OF st assms(2)] that ends s' by fastforce
    with run s' sent idle steps same show ?thesis by (intro exI [of _ r'] exI [of _ s']) auto
  qed
qed

section \<open>A concrete life\<close>

definition sample_life :: daemon_inputs where
  "sample_life = \<lparr>di_stopped = (\<lambda>n. 1 \<le> n), di_touch = (\<lambda>n. Inr 50), di_turn = (\<lambda>n. sample_turn), di_unlink = Inr ()\<rparr>"

theorem run_worker_stops_witness:
  "\<exists>r s'. run_worker sample_libraries (\<lambda>url. None) no_files sample_settings sample_worker sample_life 5
      \<lparr>dm_state = sample_work, dm_heartbeat = None, dm_pool = empty_pool\<rparr> = Some (r, s')
    \<and> length (filter (\<lambda>req. dr_idempotency_key req = reply_key sample_question) (wk_sent (dm_state s'))) \<le> 1"
proof -
  let ?s = "\<lparr>dm_state = sample_work, dm_heartbeat = None, dm_pool = empty_pool\<rparr>"
  have "di_stopped sample_life 1" by (simp add: sample_life_def)
  moreover have "patient (di_turn sample_life k)" for k
    by (simp add: patient_def sample_life_def sample_turn_def sample_inputs_def)
  moreover have "wk_sent sample_work = []" by (simp add: sample_work_def)
  ultimately show ?thesis
    using run_worker_stops [of sample_life 1 ?s sample_libraries "\<lambda>url. None" no_files sample_settings sample_worker sample_question]
      empty_pool_ok by auto
qed

end
