(* ===== verification/Meta_Payload.thy ===== *)
theory Meta_Payload
  imports Api
begin

text \<open>
  From the JSON body to the payload models of \<open>src/src/piki/integrations/meta/webhook.py\<close>: what
  \<open>MetaWebhookPayload.model_validate\<close> accepts, field by field. The models ignore unknown keys; a field
  of type \<open>str\<close> takes a string, a tuple an array, a literal that very string; an optional field may be
  missing or \<open>null\<close>, a tuple with a default may be missing. The one field of type \<open>int\<close> takes an integer or
  a boolean, and \<open>coerce\<close> says which floats and strings pydantic takes as one. Strings are taken to be
  without lone surrogates.
\<close>

section \<open>Fields\<close>

fun opt_model_field :: "(json \<Rightarrow> 'a option) \<Rightarrow> json option \<Rightarrow> 'a option option" where
  "opt_model_field f None = Some None"
| "opt_model_field f (Some JNull) = Some None"
| "opt_model_field f (Some j) = map_option Some (f j)"

definition list_field :: "(json \<Rightarrow> 'a option) \<Rightarrow> json option \<Rightarrow> 'a list option" where
  "list_field f v = Option.bind (jlist v) (\<lambda>xs. sequence_opt (map f xs))"

definition default_list_field :: "(json \<Rightarrow> 'a option) \<Rightarrow> json option \<Rightarrow> 'a list option" where
  "default_list_field f v = (if v = None then Some [] else list_field f v)"

definition literal_field :: "pystr \<Rightarrow> json option \<Rightarrow> unit option" where
  "literal_field value v = (if v = Some (JStr value) then Some () else None)"

fun int_field :: "(json \<Rightarrow> int option) \<Rightarrow> json option \<Rightarrow> int option" where
  "int_field coerce (Some (JInt n)) = Some n"
| "int_field coerce (Some (JBool b)) = Some (if b then 1 else 0)"
| "int_field coerce (Some (JFloat r)) = coerce (JFloat r)"
| "int_field coerce (Some (JStr t)) = coerce (JStr t)"
| "int_field coerce v = None"

section \<open>Models\<close>

definition parse_meta_text :: "json \<Rightarrow> pystr option" where
  "parse_meta_text j = jstr (jget (lit ''body'') j)"

definition parse_meta_image :: "json \<Rightarrow> meta_image option" where
  "parse_meta_image j =
     Option.bind (jstr (jget (lit ''id'') j)) (\<lambda>i.
     Option.bind (opt_str_field (jget (lit ''mime_type'') j)) (\<lambda>mime_type.
     Option.bind (opt_str_field (jget (lit ''sha256'') j)) (\<lambda>sha256.
     Option.bind (opt_str_field (jget (lit ''caption'') j)) (\<lambda>caption.
       Some \<lparr>mi_id = i, mi_mime_type = mime_type, mi_sha256 = sha256, mi_caption = caption\<rparr>))))"

definition parse_meta_reply :: "json \<Rightarrow> meta_reply option" where
  "parse_meta_reply j =
     Option.bind (jstr (jget (lit ''id'') j)) (\<lambda>i.
     Option.bind (jstr (jget (lit ''title'') j)) (\<lambda>title.
     Option.bind (opt_str_field (jget (lit ''description'') j)) (\<lambda>description.
       Some \<lparr>mr_id = i, mr_title = title, mr_description = description\<rparr>)))"

definition parse_meta_interactive :: "json \<Rightarrow> meta_interactive option" where
  "parse_meta_interactive j =
     Option.bind (jstr (jget (lit ''type'') j)) (\<lambda>ty.
     Option.bind (opt_model_field parse_meta_reply (jget (lit ''button_reply'') j)) (\<lambda>button_reply.
     Option.bind (opt_model_field parse_meta_reply (jget (lit ''list_reply'') j)) (\<lambda>list_reply.
       Some \<lparr>mx_type = ty, mx_button_reply = button_reply, mx_list_reply = list_reply\<rparr>)))"

definition parse_meta_message :: "json \<Rightarrow> meta_message option" where
  "parse_meta_message j =
     Option.bind (jstr (jget (lit ''id'') j)) (\<lambda>i.
     Option.bind (jstr (jget (lit ''from'') j)) (\<lambda>sender.
     Option.bind (jstr (jget (lit ''timestamp'') j)) (\<lambda>ts.
     Option.bind (jstr (jget (lit ''type'') j)) (\<lambda>ty.
     Option.bind (opt_model_field parse_meta_text (jget (lit ''text'') j)) (\<lambda>body.
     Option.bind (opt_model_field parse_meta_image (jget (lit ''image'') j)) (\<lambda>img.
     Option.bind (opt_model_field parse_meta_interactive (jget (lit ''interactive'') j)) (\<lambda>interactive.
       Some \<lparr>mm_id = i, mm_from = sender, mm_timestamp = ts, mm_type = ty, mm_text = body, mm_image = img,
             mm_interactive = interactive\<rparr>)))))))"

definition parse_meta_error_data :: "json \<Rightarrow> pystr option option" where
  "parse_meta_error_data j = (if is_object j then opt_str_field (jget (lit ''details'') j) else None)"

definition parse_meta_status_error :: "(json \<Rightarrow> int option) \<Rightarrow> json \<Rightarrow> meta_status_error option" where
  "parse_meta_status_error coerce j =
     Option.bind (int_field coerce (jget (lit ''code'') j)) (\<lambda>code.
     Option.bind (opt_str_field (jget (lit ''title'') j)) (\<lambda>title.
     Option.bind (opt_str_field (jget (lit ''message'') j)) (\<lambda>msg.
     Option.bind (opt_model_field parse_meta_error_data (jget (lit ''error_data'') j)) (\<lambda>error_data.
       Some \<lparr>me_code = code, me_title = title, me_message = msg, me_error_data = error_data\<rparr>))))"

fun meta_status_value :: "meta_status_name \<Rightarrow> pystr" where
  "meta_status_value MS_SENT = lit ''sent''"
| "meta_status_value MS_DELIVERED = lit ''delivered''"
| "meta_status_value MS_READ = lit ''read''"
| "meta_status_value MS_FAILED = lit ''failed''"

definition parse_meta_status_name :: "json option \<Rightarrow> meta_status_name option" where
  "parse_meta_status_name v = Option.bind (jstr v) (\<lambda>t.
     find (\<lambda>name. meta_status_value name = t) [MS_SENT, MS_DELIVERED, MS_READ, MS_FAILED])"

definition parse_meta_status :: "(json \<Rightarrow> int option) \<Rightarrow> json \<Rightarrow> meta_status option" where
  "parse_meta_status coerce j =
     Option.bind (jstr (jget (lit ''id'') j)) (\<lambda>i.
     Option.bind (parse_meta_status_name (jget (lit ''status'') j)) (\<lambda>st.
     Option.bind (jstr (jget (lit ''timestamp'') j)) (\<lambda>ts.
     Option.bind (jstr (jget (lit ''recipient_id'') j)) (\<lambda>recipient.
     Option.bind (default_list_field (parse_meta_status_error coerce) (jget (lit ''errors'') j)) (\<lambda>errors.
       Some \<lparr>mt_id = i, mt_status = st, mt_timestamp = ts, mt_recipient_id = recipient, mt_errors = errors\<rparr>)))))"

definition parse_meta_metadata :: "json \<Rightarrow> (pystr \<times> pystr) option" where
  "parse_meta_metadata j =
     Option.bind (jstr (jget (lit ''display_phone_number'') j)) (\<lambda>display.
     Option.bind (jstr (jget (lit ''phone_number_id'') j)) (\<lambda>phone. Some (display, phone)))"

definition parse_meta_value :: "(json \<Rightarrow> int option) \<Rightarrow> json \<Rightarrow> meta_value_obj option" where
  "parse_meta_value coerce j =
     Option.bind (literal_field (lit ''whatsapp'') (jget (lit ''messaging_product'') j)) (\<lambda>_.
     Option.bind (Option.bind (jget (lit ''metadata'') j) parse_meta_metadata) (\<lambda>(display, phone).
     Option.bind (default_list_field parse_meta_message (jget (lit ''messages'') j)) (\<lambda>messages.
     Option.bind (default_list_field (parse_meta_status coerce) (jget (lit ''statuses'') j)) (\<lambda>statuses.
       Some \<lparr>mv_display_phone_number = display, mv_phone_number_id = phone, mv_messages = messages,
             mv_statuses = statuses\<rparr>))))"

definition parse_meta_change :: "(json \<Rightarrow> int option) \<Rightarrow> json \<Rightarrow> meta_value_obj option" where
  "parse_meta_change coerce j =
     Option.bind (literal_field (lit ''messages'') (jget (lit ''field'') j)) (\<lambda>_.
     Option.bind (jget (lit ''value'') j) (parse_meta_value coerce))"

definition parse_meta_entry :: "(json \<Rightarrow> int option) \<Rightarrow> json \<Rightarrow> meta_entry option" where
  "parse_meta_entry coerce j =
     Option.bind (jstr (jget (lit ''id'') j)) (\<lambda>i.
     Option.bind (list_field (parse_meta_change coerce) (jget (lit ''changes'') j)) (\<lambda>changes.
       Some \<lparr>mn_id = i, mn_changes = changes\<rparr>))"

definition parse_meta_payload :: "(json \<Rightarrow> int option) \<Rightarrow> json \<Rightarrow> meta_entry list option" where
  "parse_meta_payload coerce j =
     Option.bind (literal_field (lit ''whatsapp_business_account'') (jget (lit ''object'') j)) (\<lambda>_.
     list_field (parse_meta_entry coerce) (jget (lit ''entry'') j))"

section \<open>What the parser reads\<close>

text \<open>The message and status objects of a body in order, each with the phone number identifier of its change.\<close>

fun jpath :: "pystr list \<Rightarrow> json \<Rightarrow> json option" where
  "jpath [] j = Some j"
| "jpath (k # ks) j = Option.bind (jget k j) (jpath ks)"

definition jelements :: "json option \<Rightarrow> json list" where
  "jelements v = (case jlist v of None \<Rightarrow> [] | Some xs \<Rightarrow> xs)"

definition change_phone :: "json \<Rightarrow> pystr option" where
  "change_phone c = jstr (jpath [lit ''value'', lit ''metadata'', lit ''phone_number_id''] c)"

definition body_objects :: "pystr \<Rightarrow> json \<Rightarrow> (pystr option \<times> json) list" where
  "body_objects k j =
     concat (map (\<lambda>e. concat (map (\<lambda>c. map (Pair (change_phone c)) (jelements (jpath [lit ''value'', k] c)))
       (jelements (jget (lit ''changes'') e)))) (jelements (jget (lit ''entry'') j)))"

lemma sequence_opt_map: "sequence_opt (map f xs) = Some ys \<longleftrightarrow> list_all2 (\<lambda>x y. f x = Some y) xs ys"
proof (induction xs arbitrary: ys)
  case (Cons x xs)
  then show ?case by (cases "f x") (auto simp: list_all2_Cons1)
qed auto

lemma list_field_Some:
  "list_field f v = Some ys \<Longrightarrow> list_all2 (\<lambda>x y. f x = Some y) (jelements v) ys"
  by (auto simp: list_field_def jelements_def bind_eq_Some_conv sequence_opt_map)

lemma default_list_field_Some:
  "default_list_field f v = Some ys \<Longrightarrow> list_all2 (\<lambda>x y. f x = Some y) (jelements v) ys"
  by (auto simp: default_list_field_def jelements_def dest: list_field_Some split: if_splits)

lemma bind_jpath_Nil [simp]: "Option.bind v (jpath []) = v"
  by (cases v) simp_all

lemma list_all2_left_member: "list_all2 R xs ys \<Longrightarrow> x \<in> set xs \<Longrightarrow> \<exists>y \<in> set ys. R x y"
  by (metis in_set_conv_nth list_all2_conv_all_nth)

lemma parse_meta_change_reads:
  assumes "parse_meta_change coerce c = Some v"
  shows "change_phone c = Some (mv_phone_number_id v)"
    "list_all2 (\<lambda>x m. parse_meta_message x = Some m) (jelements (jpath [lit ''value'', lit ''messages''] c)) (mv_messages v)"
    "list_all2 (\<lambda>x s. parse_meta_status coerce x = Some s) (jelements (jpath [lit ''value'', lit ''statuses''] c)) (mv_statuses v)"
  using assms
  by (auto simp: parse_meta_change_def parse_meta_value_def parse_meta_metadata_def change_phone_def bind_eq_Some_conv
      default_list_field_Some)

definition read_as :: "('a \<Rightarrow> 'b option) \<Rightarrow> pystr option \<times> 'a \<Rightarrow> pystr \<times> 'b \<Rightarrow> bool" where
  "read_as f x y \<longleftrightarrow> fst x = Some (fst y) \<and> f (snd x) = Some (snd y)"

lemma read_as_pairs:
  "q = Some p \<Longrightarrow> list_all2 (\<lambda>x y. f x = Some y) xs ys \<Longrightarrow> list_all2 (read_as f) (map (Pair q) xs) (map (Pair p) ys)"
  by (auto simp: list_all2_map1 list_all2_map2 read_as_def)

lemma parse_meta_payload_entries:
  "parse_meta_payload coerce j = Some es \<Longrightarrow>
   list_all2 (\<lambda>x e. parse_meta_entry coerce x = Some e) (jelements (jget (lit ''entry'') j)) es"
  by (auto simp: parse_meta_payload_def bind_eq_Some_conv dest: list_field_Some)

lemma parse_meta_entry_reads:
  assumes "parse_meta_entry coerce x = Some e"
  shows "jstr (jget (lit ''id'') x) = Some (mn_id e)"
    "list_all2 (\<lambda>c v. parse_meta_change coerce c = Some v) (jelements (jget (lit ''changes'') x)) (mn_changes e)"
  using assms by (auto simp: parse_meta_entry_def bind_eq_Some_conv dest: list_field_Some)

lemma parse_meta_payload_reads:
  assumes "parse_meta_payload coerce j = Some es"
  shows "list_all2 (read_as parse_meta_message) (body_objects (lit ''messages'') j) (payload_messages es)"
    "list_all2 (read_as (parse_meta_status coerce)) (body_objects (lit ''statuses'') j) (payload_statuses es)"
proof -
  note es = parse_meta_payload_entries [OF assms] and cs = parse_meta_entry_reads(2)
  show "list_all2 (read_as parse_meta_message) (body_objects (lit ''messages'') j) (payload_messages es)"
    unfolding body_objects_def payload_messages_def
    by (rule list_all2_concat_map [OF es], rule list_all2_concat_map [OF cs], assumption)
      (rule read_as_pairs; erule parse_meta_change_reads)
  show "list_all2 (read_as (parse_meta_status coerce)) (body_objects (lit ''statuses'') j) (payload_statuses es)"
    unfolding body_objects_def payload_statuses_def
    by (rule list_all2_concat_map [OF es], rule list_all2_concat_map [OF cs], assumption)
      (rule read_as_pairs; erule parse_meta_change_reads)
qed

section \<open>From the body to the events\<close>

definition message_from :: "pystr option \<times> json \<Rightarrow> inbound_message \<Rightarrow> bool" where
  "message_from o_j x \<longleftrightarrow>
     (case o_j of (phone, j) \<Rightarrow> valid_inbound_message x \<and> im_channel x = WHATSAPP
       \<and> jstr (jget (lit ''id'') j) = Some (im_message_id x) \<and> jstr (jget (lit ''from'') j) = Some (im_sender_id x)
       \<and> im_conversation_id x = im_sender_id x \<and> map_of (im_metadata x) (lit ''phone_number_id'') = phone
       \<and> (\<forall>body. jstr (jget (lit ''type'') j) = Some (lit ''text'')
            \<and> jstr (jpath [lit ''text'', lit ''body''] j) = Some body \<longrightarrow> im_kind x = MK_TEXT \<and> im_text x = Some body))"

definition status_from :: "pystr option \<times> json \<Rightarrow> status_update \<Rightarrow> bool" where
  "status_from o_j x \<longleftrightarrow>
     (case o_j of (phone, j) \<Rightarrow> valid_status_update x \<and> phone = Some (su_phone_number_id x)
       \<and> jstr (jget (lit ''id'') j) = Some (su_provider_message_id x)
       \<and> jstr (jget (lit ''recipient_id'') j) = Some (su_recipient_id x)
       \<and> map_option status_map (parse_meta_status_name (jget (lit ''status'') j)) = Some (su_status x))"

lemma parsed_text:
  assumes "parse_meta_message j = Some m" "jstr (jpath [lit ''text'', lit ''body''] j) = Some body"
  shows "mm_text m = Some body"
proof -
  from assms(2) obtain t where t: "jget (lit ''text'') j = Some t" "jstr (jget (lit ''body'') t) = Some body"
    by (cases "jget (lit ''text'') j") (auto simp: bind_eq_Some_conv)
  then have "opt_model_field parse_meta_text (jget (lit ''text'') j) = Some (Some body)"
    by (cases t) (auto simp: parse_meta_text_def)
  with assms(1) show ?thesis by (auto simp: parse_meta_message_def bind_eq_Some_conv)
qed

lemma message_fromI:
  assumes "read_as parse_meta_message (phone, j) (p, m)" "message_matches (p, m) x"
  shows "message_from (phone, j) x"
proof -
  from assms(1) have m: "parse_meta_message j = Some m" "phone = Some p" by (simp_all add: read_as_def)
  then have f: "jstr (jget (lit ''id'') j) = Some (mm_id m)" "jstr (jget (lit ''from'') j) = Some (mm_from m)"
    "jstr (jget (lit ''type'') j) = Some (mm_type m)" by (auto simp: parse_meta_message_def bind_eq_Some_conv)
  have "im_kind x = MK_TEXT \<and> im_text x = Some body"
    if "jstr (jget (lit ''type'') j) = Some (lit ''text'')" "jstr (jpath [lit ''text'', lit ''body''] j) = Some body" for body
    using that f(3) parsed_text [OF m(1) that(2)] assms(2) by (auto simp: message_matches_def message_metadata_def)
  with assms(2) m(2) f show ?thesis by (auto simp: message_from_def message_matches_def)
qed

lemma status_fromI:
  assumes "read_as (parse_meta_status coerce) (phone, j) (p, st)" "status_matches (p, st) x"
  shows "status_from (phone, j) x"
  using assms by (auto simp: read_as_def status_from_def status_matches_def parse_meta_status_def bind_eq_Some_conv)

lemma webhook_events_read:
  assumes "webhook_events_of loads (parse_meta_payload coerce) u cfg raw_body = Inr ev"
  obtains j es where "loads raw_body = Loaded j" "parse_meta_payload coerce j = Some es"
    "normalize_webhook u (Some es) (wc_expected_waba_id cfg) (wc_expected_phone_number_id cfg) = Inr ev"
    "list_all2 message_from (body_objects (lit ''messages'') j) (we_messages ev)"
    "list_all2 status_from (body_objects (lit ''statuses'') j) (we_statuses ev)"
proof -
  from assms obtain j es where j: "loads raw_body = Loaded j" and es: "parse_meta_payload coerce j = Some es"
    and n: "normalize_webhook u (Some es) (wc_expected_waba_id cfg) (wc_expected_phone_number_id cfg) = Inr ev"
    by (auto simp: webhook_events_of_def normalize_webhook_def split: loaded.splits sum.splits if_splits option.splits)
  note reads = parse_meta_payload_reads [OF es] and matches = normalize_webhook_faithful [OF n]
  have "list_all2 message_from (body_objects (lit ''messages'') j) (we_messages ev)"
    by (rule list_all2_trans [of "read_as parse_meta_message" message_matches, OF _ reads(1)])
      (use message_fromI matches in \<open>(metis surj_pair | blast)+\<close>)
  moreover have "list_all2 status_from (body_objects (lit ''statuses'') j) (we_statuses ev)"
    by (rule list_all2_trans [of "read_as (parse_meta_status coerce)" status_matches, OF _ reads(2)])
      (use status_fromI matches in \<open>(metis surj_pair | blast)+\<close>)
  ultimately show thesis by (rule that [OF j es n])
qed

text \<open>
  C24. What Meta sent is what is ingested. When a webhook body yields events, the inbound messages are
  the message objects of the body, all of them and in order: each is a valid contract that carries the
  identifier and the sender of its object, the phone number identifier of its change and, for a text
  message, its text; likewise the status updates with the status, the recipient and the message they
  are about; and every entry and change of the body belongs to the configured account and number.
\<close>

theorem webhook_faithful:
  assumes "webhook_events_of loads (parse_meta_payload coerce) u cfg raw_body = Inr ev"
  shows "\<exists>j. loads raw_body = Loaded j
    \<and> list_all2 message_from (body_objects (lit ''messages'') j) (we_messages ev)
    \<and> list_all2 status_from (body_objects (lit ''statuses'') j) (we_statuses ev)
    \<and> (\<forall>e \<in> set (jelements (jget (lit ''entry'') j)).
        wc_expected_waba_id cfg \<in> {None, jstr (jget (lit ''id'') e)}
        \<and> (\<forall>c \<in> set (jelements (jget (lit ''changes'') e)). wc_expected_phone_number_id cfg \<in> {None, change_phone c}))"
proof -
  obtain j es where j: "loads raw_body = Loaded j" and es: "parse_meta_payload coerce j = Some es"
    and n: "normalize_webhook u (Some es) (wc_expected_waba_id cfg) (wc_expected_phone_number_id cfg) = Inr ev"
    and from_body: "list_all2 message_from (body_objects (lit ''messages'') j) (we_messages ev)"
      "list_all2 status_from (body_objects (lit ''statuses'') j) (we_statuses ev)"
    by (rule webhook_events_read [OF assms])
  note matches = normalize_webhook_faithful [OF n]
  have "wc_expected_waba_id cfg \<in> {None, jstr (jget (lit ''id'') e)}
      \<and> (\<forall>c \<in> set (jelements (jget (lit ''changes'') e)). wc_expected_phone_number_id cfg \<in> {None, change_phone c})"
    if "e \<in> set (jelements (jget (lit ''entry'') j))" for e
  proof -
    from list_all2_left_member [OF parse_meta_payload_entries [OF es] that] obtain x where
      x: "x \<in> set es" "parse_meta_entry coerce e = Some x" by blast
    note r = parse_meta_entry_reads [OF x(2)]
    have "\<exists>v \<in> set (mn_changes x). change_phone c = Some (mv_phone_number_id v)"
      if "c \<in> set (jelements (jget (lit ''changes'') e))" for c
      using list_all2_left_member [OF r(2) that] parse_meta_change_reads(1) by blast
    with matches x(1) r(1) show ?thesis by fastforce
  qed
  with j from_body show ?thesis by blast
qed

section \<open>Round trip\<close>

text \<open>
  A payload written as Meta writes it, with any further keys \<open>x\<close> in every object; an optional field that
  is not set is written as \<open>null\<close>.
\<close>

definition opt_json :: "('a \<Rightarrow> json) \<Rightarrow> 'a option \<Rightarrow> json" where
  "opt_json f v = (case v of None \<Rightarrow> JNull | Some a \<Rightarrow> f a)"

type_synonym extra_keys = "(pystr \<times> json) list"

definition image_json :: "extra_keys \<Rightarrow> meta_image \<Rightarrow> json" where
  "image_json x i = JObj ([(lit ''id'', JStr (mi_id i)), (lit ''mime_type'', opt_json JStr (mi_mime_type i)),
     (lit ''sha256'', opt_json JStr (mi_sha256 i)), (lit ''caption'', opt_json JStr (mi_caption i))] @ x)"

definition reply_json :: "extra_keys \<Rightarrow> meta_reply \<Rightarrow> json" where
  "reply_json x r = JObj ([(lit ''id'', JStr (mr_id r)), (lit ''title'', JStr (mr_title r)),
     (lit ''description'', opt_json JStr (mr_description r))] @ x)"

definition interactive_json :: "extra_keys \<Rightarrow> meta_interactive \<Rightarrow> json" where
  "interactive_json x i = JObj ([(lit ''type'', JStr (mx_type i)),
     (lit ''button_reply'', opt_json (reply_json x) (mx_button_reply i)),
     (lit ''list_reply'', opt_json (reply_json x) (mx_list_reply i))] @ x)"

definition meta_message_json :: "extra_keys \<Rightarrow> meta_message \<Rightarrow> json" where
  "meta_message_json x m = JObj ([(lit ''id'', JStr (mm_id m)), (lit ''from'', JStr (mm_from m)),
     (lit ''timestamp'', JStr (mm_timestamp m)), (lit ''type'', JStr (mm_type m)),
     (lit ''text'', opt_json (\<lambda>b. JObj ((lit ''body'', JStr b) # x)) (mm_text m)),
     (lit ''image'', opt_json (image_json x) (mm_image m)),
     (lit ''interactive'', opt_json (interactive_json x) (mm_interactive m))] @ x)"

definition status_error_json :: "extra_keys \<Rightarrow> meta_status_error \<Rightarrow> json" where
  "status_error_json x e = JObj ([(lit ''code'', JInt (me_code e)), (lit ''title'', opt_json JStr (me_title e)),
     (lit ''message'', opt_json JStr (me_message e)),
     (lit ''error_data'', opt_json (\<lambda>d. JObj ((lit ''details'', opt_json JStr d) # x)) (me_error_data e))] @ x)"

definition meta_status_json :: "extra_keys \<Rightarrow> meta_status \<Rightarrow> json" where
  "meta_status_json x s = JObj ([(lit ''id'', JStr (mt_id s)), (lit ''status'', JStr (meta_status_value (mt_status s))),
     (lit ''timestamp'', JStr (mt_timestamp s)), (lit ''recipient_id'', JStr (mt_recipient_id s)),
     (lit ''errors'', JArr (map (status_error_json x) (mt_errors s)))] @ x)"

definition change_json :: "extra_keys \<Rightarrow> meta_value_obj \<Rightarrow> json" where
  "change_json x v = JObj ([(lit ''field'', JStr (lit ''messages'')), (lit ''value'', JObj ([
     (lit ''messaging_product'', JStr (lit ''whatsapp'')),
     (lit ''metadata'', JObj ([(lit ''display_phone_number'', JStr (mv_display_phone_number v)),
       (lit ''phone_number_id'', JStr (mv_phone_number_id v))] @ x)),
     (lit ''messages'', JArr (map (meta_message_json x) (mv_messages v))),
     (lit ''statuses'', JArr (map (meta_status_json x) (mv_statuses v)))] @ x))] @ x)"

definition entry_json :: "extra_keys \<Rightarrow> meta_entry \<Rightarrow> json" where
  "entry_json x e = JObj ([(lit ''id'', JStr (mn_id e)), (lit ''changes'', JArr (map (change_json x) (mn_changes e)))] @ x)"

definition payload_json :: "extra_keys \<Rightarrow> meta_entry list \<Rightarrow> json" where
  "payload_json x es = JObj ([(lit ''object'', JStr (lit ''whatsapp_business_account'')),
     (lit ''entry'', JArr (map (entry_json x) es))] @ x)"

lemma opt_str_field_json [simp]: "opt_str_field (Some (opt_json JStr v)) = Some v"
  by (cases v) (simp_all add: opt_json_def)

lemma opt_model_field_object: "is_object j \<Longrightarrow> opt_model_field f (Some j) = map_option Some (f j)"
  by (cases j) simp_all

lemma opt_model_field_json [simp]:
  "(\<And>a. is_object (g a)) \<Longrightarrow> (\<And>a. f (g a) = Some a) \<Longrightarrow> opt_model_field f (Some (opt_json g v)) = Some v"
  by (cases v) (simp_all add: opt_json_def opt_model_field_object)

lemma is_object_json [simp]: "is_object (image_json x i)" "is_object (reply_json x r)" "is_object (interactive_json x ia)"
  by (simp_all add: image_json_def reply_json_def interactive_json_def)

lemma list_field_json [simp]: "(\<And>a. f (g a) = Some a) \<Longrightarrow> list_field f (Some (JArr (map g xs))) = Some xs"
  by (simp add: list_field_def o_def sequence_opt_map list_all2_map1 list_all2_same del: map_map)

lemma default_list_field_json [simp]:
  "(\<And>a. f (g a) = Some a) \<Longrightarrow> default_list_field f (Some (JArr (map g xs))) = Some xs"
  by (simp add: default_list_field_def)

lemma parse_json [simp]:
  "parse_meta_image (image_json x i) = Some i" "parse_meta_reply (reply_json x r) = Some r"
  "parse_meta_interactive (interactive_json x ia) = Some ia" "parse_meta_message (meta_message_json x m) = Some m"
  "parse_meta_status_error coerce (status_error_json x e) = Some e" "parse_meta_status coerce (meta_status_json x s) = Some s"
  "parse_meta_change coerce (change_json x v) = Some v" "parse_meta_entry coerce (entry_json x en) = Some en"
proof -
  show i: "parse_meta_image (image_json x i) = Some i" for i by (simp add: parse_meta_image_def image_json_def)
  show r: "parse_meta_reply (reply_json x r) = Some r" for r by (simp add: parse_meta_reply_def reply_json_def)
  show ia: "parse_meta_interactive (interactive_json x ia) = Some ia" for ia
    by (simp add: parse_meta_interactive_def interactive_json_def r)
  show m: "parse_meta_message (meta_message_json x m) = Some m" for m
    by (simp add: parse_meta_message_def meta_message_json_def i ia parse_meta_text_def)
  show e: "parse_meta_status_error coerce (status_error_json x e) = Some e" for e
    by (simp add: parse_meta_status_error_def status_error_json_def parse_meta_error_data_def)
  show s: "parse_meta_status coerce (meta_status_json x s) = Some s" for s
    by (cases "mt_status s") (simp_all add: parse_meta_status_def meta_status_json_def parse_meta_status_name_def e)
  show v: "parse_meta_change coerce (change_json x v) = Some v" for v
    by (simp add: parse_meta_change_def change_json_def parse_meta_value_def parse_meta_metadata_def literal_field_def m s)
  show "parse_meta_entry coerce (entry_json x en) = Some en" by (simp add: parse_meta_entry_def entry_json_def v)
qed


text \<open>Optional parts may also be missing: a body with only the required keys is read with none of them.\<close>

lemma missing_is_null:
  "opt_str_field None = opt_str_field (Some JNull)" "opt_model_field f None = opt_model_field f (Some JNull)"
  "default_list_field f None = default_list_field f (Some (JArr []))"
  by (simp_all add: default_list_field_def list_field_def)

section \<open>A concrete body\<close>

definition sample_body :: json where
  "sample_body = payload_json [(lit ''contacts'', JArr [])] [sample_entry]"

theorem webhook_faithful_witness:
  "\<exists>ev. webhook_events_of (\<lambda>body. Loaded sample_body) (parse_meta_payload (\<lambda>j. None)) latin1 sample_webhook [123, 125] = Inr ev
    \<and> list_all2 message_from (body_objects (lit ''messages'') sample_body) (we_messages ev)
    \<and> map (jget (lit ''id'') \<circ> snd) (body_objects (lit ''messages'') sample_body) = [Some (JStr (lit ''wamid.1''))]"
proof -
  from sample_normalizes obtain ev where
    "normalize_webhook latin1 (Some [sample_entry]) (Some (lit ''waba'')) (Some (lit ''pn1'')) = Inr ev" by blast
  moreover have "parse_meta_payload (\<lambda>j. None) sample_body = Some [sample_entry]"
    by (simp add: sample_body_def parse_meta_payload_def payload_json_def literal_field_def list_field_def)
  moreover have "is_object sample_body" by (simp add: sample_body_def payload_json_def)
  ultimately have ev: "webhook_events_of (\<lambda>body. Loaded sample_body) (parse_meta_payload (\<lambda>j. None)) latin1 sample_webhook [123, 125] = Inr ev"
    by (simp add: webhook_events_of_def sample_webhook_def)
  have "map (jget (lit ''id'') \<circ> snd) (body_objects (lit ''messages'') sample_body) = [Some (JStr (lit ''wamid.1''))]"
    by (simp add: body_objects_def sample_body_def payload_json_def sample_entry_def entry_json_def change_json_def
        meta_message_json_def jelements_def)
  with ev webhook_faithful [OF ev] show ?thesis by auto
qed

end
