(* ===== verification/Migrations.thy ===== *)
theory Migrations
  imports Contracts "HOL-Library.Multiset"
begin

text \<open>
  The schema migrations, \<open>src/migrations/versions/\<close>, on a model of the tables with their rows, and the
  schema that the records of \<open>src/src/piki/db/models.py\<close> declare. The operations of Alembic are the
  statements it sends to PostgreSQL: a statement that the schema or the rows do not allow raises, and
  the transaction around the migration undoes it. Names are ASCII strings of the sources.
\<close>

section \<open>Tables\<close>

datatype column_type = CT_Uuid | CT_String nat | CT_Text | CT_DateTime | CT_Integer | CT_Boolean | CT_Jsonb

datatype server_default = SD_Now | SD_Text string

record column =
  co_name :: string
  co_type :: column_type
  co_nullable :: bool
  co_default :: "server_default option"

definition column :: "string \<Rightarrow> column_type \<Rightarrow> bool \<Rightarrow> server_default option \<Rightarrow> column" where
  "column n ty nullable dflt = \<lparr>co_name = n, co_type = ty, co_nullable = nullable, co_default = dflt\<rparr>"

datatype table_constraint =
    Primary_Key "string list"
  | Unique string "string list"
  | Foreign_Key string string string
  | Check string string

text \<open>An index; \<open>ix_where\<close> lists the values of \<open>status\<close> that a partial index covers.\<close>

record index =
  ix_name :: string
  ix_columns :: "string list"
  ix_unique :: bool
  ix_where :: "string list option"

datatype cell = Uuid_Cell uuid | Text_Cell pystr | Int_Cell int | Time_Cell micros | Bool_Cell bool | Json_Cell pystr

text \<open>A row gives each column its value; \<open>None\<close> is NULL.\<close>

type_synonym trow = "string \<Rightarrow> cell option"

record table =
  tb_name :: string
  tb_columns :: "column list"
  tb_constraints :: "table_constraint list"
  tb_indexes :: "index list"
  tb_rows :: "trow list"

type_synonym tables = "table list"

definition new_table :: "string \<Rightarrow> column list \<Rightarrow> table_constraint list \<Rightarrow> table" where
  "new_table n cols cs = \<lparr>tb_name = n, tb_columns = cols, tb_constraints = cs, tb_indexes = [], tb_rows = []\<rparr>"

definition plain_index :: "string \<Rightarrow> string list \<Rightarrow> index" where
  "plain_index n cols = \<lparr>ix_name = n, ix_columns = cols, ix_unique = False, ix_where = None\<rparr>"

section \<open>Statements\<close>

definition sql_error :: exn where
  "sql_error = OtherError (lit ''ProgrammingError'')"

fun references :: "string \<Rightarrow> table_constraint \<Rightarrow> bool" where
  "references n (Foreign_Key c t k) \<longleftrightarrow> t = n"
| "references n _ \<longleftrightarrow> False"

definition create_table :: "table \<Rightarrow> tables \<Rightarrow> tables res" where
  "create_table t db =
     (if tb_name t \<in> set (map tb_name db)
         \<or> list_ex (\<lambda>c. case c of Foreign_Key _ target _ \<Rightarrow> target \<notin> set (map tb_name db) | _ \<Rightarrow> False) (tb_constraints t)
      then Inl sql_error else Inr (db @ [t]))"

definition drop_table :: "string \<Rightarrow> tables \<Rightarrow> tables res" where
  "drop_table n db =
     (if n \<notin> set (map tb_name db)
         \<or> list_ex (\<lambda>t. tb_name t \<noteq> n \<and> list_ex (references n) (tb_constraints t)) db
      then Inl sql_error else Inr (filter (\<lambda>t. tb_name t \<noteq> n) db))"

text \<open>A statement on one table.\<close>

fun on_table :: "string \<Rightarrow> (table \<Rightarrow> table res) \<Rightarrow> tables \<Rightarrow> tables res" where
  "on_table n f [] = Inl sql_error"
| "on_table n f (t # db) =
     (if tb_name t = n then rbind (f t) (\<lambda>t1. Inr (t1 # db)) else rbind (on_table n f db) (\<lambda>db1. Inr (t # db1)))"

definition has_columns :: "table \<Rightarrow> string list \<Rightarrow> bool" where
  "has_columns t cols \<longleftrightarrow> list_all (\<lambda>c. c \<in> set (map co_name (tb_columns t))) cols"

text \<open>
  A unique key: rows with a NULL in it never conflict; a partial index looks only at the rows whose
  \<open>status\<close> it covers.
\<close>

definition key_of :: "string list \<Rightarrow> trow \<Rightarrow> cell list option" where
  "key_of cols r = (if list_all (\<lambda>c. r c \<noteq> None) cols then Some (map (\<lambda>c. the (r c)) cols) else None)"

definition covered :: "string list option \<Rightarrow> trow \<Rightarrow> bool" where
  "covered wh r = (case wh of None \<Rightarrow> True | Some sts \<Rightarrow> r ''status'' \<in> (\<lambda>st. Some (Text_Cell (lit st))) ` set sts)"

definition unique_key :: "string list option \<Rightarrow> string list \<Rightarrow> trow list \<Rightarrow> bool" where
  "unique_key wh cols rows = distinct (List.map_filter (key_of cols) (filter (covered wh) rows))"

definition create_index :: "string \<Rightarrow> index \<Rightarrow> tables \<Rightarrow> tables res" where
  "create_index n ix db =
     (if list_ex (\<lambda>t. ix_name ix \<in> set (map ix_name (tb_indexes t))) db then Inl sql_error
      else on_table n (\<lambda>t.
        if \<not> has_columns t (ix_columns ix) then Inl sql_error
        else if ix_unique ix \<and> \<not> unique_key (ix_where ix) (ix_columns ix) (tb_rows t) then Inl IntegrityError
        else Inr (t\<lparr>tb_indexes := tb_indexes t @ [ix]\<rparr>)) db)"

definition drop_index :: "string \<Rightarrow> string \<Rightarrow> tables \<Rightarrow> tables res" where
  "drop_index ixn n = on_table n (\<lambda>t.
     if ixn \<notin> set (map ix_name (tb_indexes t)) then Inl sql_error
     else Inr (t\<lparr>tb_indexes := filter (\<lambda>ix. ix_name ix \<noteq> ixn) (tb_indexes t)\<rparr>))"

fun default_cell :: "column_type \<Rightarrow> server_default option \<Rightarrow> cell option" where
  "default_cell CT_Integer (Some (SD_Text v)) = (if v = ''0'' then Some (Int_Cell 0) else None)"
| "default_cell ty (Some (SD_Text v)) = Some (Text_Cell (lit v))"
| "default_cell ty _ = None"

text \<open>Adding a column fills it in the rows there are; no added column defaults to the current time.\<close>

definition add_column :: "string \<Rightarrow> column \<Rightarrow> tables \<Rightarrow> tables res" where
  "add_column n c = on_table n (\<lambda>t.
     if co_name c \<in> set (map co_name (tb_columns t)) then Inl sql_error
     else if \<not> co_nullable c \<and> default_cell (co_type c) (co_default c) = None \<and> tb_rows t \<noteq> [] then Inl IntegrityError
     else Inr (t\<lparr>tb_columns := tb_columns t @ [c],
                 tb_rows := map (\<lambda>r. r(co_name c := default_cell (co_type c) (co_default c))) (tb_rows t)\<rparr>))"

fun constraint_columns :: "table_constraint \<Rightarrow> string list" where
  "constraint_columns (Primary_Key cols) = cols"
| "constraint_columns (Unique _ cols) = cols"
| "constraint_columns (Foreign_Key c _ _) = [c]"
| "constraint_columns (Check _ _) = []"

text \<open>Dropping a column drops the indexes and constraints that use it.\<close>

definition drop_column :: "string \<Rightarrow> string \<Rightarrow> tables \<Rightarrow> tables res" where
  "drop_column n c = on_table n (\<lambda>t.
     if c \<notin> set (map co_name (tb_columns t)) then Inl sql_error
     else Inr (t\<lparr>tb_columns := filter (\<lambda>k. co_name k \<noteq> c) (tb_columns t),
                 tb_constraints := filter (\<lambda>k. c \<notin> set (constraint_columns k)) (tb_constraints t),
                 tb_indexes := filter (\<lambda>ix. c \<notin> set (ix_columns ix)) (tb_indexes t),
                 tb_rows := map (\<lambda>r. r(c := None)) (tb_rows t)\<rparr>))"

definition alter_default :: "string \<Rightarrow> string \<Rightarrow> string \<Rightarrow> tables \<Rightarrow> tables res" where
  "alter_default n c v = on_table n (\<lambda>t.
     if c \<notin> set (map co_name (tb_columns t)) then Inl sql_error
     else Inr (t\<lparr>tb_columns := map (\<lambda>k. if co_name k = c then k\<lparr>co_default := Some (SD_Text v)\<rparr> else k) (tb_columns t)\<rparr>))"

definition set_not_null :: "string \<Rightarrow> string \<Rightarrow> tables \<Rightarrow> tables res" where
  "set_not_null n c = on_table n (\<lambda>t.
     if c \<notin> set (map co_name (tb_columns t)) then Inl sql_error
     else if list_ex (\<lambda>r. r c = None) (tb_rows t) then Inl IntegrityError
     else Inr (t\<lparr>tb_columns := map (\<lambda>k. if co_name k = c then k\<lparr>co_nullable := False\<rparr> else k) (tb_columns t)\<rparr>))"

definition create_unique_constraint :: "string \<Rightarrow> string \<Rightarrow> string list \<Rightarrow> tables \<Rightarrow> tables res" where
  "create_unique_constraint cn n cols = on_table n (\<lambda>t.
     if \<not> has_columns t cols then Inl sql_error
     else if \<not> unique_key None cols (tb_rows t) then Inl IntegrityError
     else Inr (t\<lparr>tb_constraints := tb_constraints t @ [Unique cn cols]\<rparr>))"

fun is_unique_named :: "string \<Rightarrow> table_constraint \<Rightarrow> bool" where
  "is_unique_named cn (Unique k cols) \<longleftrightarrow> k = cn"
| "is_unique_named cn _ \<longleftrightarrow> False"

definition drop_unique_constraint :: "string \<Rightarrow> string \<Rightarrow> tables \<Rightarrow> tables res" where
  "drop_unique_constraint cn n = on_table n (\<lambda>t.
     if \<not> list_ex (is_unique_named cn) (tb_constraints t) then Inl sql_error
     else Inr (t\<lparr>tb_constraints := filter (\<lambda>k. \<not> is_unique_named cn k) (tb_constraints t)\<rparr>))"

definition update_rows :: "string \<Rightarrow> (trow \<Rightarrow> trow) \<Rightarrow> tables \<Rightarrow> tables res" where
  "update_rows n f = on_table n (\<lambda>t. Inr (t\<lparr>tb_rows := map f (tb_rows t)\<rparr>))"

text \<open>Statements in order, up to the first that raises.\<close>

fun run_all :: "(tables \<Rightarrow> tables res) list \<Rightarrow> tables \<Rightarrow> tables res" where
  "run_all [] db = Inr db"
| "run_all (f # fs) db = rbind (f db) (run_all fs)"

section \<open>The migrations\<close>

definition conversations_table :: table where
  "conversations_table = new_table ''conversations''
     [column ''id'' CT_Uuid False None,
      column ''channel'' (CT_String 32) False None,
      column ''channel_account_id'' (CT_String 255) False None,
      column ''external_conversation_id'' (CT_String 255) False None,
      column ''status'' (CT_String 32) False (Some (SD_Text ''active'')),
      column ''created_at'' CT_DateTime False (Some SD_Now),
      column ''updated_at'' CT_DateTime False (Some SD_Now)]
     [Primary_Key [''id''],
      Unique ''uq_conversation_channel_identity'' [''channel'', ''channel_account_id'', ''external_conversation_id'']]"

definition messages_table :: table where
  "messages_table = new_table ''messages''
     [column ''id'' CT_Uuid False None,
      column ''conversation_id'' CT_Uuid False None,
      column ''external_message_id'' (CT_String 255) True None,
      column ''direction'' (CT_String 16) False None,
      column ''kind'' (CT_String 32) False None,
      column ''content_text'' CT_Text True None,
      column ''trace_id'' (CT_String 128) False None,
      column ''created_at'' CT_DateTime False (Some SD_Now)]
     [Foreign_Key ''conversation_id'' ''conversations'' ''id'',
      Primary_Key [''id''],
      Unique ''uq_messages_external_message_id'' [''external_message_id'']]"

definition tool_runs_table :: table where
  "tool_runs_table = new_table ''tool_runs''
     [column ''id'' CT_Uuid False None,
      column ''conversation_id'' CT_Uuid False None,
      column ''tool_name'' (CT_String 100) False None,
      column ''success'' CT_Boolean False None,
      column ''error_code'' (CT_String 100) True None,
      column ''latency_ms'' CT_Integer False None,
      column ''input_data'' CT_Jsonb False None,
      column ''output_data'' CT_Jsonb True None,
      column ''trace_id'' (CT_String 128) False None,
      column ''created_at'' CT_DateTime False (Some SD_Now)]
     [Check ''ck_tool_runs_latency_nonnegative'' ''latency_ms >= 0'',
      Foreign_Key ''conversation_id'' ''conversations'' ''id'',
      Primary_Key [''id'']]"

definition delivery_attempts_table :: table where
  "delivery_attempts_table = new_table ''delivery_attempts''
     [column ''id'' CT_Uuid False None,
      column ''conversation_id'' CT_Uuid False None,
      column ''idempotency_key'' (CT_String 255) False None,
      column ''provider_message_id'' (CT_String 255) True None,
      column ''status'' (CT_String 32) False None,
      column ''error_code'' (CT_String 100) True None,
      column ''error_message'' (CT_String 500) True None,
      column ''trace_id'' (CT_String 128) False None,
      column ''created_at'' CT_DateTime False (Some SD_Now),
      column ''updated_at'' CT_DateTime False (Some SD_Now)]
     [Foreign_Key ''conversation_id'' ''conversations'' ''id'',
      Primary_Key [''id''],
      Unique ''uq_delivery_attempts_idempotency_key'' [''idempotency_key'']]"

definition handoffs_table :: table where
  "handoffs_table = new_table ''handoffs''
     [column ''id'' CT_Uuid False None,
      column ''conversation_id'' CT_Uuid False None,
      column ''status'' (CT_String 32) False (Some (SD_Text ''requested'')),
      column ''reason'' (CT_String 500) False None,
      column ''trace_id'' (CT_String 128) False None,
      column ''created_at'' CT_DateTime False (Some SD_Now),
      column ''resolved_at'' CT_DateTime True None]
     [Foreign_Key ''conversation_id'' ''conversations'' ''id'',
      Primary_Key [''id'']]"

definition trace_events_table :: table where
  "trace_events_table = new_table ''trace_events''
     [column ''id'' CT_Uuid False None,
      column ''trace_id'' (CT_String 128) False None,
      column ''event_name'' (CT_String 100) False None,
      column ''duration_ms'' CT_Integer True None,
      column ''attributes'' CT_Jsonb False None,
      column ''created_at'' CT_DateTime False (Some SD_Now)]
     [Check ''ck_trace_events_duration_nonnegative'' ''duration_ms IS NULL OR duration_ms >= 0'',
      Primary_Key [''id'']]"

definition delivery_status_events_table :: table where
  "delivery_status_events_table = new_table ''delivery_status_events''
     [column ''id'' CT_Uuid False None,
      column ''delivery_attempt_id'' CT_Uuid False None,
      column ''provider_message_id'' (CT_String 255) True None,
      column ''status'' (CT_String 32) False None,
      column ''error_code'' (CT_String 100) True None,
      column ''error_message'' (CT_String 500) True None,
      column ''trace_id'' (CT_String 128) False None,
      column ''occurred_at'' CT_DateTime False None,
      column ''created_at'' CT_DateTime False (Some SD_Now)]
     [Foreign_Key ''delivery_attempt_id'' ''delivery_attempts'' ''id'',
      Primary_Key [''id''],
      Unique ''uq_delivery_status_provider_state'' [''provider_message_id'', ''status'']]"

definition upgrade_0001 :: "tables \<Rightarrow> tables res" where
  "upgrade_0001 = run_all
     [create_table conversations_table,
      create_table messages_table,
      create_index ''messages'' (plain_index ''ix_messages_conversation_created'' [''conversation_id'', ''created_at'']),
      create_index ''messages'' (plain_index ''ix_messages_trace_id'' [''trace_id'']),
      create_table tool_runs_table,
      create_index ''tool_runs'' (plain_index ''ix_tool_runs_trace_id'' [''trace_id'']),
      create_table delivery_attempts_table,
      create_index ''delivery_attempts'' (plain_index ''ix_delivery_attempts_provider_message_id'' [''provider_message_id'']),
      create_index ''delivery_attempts'' (plain_index ''ix_delivery_attempts_trace_id'' [''trace_id'']),
      create_table handoffs_table,
      create_index ''handoffs'' (plain_index ''ix_handoffs_status_created'' [''status'', ''created_at'']),
      create_table trace_events_table,
      create_index ''trace_events'' (plain_index ''ix_trace_events_trace_created'' [''trace_id'', ''created_at''])]"

definition downgrade_0001 :: "tables \<Rightarrow> tables res" where
  "downgrade_0001 = run_all (map drop_table
     [''trace_events'', ''handoffs'', ''delivery_attempts'', ''tool_runs'', ''messages'', ''conversations''])"

definition upgrade_0002 :: "tables \<Rightarrow> tables res" where
  "upgrade_0002 = run_all
     [create_table delivery_status_events_table,
      create_index ''delivery_status_events'' (plain_index ''ix_delivery_status_attempt_occurred'' [''delivery_attempt_id'', ''occurred_at''])]"

definition downgrade_0002 :: "tables \<Rightarrow> tables res" where
  "downgrade_0002 = drop_table ''delivery_status_events''"

definition replace_status :: "string \<Rightarrow> string \<Rightarrow> trow \<Rightarrow> trow" where
  "replace_status old new r = (if r ''status'' = Some (Text_Cell (lit old)) then r(''status'' := Some (Text_Cell (lit new))) else r)"

text \<open>\<open>CAST(id AS VARCHAR)\<close>; \<open>uuid_text\<close> is the text of a UUID.\<close>

definition key_from_id :: "(uuid \<Rightarrow> pystr) \<Rightarrow> trow \<Rightarrow> trow" where
  "key_from_id uuid_text r = r(''idempotency_key'' :=
     (case r ''id'' of Some (Uuid_Cell u) \<Rightarrow> Some (Text_Cell (uuid_text u)) | _ \<Rightarrow> None))"

definition one_open_index :: index where
  "one_open_index = \<lparr>ix_name = ''uq_handoffs_one_open_per_conversation'', ix_columns = [''conversation_id''],
     ix_unique = True, ix_where = Some [''requested'', ''claimed'']\<rparr>"

definition upgrade_0003 :: "(uuid \<Rightarrow> pystr) \<Rightarrow> tables \<Rightarrow> tables res" where
  "upgrade_0003 uuid_text = run_all
     [alter_default ''conversations'' ''status'' ''piki_active'',
      update_rows ''conversations'' (replace_status ''active'' ''piki_active''),
      add_column ''handoffs'' (column ''idempotency_key'' (CT_String 255) True None),
      update_rows ''handoffs'' (key_from_id uuid_text),
      set_not_null ''handoffs'' ''idempotency_key'',
      create_unique_constraint ''uq_handoffs_conversation_idempotency'' ''handoffs'' [''conversation_id'', ''idempotency_key''],
      create_index ''handoffs'' one_open_index]"

definition downgrade_0003 :: "tables \<Rightarrow> tables res" where
  "downgrade_0003 = run_all
     [drop_index ''uq_handoffs_one_open_per_conversation'' ''handoffs'',
      drop_unique_constraint ''uq_handoffs_conversation_idempotency'' ''handoffs'',
      drop_column ''handoffs'' ''idempotency_key'',
      update_rows ''conversations'' (replace_status ''piki_active'' ''active''),
      alter_default ''conversations'' ''status'' ''active'']"

definition upgrade_0004 :: "tables \<Rightarrow> tables res" where
  "upgrade_0004 = run_all
     [add_column ''messages'' (column ''processing_status'' (CT_String 32) True None),
      add_column ''messages'' (column ''processing_attempts'' CT_Integer False (Some (SD_Text ''0''))),
      add_column ''messages'' (column ''processing_available_at'' CT_DateTime True None),
      add_column ''messages'' (column ''processing_claimed_at'' CT_DateTime True None),
      add_column ''messages'' (column ''processing_error_code'' (CT_String 100) True None),
      create_index ''messages'' (plain_index ''ix_messages_processing_available''
        [''processing_status'', ''processing_available_at'', ''created_at''])]"

definition downgrade_0004 :: "tables \<Rightarrow> tables res" where
  "downgrade_0004 = run_all
     [drop_index ''ix_messages_processing_available'' ''messages'',
      drop_column ''messages'' ''processing_error_code'',
      drop_column ''messages'' ''processing_claimed_at'',
      drop_column ''messages'' ''processing_available_at'',
      drop_column ''messages'' ''processing_attempts'',
      drop_column ''messages'' ''processing_status'']"

definition upgrade_head :: "(uuid \<Rightarrow> pystr) \<Rightarrow> tables \<Rightarrow> tables res" where
  "upgrade_head uuid_text = run_all [upgrade_0001, upgrade_0002, upgrade_0003 uuid_text, upgrade_0004]"

text \<open>
  The database URL of \<open>migrations/env.py\<close>: the file wins over the variable, an empty value is no value,
  and \<open>%\<close> is doubled for the interpolation of the configuration. \<open>read\<close> is what reading the file
  does.
\<close>

definition double_percent :: "pystr \<Rightarrow> pystr" where
  "double_percent v = concat (map (\<lambda>c. if c = 37 then [37, 37] else [c]) v)"

definition migration_url :: "(pystr \<Rightarrow> pystr res) \<Rightarrow> pystr option \<Rightarrow> pystr option \<Rightarrow> pystr option res" where
  "migration_url read database_url database_url_file =
     rbind (if truthy database_url_file then rbind (read (or_empty database_url_file)) (\<lambda>content. Inr (Some (strip content)))
            else Inr database_url) (\<lambda>url.
       Inr (if truthy url then Some (double_percent (or_empty url)) else None))"

section \<open>The schema of the records\<close>

definition conversation_record :: table where
  "conversation_record = (new_table ''conversations''
     [column ''id'' CT_Uuid False None,
      column ''channel'' (CT_String 32) False None,
      column ''channel_account_id'' (CT_String 255) False None,
      column ''external_conversation_id'' (CT_String 255) False None,
      column ''status'' (CT_String 32) False (Some (SD_Text ''piki_active'')),
      column ''created_at'' CT_DateTime False (Some SD_Now),
      column ''updated_at'' CT_DateTime False (Some SD_Now)]
     [Primary_Key [''id''],
      Unique ''uq_conversation_channel_identity'' [''channel'', ''channel_account_id'', ''external_conversation_id'']])\<lparr>tb_indexes :=
     []\<rparr>"

definition message_record :: table where
  "message_record = (new_table ''messages''
     [column ''id'' CT_Uuid False None,
      column ''conversation_id'' CT_Uuid False None,
      column ''external_message_id'' (CT_String 255) True None,
      column ''direction'' (CT_String 16) False None,
      column ''kind'' (CT_String 32) False None,
      column ''content_text'' CT_Text True None,
      column ''trace_id'' (CT_String 128) False None,
      column ''processing_status'' (CT_String 32) True None,
      column ''processing_attempts'' CT_Integer False (Some (SD_Text ''0'')),
      column ''processing_available_at'' CT_DateTime True None,
      column ''processing_claimed_at'' CT_DateTime True None,
      column ''processing_error_code'' (CT_String 100) True None,
      column ''created_at'' CT_DateTime False (Some SD_Now)]
     [Primary_Key [''id''],
      Foreign_Key ''conversation_id'' ''conversations'' ''id'',
      Unique ''uq_messages_external_message_id'' [''external_message_id'']])\<lparr>tb_indexes :=
     [plain_index ''ix_messages_conversation_created'' [''conversation_id'', ''created_at''],
      plain_index ''ix_messages_trace_id'' [''trace_id''],
      plain_index ''ix_messages_processing_available'' [''processing_status'', ''processing_available_at'', ''created_at'']]\<rparr>"

definition handoff_record :: table where
  "handoff_record = (new_table ''handoffs''
     [column ''id'' CT_Uuid False None,
      column ''conversation_id'' CT_Uuid False None,
      column ''idempotency_key'' (CT_String 255) False None,
      column ''status'' (CT_String 32) False (Some (SD_Text ''requested'')),
      column ''reason'' (CT_String 500) False None,
      column ''trace_id'' (CT_String 128) False None,
      column ''created_at'' CT_DateTime False (Some SD_Now),
      column ''resolved_at'' CT_DateTime True None]
     [Primary_Key [''id''],
      Foreign_Key ''conversation_id'' ''conversations'' ''id'',
      Unique ''uq_handoffs_conversation_idempotency'' [''conversation_id'', ''idempotency_key'']])\<lparr>tb_indexes :=
     [plain_index ''ix_handoffs_status_created'' [''status'', ''created_at''],
      one_open_index]\<rparr>"

definition delivery_attempt_record :: table where
  "delivery_attempt_record = (new_table ''delivery_attempts''
     [column ''id'' CT_Uuid False None,
      column ''conversation_id'' CT_Uuid False None,
      column ''idempotency_key'' (CT_String 255) False None,
      column ''provider_message_id'' (CT_String 255) True None,
      column ''status'' (CT_String 32) False None,
      column ''error_code'' (CT_String 100) True None,
      column ''error_message'' (CT_String 500) True None,
      column ''trace_id'' (CT_String 128) False None,
      column ''created_at'' CT_DateTime False (Some SD_Now),
      column ''updated_at'' CT_DateTime False (Some SD_Now)]
     [Primary_Key [''id''],
      Foreign_Key ''conversation_id'' ''conversations'' ''id'',
      Unique ''uq_delivery_attempts_idempotency_key'' [''idempotency_key'']])\<lparr>tb_indexes :=
     [plain_index ''ix_delivery_attempts_provider_message_id'' [''provider_message_id''],
      plain_index ''ix_delivery_attempts_trace_id'' [''trace_id'']]\<rparr>"

definition delivery_status_event_record :: table where
  "delivery_status_event_record = (new_table ''delivery_status_events''
     [column ''id'' CT_Uuid False None,
      column ''delivery_attempt_id'' CT_Uuid False None,
      column ''provider_message_id'' (CT_String 255) True None,
      column ''status'' (CT_String 32) False None,
      column ''error_code'' (CT_String 100) True None,
      column ''error_message'' (CT_String 500) True None,
      column ''trace_id'' (CT_String 128) False None,
      column ''occurred_at'' CT_DateTime False None,
      column ''created_at'' CT_DateTime False (Some SD_Now)]
     [Primary_Key [''id''],
      Foreign_Key ''delivery_attempt_id'' ''delivery_attempts'' ''id'',
      Unique ''uq_delivery_status_provider_state'' [''provider_message_id'', ''status'']])\<lparr>tb_indexes :=
     [plain_index ''ix_delivery_status_attempt_occurred'' [''delivery_attempt_id'', ''occurred_at'']]\<rparr>"

definition record_tables :: tables where
  "record_tables = [conversation_record, message_record, handoff_record, delivery_attempt_record, delivery_status_event_record]"

section \<open>The migrations build what the records declare\<close>

definition same_table :: "table \<Rightarrow> table \<Rightarrow> bool" where
  "same_table t t' \<longleftrightarrow> tb_name t = tb_name t' \<and> set (tb_columns t) = set (tb_columns t')
     \<and> length (tb_columns t) = length (tb_columns t') \<and> set (tb_constraints t) = set (tb_constraints t')
     \<and> set (tb_indexes t) = set (tb_indexes t')"


section \<open>Migrating data\<close>

text \<open>The tables after the second migration, with any rows.\<close>

definition tables_0002 :: "(string \<Rightarrow> trow list) \<Rightarrow> tables" where
  "tables_0002 rows = map (\<lambda>t. t\<lparr>tb_rows := rows (tb_name t)\<rparr>)
     [conversations_table,
      messages_table\<lparr>tb_indexes := [plain_index ''ix_messages_conversation_created'' [''conversation_id'', ''created_at''],
        plain_index ''ix_messages_trace_id'' [''trace_id'']]\<rparr>,
      tool_runs_table\<lparr>tb_indexes := [plain_index ''ix_tool_runs_trace_id'' [''trace_id'']]\<rparr>,
      delivery_attempts_table\<lparr>tb_indexes := [plain_index ''ix_delivery_attempts_provider_message_id'' [''provider_message_id''],
        plain_index ''ix_delivery_attempts_trace_id'' [''trace_id'']]\<rparr>,
      handoffs_table\<lparr>tb_indexes := [plain_index ''ix_handoffs_status_created'' [''status'', ''created_at'']]\<rparr>,
      trace_events_table\<lparr>tb_indexes := [plain_index ''ix_trace_events_trace_created'' [''trace_id'', ''created_at'']]\<rparr>,
      delivery_status_events_table\<lparr>tb_indexes := [plain_index ''ix_delivery_status_attempt_occurred''
        [''delivery_attempt_id'', ''occurred_at'']]\<rparr>]"

lemmas table_defs = conversations_table_def messages_table_def tool_runs_table_def delivery_attempts_table_def
  handoffs_table_def trace_events_table_def delivery_status_events_table_def new_table_def column_def
  plain_index_def has_columns_def

lemmas statement_defs = alter_default_def update_rows_def add_column_def set_not_null_def create_unique_constraint_def
  create_index_def drop_index_def drop_unique_constraint_def drop_column_def one_open_index_def

lemma tables_0002_reached: "rbind (upgrade_0001 []) upgrade_0002 = Inr (tables_0002 (\<lambda>n. []))"
  by (simp add: upgrade_0001_def upgrade_0002_def tables_0002_def create_table_def create_index_def table_defs)

definition table_rows :: "string \<Rightarrow> tables \<Rightarrow> trow list" where
  "table_rows n db = (case find (\<lambda>t. tb_name t = n) db of None \<Rightarrow> [] | Some t \<Rightarrow> tb_rows t)"

text \<open>At most one open handoff per conversation.\<close>

definition is_open :: "cell \<Rightarrow> trow \<Rightarrow> bool" where
  "is_open c r \<longleftrightarrow> r ''conversation_id'' = Some c
     \<and> r ''status'' \<in> {Some (Text_Cell (lit ''requested'')), Some (Text_Cell (lit ''claimed''))}"

definition one_open :: "trow list \<Rightarrow> bool" where
  "one_open rows \<longleftrightarrow> (\<forall>c. length (filter (is_open c) rows) \<le> 1)"

definition handoff_rows_ok :: "trow list \<Rightarrow> bool" where
  "handoff_rows_ok rows \<longleftrightarrow> distinct (map (\<lambda>r. r ''id'') rows)
     \<and> (\<forall>r \<in> set rows. (\<exists>u. r ''id'' = Some (Uuid_Cell u)) \<and> r ''idempotency_key'' = None)"

lemma in_map_filter: "y \<in> set (List.map_filter f xs) \<longleftrightarrow> (\<exists>x \<in> set xs. f x = Some y)"
  by (induction xs) (auto simp: List.map_filter_simps split: option.splits)

lemma distinct_map_filter_iff:
  "distinct (List.map_filter f xs) \<longleftrightarrow> (\<forall>k. length (filter (\<lambda>x. f x = Some k) xs) \<le> 1)"
proof (induction xs)
  case (Cons x xs)
  show ?case
  proof (cases "f x")
    case (Some k)
    have none: "filter (\<lambda>x. f x = Some k) xs = [] \<longleftrightarrow> k \<notin> set (List.map_filter f xs)"
      by (auto simp: filter_empty_conv in_map_filter)
    have "length (filter (\<lambda>y. f y = Some j) (x # xs)) \<le> 1
        \<longleftrightarrow> (if j = k then filter (\<lambda>x. f x = Some k) xs = [] else length (filter (\<lambda>y. f y = Some j) xs) \<le> 1)" for j
      using Some by auto
    then have "(\<forall>j. length (filter (\<lambda>y. f y = Some j) (x # xs)) \<le> 1)
        \<longleftrightarrow> filter (\<lambda>x. f x = Some k) xs = [] \<and> (\<forall>j. length (filter (\<lambda>y. f y = Some j) xs) \<le> 1)"
      by (metis (no_types, lifting) le0 list.size(3))
    with Cons Some none show ?thesis by (simp add: List.map_filter_simps)
  qed (simp add: List.map_filter_simps Cons)
qed (simp add: List.map_filter_simps)

lemma one_open_unique_key: "one_open rows \<longleftrightarrow> unique_key (Some [''requested'', ''claimed'']) [''conversation_id''] rows"
proof -
  have "filter (\<lambda>r. key_of [''conversation_id''] r = Some k) (filter (covered (Some [''requested'', ''claimed''])) rows)
      = (case k of [c] \<Rightarrow> filter (is_open c) rows | _ \<Rightarrow> [])" for k
    by (auto simp: key_of_def covered_def is_open_def filter_empty_conv intro!: filter_cong split: list.splits)
  then show ?thesis unfolding unique_key_def distinct_map_filter_iff one_open_def
    by (auto split: list.splits)
qed

lemma key_from_id_other [simp]: "c \<noteq> ''idempotency_key'' \<Longrightarrow> key_from_id ut r c = r c"
  by (simp add: key_from_id_def)

lemma key_from_id_clear: "key_from_id ut \<circ> (\<lambda>r. r(''idempotency_key'' := None)) = key_from_id ut"
  by (rule ext) (simp add: key_from_id_def fun_eq_iff)

lemma one_open_keyed: "one_open (map (key_from_id ut) rows) \<longleftrightarrow> one_open rows"
proof -
  have "is_open c \<circ> key_from_id ut = is_open c" for c by (simp add: fun_eq_iff is_open_def)
  then show ?thesis by (simp add: one_open_def filter_map)
qed

lemma keyed_not_null:
  "handoff_rows_ok rows \<Longrightarrow> \<not> list_ex (\<lambda>r. r ''idempotency_key'' = None) (map (key_from_id ut) rows)"
  by (auto simp: handoff_rows_ok_def list_ex_iff key_from_id_def)

lemma keyed_unique:
  assumes "inj ut" "handoff_rows_ok rows"
  shows "unique_key None [''conversation_id'', ''idempotency_key''] (map (key_from_id ut) rows)"
proof -
  have "length (filter (\<lambda>r. key_of [''conversation_id'', ''idempotency_key''] (key_from_id ut r) = Some k) rows) \<le> 1" for k
  proof -
    let ?p = "\<lambda>r. key_of [''conversation_id'', ''idempotency_key''] (key_from_id ut r) = Some k"
    have "r ''id'' = r' ''id''" if "r \<in> set rows" "r' \<in> set rows" "?p r" "?p r'" for r r'
      using that assms by (auto simp: handoff_rows_ok_def key_of_def key_from_id_def inj_eq split: if_splits)
        (metis assms(1) cell.case(1) injD option.case(2) option.inject cell.inject(2))
    then have "(\<lambda>r. r ''id'') ` set (filter ?p rows) \<subseteq> {hd (map (\<lambda>r. r ''id'') (filter ?p rows))}"
      by (cases "filter ?p rows") (auto simp: filter_eq_Cons_iff)
    moreover have "distinct (map (\<lambda>r. r ''id'') (filter ?p rows))"
      using assms(2) by (simp add: handoff_rows_ok_def distinct_map_filter)
    ultimately show ?thesis by (cases "filter ?p rows"; cases "tl (filter ?p rows)") auto
  qed
  then show ?thesis by (simp add: unique_key_def covered_def distinct_map_filter_iff filter_map comp_def)
qed

lemma replace_status_back:
  "r ''status'' \<noteq> Some (Text_Cell (lit b)) \<Longrightarrow> replace_status b a (replace_status a b r) = r"
  by (auto simp: replace_status_def fun_eq_iff)

lemma upgrade_0003_blocked:
  assumes "inj uuid_text" "handoff_rows_ok (rows ''handoffs'')" "\<not> one_open (rows ''handoffs'')"
  shows "upgrade_0003 uuid_text (tables_0002 rows) = Inl IntegrityError"
  using keyed_not_null [OF assms(2), of uuid_text] keyed_unique [OF assms(1,2)] assms(3)
  by (simp add: upgrade_0003_def tables_0002_def statement_defs table_defs key_from_id_clear
      one_open_unique_key [symmetric] one_open_keyed)

lemma upgrade_0003_done:
  assumes "inj uuid_text" "handoff_rows_ok (rows ''handoffs'')" "one_open (rows ''handoffs'')"
  shows "\<exists>db. upgrade_0003 uuid_text (tables_0002 rows) = Inr db
    \<and> table_rows ''conversations'' db = map (replace_status ''active'' ''piki_active'') (rows ''conversations'')
    \<and> table_rows ''handoffs'' db = map (key_from_id uuid_text) (rows ''handoffs'')
    \<and> downgrade_0003 db = Inr (tables_0002 (rows(''conversations'' :=
        map (replace_status ''piki_active'' ''active'' \<circ> replace_status ''active'' ''piki_active'') (rows ''conversations''))))"
proof -
  have restored: "map ((\<lambda>r. r(''idempotency_key'' := None)) \<circ> key_from_id uuid_text) (rows ''handoffs'') = rows ''handoffs''"
    using assms(2) by (auto simp: handoff_rows_ok_def key_from_id_def fun_eq_iff intro!: map_idI)
  show ?thesis
  using keyed_not_null [OF assms(2), of uuid_text] keyed_unique [OF assms(1,2)] assms(3) restored
  by (simp add: upgrade_0003_def downgrade_0003_def tables_0002_def statement_defs table_defs key_from_id_clear
      one_open_unique_key [symmetric] one_open_keyed table_rows_def)
qed


definition sample_rows :: "string \<Rightarrow> trow list" where
  "sample_rows n =
     (if n = ''conversations'' then [[''id'' \<mapsto> Uuid_Cell 1, ''status'' \<mapsto> Text_Cell (lit ''active'')]]
      else if n = ''handoffs'' then
        [[''id'' \<mapsto> Uuid_Cell 7, ''conversation_id'' \<mapsto> Uuid_Cell 1, ''status'' \<mapsto> Text_Cell (lit ''requested'')],
         [''id'' \<mapsto> Uuid_Cell 8, ''conversation_id'' \<mapsto> Uuid_Cell 1, ''status'' \<mapsto> Text_Cell (lit ''resolved'')]]
      else [])"


end
