(* ===== verification/Event_Sinks.thy ===== *)
theory Event_Sinks
  imports Events
begin

text \<open>
  The sinks a lifecycle record can go to, \<open>src/src/piki/observability/events.py\<close>: the null sink drops
  it, the recording sink keeps it, the structlog sink writes one line of the log, the event's name with
  the other fields that are set. A line is the pair that \<open>get_logger().info\<close> is called with; how
  structlog renders it is the library's. The components above run over the recording sink, whose state
  is their event log; the lemmas show that the lines of the structlog sink carry the same records.
\<close>

primrec lifecycle_event_value :: "lifecycle_event \<Rightarrow> pystr" where
  "lifecycle_event_value MESSAGE_RECEIVED = lit ''message_received''"
| "lifecycle_event_value INTENT_RESOLVED = lit ''intent_resolved''"
| "lifecycle_event_value TOOL_STARTED = lit ''tool_started''"
| "lifecycle_event_value TOOL_FINISHED = lit ''tool_finished''"
| "lifecycle_event_value CONTEXT_BUILT = lit ''context_built''"
| "lifecycle_event_value TEMPLATE_RENDERED = lit ''template_rendered''"
| "lifecycle_event_value LLM_STARTED = lit ''llm_started''"
| "lifecycle_event_value LLM_FINISHED = lit ''llm_finished''"
| "lifecycle_event_value GROUNDING_CHECKED = lit ''grounding_checked''"
| "lifecycle_event_value DELIVERY_ATTEMPTED = lit ''delivery_attempted''"
| "lifecycle_event_value DELIVERY_SUCCEEDED = lit ''delivery_succeeded''"
| "lifecycle_event_value DELIVERY_FAILED = lit ''delivery_failed''"

primrec event_outcome_value :: "event_outcome \<Rightarrow> pystr" where
  "event_outcome_value EV_STARTED = lit ''started''"
| "event_outcome_value EV_SUCCEEDED = lit ''succeeded''"
| "event_outcome_value EV_FAILED = lit ''failed''"
| "event_outcome_value EV_BLOCKED = lit ''blocked''"

datatype log_value = LogStr pystr | LogInt int

type_synonym log_line = "pystr \<times> (pystr \<times> log_value) list"

definition dump_opt :: "pystr \<Rightarrow> ('a \<Rightarrow> log_value) \<Rightarrow> 'a option \<Rightarrow> (pystr \<times> log_value) list" where
  "dump_opt k f x = (case x of None \<Rightarrow> [] | Some v \<Rightarrow> [(k, f v)])"

definition structlog_line :: "lifecycle_record \<Rightarrow> log_line" where
  "structlog_line r = (lifecycle_event_value (lr_event r),
     [(lit ''trace_id'', LogStr (lr_trace_id r)), (lit ''component'', LogStr (lr_component r)),
      (lit ''outcome'', LogStr (event_outcome_value (lr_outcome r))),
      (lit ''duration_ms'', LogInt (lr_duration_ms r))]
     @ dump_opt (lit ''error_code'') LogStr (lr_error_code r)
     @ dump_opt (lit ''confirmed_count'') LogInt (lr_confirmed_count r)
     @ dump_opt (lit ''unavailable_count'') LogInt (lr_unavailable_count r))"

datatype event_sink = NullEventSink | StructlogEventSink "log_line list" | RecordingEventSink event_log

primrec sink_emit :: "lifecycle_record \<Rightarrow> event_sink \<Rightarrow> event_sink" where
  "sink_emit r NullEventSink = NullEventSink"
| "sink_emit r (StructlogEventSink ls) = StructlogEventSink (ls @ [structlog_line r])"
| "sink_emit r (RecordingEventSink rs) = RecordingEventSink (rs @ [r])"

definition new_observer :: "event_sink option \<Rightarrow> event_sink" where
  "new_observer s = (case s of None \<Rightarrow> NullEventSink | Some k \<Rightarrow> k)"

definition observer_emit ::
  "int option \<Rightarrow> lifecycle_event \<Rightarrow> pystr \<Rightarrow> pystr \<Rightarrow> event_outcome \<Rightarrow> pystr option
    \<Rightarrow> int option \<Rightarrow> int option \<Rightarrow> event_sink \<Rightarrow> event_sink res" where
  "observer_emit elapsed ev tid cname out err conf unav s =
     rbind (construct valid_lifecycle_record
       \<lparr>lr_event = ev, lr_trace_id = tid, lr_component = cname, lr_outcome = out,
        lr_duration_ms = (case elapsed of None \<Rightarrow> 0 | Some ms \<Rightarrow> max 0 ms),
        lr_error_code = err, lr_confirmed_count = conf, lr_unavailable_count = unav\<rparr>)
     (\<lambda>r. Inr (sink_emit r s))"

text \<open>A line determines its record: nothing the record holds is lost in the log.\<close>

lemma lifecycle_event_value_inj: "lifecycle_event_value e = lifecycle_event_value e' \<Longrightarrow> e = e'"
  by (cases e; cases e'; simp add: lit_def)

lemma event_outcome_value_inj: "event_outcome_value u = event_outcome_value u' \<Longrightarrow> u = u'"
  by (cases u; cases u'; simp add: lit_def)

lemma structlog_line_inj: "structlog_line r = structlog_line r' \<Longrightarrow> r = r'"
  by (cases r; cases r')
    (auto simp: structlog_line_def dump_opt_def lit_def split: option.splits
      dest: lifecycle_event_value_inj event_outcome_value_inj)

lemma structlog_line_keys:
  "distinct (map fst (snd (structlog_line r))) \<and> lit ''event'' \<notin> set (map fst (snd (structlog_line r)))"
  by (simp add: structlog_line_def dump_opt_def lit_def split: option.splits)

text \<open>
  The event log of the components is the recording sink: \<open>emit_counts\<close> is \<open>observer_emit\<close> on it. On
  the structlog sink the same call writes the line of the same record, and raises in the same cases.
\<close>

lemma observer_emit_recording:
  "emit_counts el ev tid cname out timed err conf unav log = Inr log' \<Longrightarrow>
   observer_emit (if timed then Some (el (length log)) else None) ev tid cname out err conf unav
     (RecordingEventSink log) = Inr (RecordingEventSink log')"
  by (auto simp: emit_counts_def observer_emit_def rbind_eq_Inr)

definition lines_of :: "event_log \<Rightarrow> event_sink" where
  "lines_of log = StructlogEventSink (map structlog_line log)"

lemma observer_emit_structlog:
  "observer_emit (if timed then Some (el (length log)) else None) ev tid cname out err conf unav
     (lines_of log)
   = rbind (emit_counts el ev tid cname out timed err conf unav log) (\<lambda>log'. Inr (lines_of log'))"
  by (simp add: emit_counts_def observer_emit_def lines_of_def rbind_def construct_def)

lemma lines_of_inj: "lines_of log = lines_of log' \<Longrightarrow> log = log'"
proof -
  assume "lines_of log = lines_of log'"
  then have "map structlog_line log = map structlog_line log'" by (simp add: lines_of_def)
  moreover have "inj structlog_line" by (rule injI) (rule structlog_line_inj)
  ultimately show ?thesis by (simp add: inj_map_eq_map)
qed

lemma observer_default_silent:
  "observer_emit elapsed ev tid cname out err conf unav (new_observer None) = Inr s \<Longrightarrow> s = NullEventSink"
  by (auto simp: observer_emit_def new_observer_def rbind_eq_Inr)

section \<open>Which lines are written\<close>

text \<open>
  \<open>configure_logging\<close> of \<open>src/src/piki/core/logging.py\<close>: the level is the attribute of the \<open>logging\<close> module
  with the upper-cased name, 20 (\<open>INFO\<close>) if there is none. Besides the levels, two attributes have a name
  in capitals, a format string and a dictionary, which \<open>basicConfig\<close> refuses. The structlog logger
  drops what is below the level; lifecycle lines are written with \<open>info\<close>.
\<close>

definition logging_levels :: "(pystr \<times> int) list" where
  "logging_levels = [(lit ''CRITICAL'', 50), (lit ''FATAL'', 50), (lit ''ERROR'', 40), (lit ''WARNING'', 30),
     (lit ''WARN'', 30), (lit ''INFO'', 20), (lit ''DEBUG'', 10), (lit ''NOTSET'', 0)]"

definition configure_logging :: "ucd \<Rightarrow> pystr \<Rightarrow> int res" where
  "configure_logging u level =
     (let name = upper u level
      in if name = lit ''BASIC_FORMAT'' then Inl ValueError
         else if name = lit ''_STYLES'' then Inl TypeError
         else Inr (case map_of logging_levels name of None \<Rightarrow> 20 | Some n \<Rightarrow> n))"

definition logged_lines :: "int \<Rightarrow> event_log \<Rightarrow> log_line list" where
  "logged_lines numeric_level log = (if numeric_level \<le> 20 then map structlog_line log else [])"

text \<open>
  With an unknown level, or one up to \<open>INFO\<close>, the log carries every lifecycle record; from \<open>WARNING\<close> on it
  carries none.
\<close>

lemma lifecycle_logged:
  assumes "configure_logging u level = Inr n"
  shows "logged_lines n log = (if upper u level \<in> set [lit ''CRITICAL'', lit ''FATAL'', lit ''ERROR'', lit ''WARNING'', lit ''WARN'']
    then [] else map structlog_line log)"
  using assms by (auto simp: configure_logging_def logged_lines_def logging_levels_def Let_def split: if_splits)

end
