(* ===== verification/Spec2Isabelle.thy ===== *)
theory Spec2Isabelle
  imports Delivery_Order Meta_Delivery Meta_Ingress State_Stores Handoffs Processing Active_Pick Queue_Refinement
    Worker_Main Meta_Payload Migrations Event_Sinks
begin

text \<open>
  Verification of PIKI, the conversational assistant of BuenPick (\<open>src/src/piki\<close>, migrations in
  \<open>src/migrations\<close>).

  \<^bold>\<open>The program.\<close> Meta's webhook delivers WhatsApp messages and delivery receipts to the API, which checks
  the signature, normalizes the payload and stores messages in PostgreSQL, where they queue; receipts
  move the status of earlier deliveries. A worker claims queued messages, answers each under a Redis
  lock of its conversation and hands the reply to Meta through an idempotent delivery service. An
  answer is composed from a policy, evidence fetched from the BuenPick API, and a language model whose
  draft is checked against that evidence. A local console offers the same conversation over HTTP.

  \<^bold>\<open>Conventions.\<close> A Python \<open>str\<close> is a list of code points, \<open>int\<close> is \<open>int\<close>, a UUID its number, an instant a
  number of microseconds, a \<open>float\<close> bound a rational. What raises returns a sum whose left side is the
  exception (\<open>exn\<close> in \<open>Contracts\<close>). A table is the list of its rows; a session commits the new database
  or, on an exception, leaves the old one. Clock readings, new identifiers, tokens and what other
  processes do between two steps are inputs. Code outside the repository is a parameter: digests
  (\<open>mac\<close>, \<open>sha\<close>), \<open>json.loads\<close>, the network, the file system, the libraries' constructors and \<open>close\<close> methods,
  the language model, the Unicode tables (record \<open>ucd\<close>, instance \<open>latin1\<close>) and the Redis server (locale
  \<open>redis_server\<close>, instance \<open>memory_redis\<close>).

  \<^bold>\<open>Theories.\<close>
  \<^item> \<open>Prelude\<close>: strings, tables and list lemmas. \<open>Contracts\<close>, \<open>Json\<close>: \<open>domain/contracts.py\<close>, exceptions, JSON
    values. \<open>Interfaces\<close>: the locales that several components satisfy (claiming a key once, bounded
    retries, ranked states and others), interpreted in the theories of their providers. \<open>Events\<close>,
    \<open>Event_Sinks\<close>: \<open>observability/events.py\<close>, \<open>core/logging.py\<close>; a line of the structlog sink determines its
    record, and the level decides whether it is written.
  \<^item> \<open>Database\<close>: rows, keys and constraints of \<open>db/models.py\<close> and the session of \<open>db/session.py\<close>; \<open>db_ok\<close> is the
    conjunction of the constraints. \<open>Conversations\<close>, \<open>Handoffs\<close>, \<open>Processing\<close>: the repositories of \<open>db/\<close>.
    A message and a handoff are recorded once; history is the latest messages in order; a claim is
    exclusive while it is fresh, the queue is fair, settled messages stay settled.
    \<open>Queue_Refinement\<close>: the message table implements an abstract job queue. \<open>Migrations\<close>: the scripts of
    \<open>src/migrations/versions\<close> on tables with rows; they build what the records declare, and what the
    third does to data.
  \<^item> \<open>Delivery\<close>, \<open>Delivery_Protocol\<close>, \<open>Delivery_Callbacks\<close>, \<open>Delivery_Order\<close>: \<open>delivery/service.py\<close>. Over all
    interleavings of senders, receipts and crashes the adapter is called at most once per key and
    statuses only advance; the invariant of the attempts; replays are truthful; receipts commute, and
    what goes wrong when two overlap in one transaction window.
  \<^item> \<open>Meta_Webhook\<close>, \<open>Meta_Payload\<close>, \<open>Meta_Ingress\<close>, \<open>Meta_Delivery\<close>: \<open>integrations/meta/\<close>. Every payload is read
    back as written, and the events of a body are its messages and statuses in order; ingestion is
    durable and idempotent; the adapter reports what Meta answered.
  \<^item> \<open>Redis\<close>, \<open>Coordination\<close>, \<open>State_Stores\<close>, \<open>Active_Pick\<close>: \<open>state/\<close> and \<open>use_cases/pick_image.py\<close>. Locks
    exclude each other, a message is claimed once, conversations are isolated, a pending action is
    consumed once, an active pick is confirmed again before it is used.
  \<^item> \<open>BuenPick_Models\<close>, \<open>BuenPick_Client\<close>, \<open>Evidence\<close>: \<open>integrations/buenpick/\<close>, \<open>tools/buenpick.py\<close>,
    \<open>evidence/buenpick.py\<close>. Prices are formatted exactly, requests are bounded, evidence says only what
    the API confirmed.
  \<^item> \<open>Prompts\<close>, \<open>LLM\<close>, \<open>Regex\<close>, \<open>Grounding\<close>, \<open>Engine\<close>: \<open>prompts/\<close>, \<open>integrations/llm/\<close>, \<open>composition/\<close>. The
    prompt cannot be forged by its data; no provider answer makes an adapter misbehave; \<open>Regex\<close> is a
    model of Python's backtracking matcher for the patterns of \<open>grounding.py\<close>; every number of an
    accepted draft is in the evidence; what the engine returns was accepted or is the factual fallback.
  \<^item> \<open>Conversation_Service\<close>, \<open>Worker\<close>, \<open>Worker_Main\<close>: \<open>conversation/\<close>, \<open>worker/main.py\<close>. A message gets one
    recorded reply and at most one delivery; the lock is not left behind; a turn of the worker settles
    the job it claimed; the process stops when told, with its connections closed and
    its heartbeat file gone unless closing fails. The locales \<open>reply_frame\<close> and \<open>call_frame\<close> carry a
    relation over every step of a call; their interpretations are what a call may change.
  \<^item> \<open>Config\<close>, \<open>Api\<close>, \<open>Resources\<close>: \<open>core/config.py\<close>, the factories, \<open>api/\<close>, and the connections that the parts
    open and close. A validated configuration is enough to start what it enables; only requests signed
    with the app secret change anything; what a factory opened its product closes, up to the first
    \<open>close\<close> that raises. The locale \<open>managed\<close> states this once, for the worker, the orchestrator, the
    ingress, the readiness probe and the application.
  \<^item> This theory: what spans the webhook, its payload and its ingestion. An acknowledged body is signed by
    Meta and stored in full.

  \<^bold>\<open>Loops and fuel.\<close> Retry loops recurse on the attempts left, so they are total. The matcher of
  \<open>Regex\<close> repeats at most once per remaining character, which is what Python does for patterns whose
  body consumes a character, as all of them do. The only loop that may not end is the worker's:
  \<open>worker_loop\<close> has fuel, and \<open>run_worker_stops\<close> shows that any fuel beyond the iteration at which the
  stop event is set gives one and the same result.

  \<^bold>\<open>Not modelled.\<close> The start of uvicorn (\<open>api/main.py\<close>), alembic's environment (\<open>migrations/env.py\<close>) and the files
  that \<open>web/router.py\<close> serves have no logic of their own; rendering and output of log lines are structlog's.
  Signal registration, argument parsing and the sleep between attempts have no effect on the modelled
  state. Cancellation of a task (\<open>asyncio.CancelledError\<close>) is not an exception of the model; in the
  delivery protocol it is a crash.
\<close>

section \<open>From the body to the database\<close>

lemma receive_success:
  assumes "receive mac loads payload_of u cfg (Some ingest_events) signature raw_body s = (Inr result, s')"
  obtains secret ev where "wc_app_secret cfg = Some secret" "verify_signature mac raw_body signature secret = Inr True"
    "webhook_events_of loads payload_of u cfg raw_body = Inr ev" "ingest_events ev s = (Inr result, s')"
proof (rule receive_accepts [OF assms])
  fix secret f ev
  assume "wc_app_secret cfg = Some secret" "Some ingest_events = Some f"
    "verify_signature mac raw_body signature secret = Inr True" "webhook_events_of loads payload_of u cfg raw_body = Inr ev"
    "s' = snd (f ev s)" "\<forall>y. (Inr result :: webhook_ingest_result res) = Inr y \<longleftrightarrow> fst (f ev s) = Inr y"
  then show thesis by (intro that [of secret ev]) (auto simp: prod_eq_iff)
qed blast

lemma ingest_stores:
  assumes "ingest ops sha ttl el st cs ev s = (Inr result, s')"
  shows "m \<in> set (we_messages ev) \<Longrightarrow> Some (im_message_id m) \<in> ms_external_message_id ` set (messages (ig_db s'))"
    "cb \<in> set (we_statuses ev) \<Longrightarrow> Some (su_provider_message_id cb, su_status cb)
      \<in> uq_delivery_status_provider_state ` set (status_events (ig_db s'))"
    "wi_accepted_messages result + wi_duplicate_messages result = int (length (we_messages ev))"
proof -
  obtain sts dur d1 rs where m: "ingest_messages st 0 (we_messages ev) (ig_db s) = (Inr (sts, dur), d1)"
    and c: "ingest_callbacks el cs 0 (we_statuses ev) (d1, ig_log s) = (Inr rs, ig_db s', ig_log s')"
    and r: "wi_accepted_messages result + wi_duplicate_messages result = int (length sts)"
    by (rule ingest_Inr [OF assms]) (use count_persist in auto)
  have "messages (ig_db s') = messages d1" using ingest_callbacks_keeps [OF c] by blast
  with ingest_messages_keeps(6) [OF m]
  show "m \<in> set (we_messages ev) \<Longrightarrow> Some (im_message_id m) \<in> ms_external_message_id ` set (messages (ig_db s'))" by simp
  show "cb \<in> set (we_statuses ev) \<Longrightarrow> Some (su_provider_message_id cb, su_status cb)
      \<in> uq_delivery_status_provider_state ` set (status_events (ig_db s'))"
    using ingest_callbacks_keeps [OF c] by blast
  show "wi_accepted_messages result + wi_duplicate_messages result = int (length (we_messages ev))"
    using r ingest_messages_keeps(1) [OF m] by simp
qed

text \<open>
  C4. What is acknowledged is stored. When the webhook answers a request with success, Meta signed
  exactly this body with the configured secret, and after the call every message object of the body has
  its row in the message table and every status object its row in the status table; the counts of the
  answer account for every message object.
\<close>

theorem webhook_acknowledged:
  assumes "\<And>secret. length (mac secret raw_body) = 64 \<and> is_ascii (mac secret raw_body)"
    and "receive mac loads (parse_meta_payload coerce) u cfg (Some (ingest ops sha ttl el st cs)) signature raw_body s
      = (Inr result, s')"
  shows "\<exists>secret j. wc_app_secret cfg = Some secret \<and> signature = Some (lit ''sha256='' @ mac secret raw_body)
    \<and> loads raw_body = Loaded j
    \<and> (\<forall>(phone, x) \<in> set (body_objects (lit ''messages'') j). \<exists>i. jstr (jget (lit ''id'') x) = Some i
        \<and> Some i \<in> ms_external_message_id ` set (messages (ig_db s')))
    \<and> (\<forall>(phone, x) \<in> set (body_objects (lit ''statuses'') j). \<exists>i n. jstr (jget (lit ''id'') x) = Some i
        \<and> parse_meta_status_name (jget (lit ''status'') x) = Some n
        \<and> Some (i, status_map n) \<in> uq_delivery_status_provider_state ` set (status_events (ig_db s')))
    \<and> wi_accepted_messages result + wi_duplicate_messages result = int (length (body_objects (lit ''messages'') j))"
proof -
  obtain secret ev where sec: "wc_app_secret cfg = Some secret" "verify_signature mac raw_body signature secret = Inr True"
    and ev: "webhook_events_of loads (parse_meta_payload coerce) u cfg raw_body = Inr ev"
    and i: "ingest ops sha ttl el st cs ev s = (Inr result, s')"
    by (rule receive_success [OF assms(2)])
  note stored = ingest_stores [OF i]
  obtain j where j: "loads raw_body = Loaded j"
    and ms: "list_all2 message_from (body_objects (lit ''messages'') j) (we_messages ev)"
    and ss: "list_all2 status_from (body_objects (lit ''statuses'') j) (we_statuses ev)"
    by (rule webhook_events_read [OF ev])
  have "\<exists>i. jstr (jget (lit ''id'') x) = Some i \<and> Some i \<in> ms_external_message_id ` set (messages (ig_db s'))"
    if "(phone, x) \<in> set (body_objects (lit ''messages'') j)" for phone x
    using list_all2_left_member [OF ms that] stored(1) by (auto simp: message_from_def)
  moreover have "\<exists>i n. jstr (jget (lit ''id'') x) = Some i \<and> parse_meta_status_name (jget (lit ''status'') x) = Some n
      \<and> Some (i, status_map n) \<in> uq_delivery_status_provider_state ` set (status_events (ig_db s'))"
    if "(phone, x) \<in> set (body_objects (lit ''statuses'') j)" for phone x
  proof -
    from list_all2_left_member [OF ss that] obtain cb where "cb \<in> set (we_statuses ev)" "status_from (phone, x) cb" by blast
    with stored(2) [of cb] show ?thesis by (auto simp: status_from_def)
  qed
  moreover have "signature = Some (lit ''sha256='' @ mac secret raw_body)"
    using sec(2) verify_signature_accepts [of mac secret raw_body signature] assms(1) by simp
  moreover have "wi_accepted_messages result + wi_duplicate_messages result = int (length (body_objects (lit ''messages'') j))"
    using stored(3) list_all2_lengthD [OF ms] by simp
  ultimately show ?thesis using sec(1) j by auto
qed

section \<open>A concrete webhook\<close>

definition message_entry :: meta_entry where
  "message_entry = sample_entry\<lparr>mn_changes := map (\<lambda>v. v\<lparr>mv_statuses := []\<rparr>) (mn_changes sample_entry)\<rparr>"

definition webhook_message :: inbound_message where
  "webhook_message = sample_inbound\<lparr>im_received_at := Aware 1700000000000000,
     im_metadata := [(lit ''phone_number_id'', lit ''pn1''), (lit ''meta_message_type'', lit ''text'')]\<rparr>"

abbreviation webhook_body :: json where
  "webhook_body \<equiv> payload_json [] [message_entry]"

abbreviation webhook_ingress :: "webhook_events \<Rightarrow> keyspace ingress_state \<Rightarrow> webhook_ingest_result res \<times> keyspace ingress_state" where
  "webhook_ingress \<equiv> ingest memory_redis id 60 (\<lambda>n. 0) (\<lambda>n. (10, 11, 5, 2)) (\<lambda>n. (20, 21))"

definition webhook_state :: "keyspace ingress_state" where
  "webhook_state = \<lparr>ig_db = empty_db, ig_redis = fresh_keyspace [], ig_log = []\<rparr>"

lemma webhook_message_normalized:
  "normalize_webhook latin1 (Some [message_entry]) (Some (lit ''waba'')) (Some (lit ''pn1''))
    = Inr \<lparr>we_messages = [webhook_message], we_statuses = []\<rparr>"
  by (simp add: normalize_webhook_def normalize_entry_def normalize_change_def sample_entry_def message_entry_def
      normalize_message_def message_metadata_def sample_timestamps webhook_message_def sample_inbound_def
      Contracts.construct_def valid_defs as_webhook_error_def Let_def strip_eq_Nil)
    (simp add: lit_def is_space_def)

lemma webhook_message_ingested:
  "fst (ingest_messages (\<lambda>n. (10, 11, 5, 2)) 0 [webhook_message] empty_db)
    = Inr ([PERSIST_CREATED], [(lit ''pn1'', lit ''wamid.1'')])"
  by (simp add: webhook_message_def message_eval valid_persisted_inbound_def) (simp add: lit_def)

lemma webhook_ingress_ok:
  "\<exists>r s'. webhook_ingress \<lparr>we_messages = [webhook_message], we_statuses = []\<rparr> webhook_state = (Inr r, s')"
proof -
  obtain k where k: "dedup_claim memory_redis id 60 (lit ''pn1'') (lit ''wamid.1'') (fresh_keyspace [])
      = (Inr DEDUP_CLAIMED, k)" using sample_dedup_any by (metis prod.collapse)
  obtain d1 where "ingest_messages (\<lambda>n. (10, 11, 5, 2)) 0 [webhook_message] empty_db
      = (Inr ([PERSIST_CREATED], [(lit ''pn1'', lit ''wamid.1'')]), d1)" using webhook_message_ingested by (metis prod.collapse)
  with k show ?thesis
    by (simp add: ingest_def session_def count_def Contracts.construct_def valid_webhook_ingest_result_def webhook_state_def
        del: ingest_messages.simps)
qed

theorem webhook_acknowledged_witness:
  "\<exists>result s'. receive sample_mac (\<lambda>body. Loaded webhook_body) (parse_meta_payload (\<lambda>j. None)) latin1 sample_webhook
      (Some webhook_ingress) (Some (lit ''sha256='' @ replicate 64 50)) [123, 125] webhook_state = (Inr result, s')
    \<and> wi_accepted_messages result + wi_duplicate_messages result = 1"
proof -
  have "verify_signature sample_mac [123, 125] (Some (lit ''sha256='' @ replicate 64 50)) (lit ''s'') = Inr True"
    by (simp add: verify_signature_def compare_digest_def sample_mac_def starts_with_prefix is_ascii_def)
  moreover have "parse_meta_payload (\<lambda>j. None) webhook_body = Some [message_entry]" "is_object webhook_body"
    by (simp_all add: parse_meta_payload_def payload_json_def literal_field_def list_field_def)
  moreover obtain r s' where "webhook_ingress \<lparr>we_messages = [webhook_message], we_statuses = []\<rparr> webhook_state = (Inr r, s')"
    using webhook_ingress_ok by blast
  ultimately have r: "receive sample_mac (\<lambda>body. Loaded webhook_body) (parse_meta_payload (\<lambda>j. None)) latin1 sample_webhook
      (Some webhook_ingress) (Some (lit ''sha256='' @ replicate 64 50)) [123, 125] webhook_state = (Inr r, s')"
    by (simp add: receive_def sample_webhook_def webhook_events_of_def webhook_message_normalized)
  have mac: "length (sample_mac secret [123, 125]) = 64 \<and> is_ascii (sample_mac secret [123, 125])" for secret
    by (simp add: sample_mac_def is_ascii_def)
  have "length (body_objects (lit ''messages'') webhook_body) = 1"
    by (simp add: body_objects_def payload_json_def message_entry_def sample_entry_def entry_json_def change_json_def jelements_def)
  with webhook_acknowledged [of sample_mac "[123, 125]", OF mac r] r show ?thesis by auto
qed

end
